(* ===== verification/Prelude.thy ===== *)
theory Prelude
  imports Main "HOL-Library.Word" "HOL-Library.Log_Nat"
begin

section \<open>Prelude\<close>

text \<open>
  What every component of the development shares.

  \<^item> \<open>fault\<close> and \<open>'a res\<close>: the C code can leave the defined language (dereference NULL, touch
    freed memory, read past a block, read an indeterminate value, free what was not allocated,
    call itself without end, or, where a caller needs its result, run without end).
    Such a run is the value \<open>Inl fault\<close>; a run that stays defined is \<open>Inr x\<close>. \<open>bindR\<close>
    sequences two fallible steps. \<open>Out_Of_Fuel\<close> marks an exhausted recursion budget of the
    model, never a behaviour of the code; wherever a budget is used a lemma says how much
    is enough.
  \<^item> \<open>find_index\<close> and \<open>remove_first\<close>: the search loops of the code and their effect on the
    sequence of elements.
  \<^item> \<open>show_int\<close>, \<open>snprintf\<close> and \<open>INT_LENGTH\<close>: decimal rendering by \<open>%d\<close>, truncation by
    \<open>snprintf\<close>, and the buffer-length helper of \<open>sp-daemon/main.h\<close>.
\<close>

named_theorems res_simps "unfolding of the result sequencing"
named_theorems live_simps "how the operations act on the abstract views of the state"

subsection \<open>Undefined behaviour as a value\<close>

datatype fault =
    Null_Deref
  | Use_After_Free
  | Out_Of_Bounds
  | Uninit_Read
  | Bad_Free
  | Int_Overflow
  | Stack_Overflow
  | No_Return
  | Out_Of_Fuel

type_synonym 'a res = "fault + 'a"

definition bindR :: "'a res \<Rightarrow> ('a \<Rightarrow> 'b res) \<Rightarrow> 'b res" where
  "bindR m f = (case m of Inl e \<Rightarrow> Inl e | Inr x \<Rightarrow> f x)"

lemma bindR_Inr [simp]: "bindR (Inr x) f = f x"
  by (simp add: bindR_def)

lemma bindR_Inl [simp]: "bindR (Inl e) f = Inl e"
  by (simp add: bindR_def)

lemma bindR_eq_Inr [res_simps]: "bindR m f = Inr y \<longleftrightarrow> (\<exists>x. m = Inr x \<and> f x = Inr y)"
  by (cases m) auto

lemma bindR_eq_Inl [res_simps]:
  "bindR m f = Inl e \<longleftrightarrow> m = Inl e \<or> (\<exists>x. m = Inr x \<and> f x = Inl e)"
  by (cases m) auto

lemma bindR_InrE:
  assumes "bindR m f = Inr y"
  obtains x where "m = Inr x" and "f x = Inr y"
  using assms by (cases m) auto

lemma bindR_InlE:
  assumes "bindR m f = Inl e"
  obtains "m = Inl e" | x where "m = Inr x" and "f x = Inl e"
  using assms by (cases m) auto

lemma bindR_assoc: "bindR (bindR m f) g = bindR m (\<lambda>x. bindR (f x) g)"
  by (cases m) auto

lemma bindR_Inr_id: "bindR m (\<lambda>x. Inr x) = m"
  by (cases m) auto

text \<open>A dereference of a possibly null or dangling reference.\<close>

definition deref :: "'a option \<Rightarrow> fault \<Rightarrow> 'a res" where
  "deref x e = (case x of None \<Rightarrow> Inl e | Some v \<Rightarrow> Inr v)"

lemma deref_Some [simp]: "deref (Some v) e = Inr v"
  by (simp add: deref_def)

lemma deref_None [simp]: "deref None e = Inl e"
  by (simp add: deref_def)

lemma deref_eq_Inr [res_simps]: "deref x e = Inr v \<longleftrightarrow> x = Some v"
  by (cases x) auto

lemma deref_eq_Inl [res_simps]: "deref x e = Inl e' \<longleftrightarrow> x = None \<and> e' = e"
  by (cases x) auto

text \<open>A global pointer variable: NULL, pointing to a live object, or left pointing to freed memory.\<close>

datatype 'a gptr = Null_ptr | Live_ptr 'a | Dangling_ptr

fun gderef :: "'a gptr \<Rightarrow> 'a res" where
  "gderef Null_ptr = Inl Null_Deref"
| "gderef (Live_ptr v) = Inr v"
| "gderef Dangling_ptr = Inl Use_After_Free"

lemma gderef_eq_Inr [res_simps]: "gderef p = Inr v \<longleftrightarrow> p = Live_ptr v"
  by (cases p) auto

text \<open>A run of the model that does not use up its budget.\<close>

definition ends :: "'a res \<Rightarrow> bool" where
  "ends m \<longleftrightarrow> m \<noteq> Inl Out_Of_Fuel"

lemma ends_Inr [simp]: "ends (Inr x)"
  by (simp add: ends_def)

lemma ends_Inl [simp]: "ends (Inl e) \<longleftrightarrow> e \<noteq> Out_Of_Fuel"
  by (simp add: ends_def)

lemma ends_deref [simp]: "e \<noteq> Out_Of_Fuel \<Longrightarrow> ends (deref x e)"
  by (cases x) simp_all

lemma ends_gderef [simp]: "ends (gderef p)"
  by (cases p) simp_all

lemma ends_bind:
  assumes "ends m" and "\<And>x. m = Inr x \<Longrightarrow> ends (f x)"
  shows "ends (bindR m f)"
  using assms by (cases m) simp_all

lemma ends_if: "(P \<Longrightarrow> ends a) \<Longrightarrow> (\<not> P \<Longrightarrow> ends b) \<Longrightarrow> ends (if P then a else b)"
  by simp

subsection \<open>Search loops\<close>

text \<open>
  \<open>for (i = 0; i < len; i++) if (P(elem i)) return i;\<close>
\<close>

fun find_index :: "('a \<Rightarrow> bool) \<Rightarrow> 'a list \<Rightarrow> nat option" where
  "find_index P [] = None"
| "find_index P (x # xs) = (if P x then Some 0 else map_option Suc (find_index P xs))"

fun remove_first :: "('a \<Rightarrow> bool) \<Rightarrow> 'a list \<Rightarrow> 'a list" where
  "remove_first P [] = []"
| "remove_first P (x # xs) = (if P x then xs else x # remove_first P xs)"

lemma find_index_None [simp]: "find_index P xs = None \<longleftrightarrow> (\<forall>x \<in> set xs. \<not> P x)"
  by (induction xs) auto

lemma find_index_SomeD:
  "find_index P xs = Some i \<Longrightarrow> i < length xs \<and> P (xs ! i) \<and> (\<forall>j < i. \<not> P (xs ! j))"
proof (induction xs arbitrary: i)
  case (Cons x xs)
  then show ?case
    by (auto split: if_splits simp: less_Suc_eq_0_disj)
qed simp

lemma find_index_cong:
  "(\<And>x. x \<in> set xs \<Longrightarrow> P x = Q x) \<Longrightarrow> find_index P xs = find_index Q xs"
  by (induction xs) auto

lemma find_index_find:
  "(case find_index P xs of Some i \<Rightarrow> Some (xs ! i) | None \<Rightarrow> None) = find P xs"
  by (induction xs) (auto split: option.splits simp del: find_index_None)

lemma find_index_nth:
  "find_index P xs = Some i \<Longrightarrow> find P xs = Some (xs ! i)"
  using find_index_find [where P = P and xs = xs] by simp

lemma find_remove_first_same:
  "distinct (map f xs) \<Longrightarrow> find (\<lambda>x. f x = k) (remove_first (\<lambda>x. f x = k) xs) = None"
proof (induction xs)
  case (Cons x xs)
  then show ?case by (cases "f x = k") (auto simp: find_None_iff image_iff)
qed simp

lemma find_remove_first_other:
  "k \<noteq> k' \<Longrightarrow> find (\<lambda>x. f x = k) (remove_first (\<lambda>x. f x = k') xs) = find (\<lambda>x. f x = k) xs"
  by (induction xs) auto

lemma remove_first_index:
  "find_index P xs = Some i \<Longrightarrow> remove_first P xs = take i xs @ drop (Suc i) xs"
  by (induction xs arbitrary: i) (auto split: if_splits)

lemma remove_first_absent: "(\<forall>x \<in> set xs. \<not> P x) \<Longrightarrow> remove_first P xs = xs"
  by (induction xs) auto

lemma remove_first_subset: "set (remove_first P xs) \<subseteq> set xs"
  by (induction xs) auto

lemma length_remove_first:
  "length (remove_first P xs) = (if \<exists>x \<in> set xs. P x then length xs - 1 else length xs)"
proof (induction xs)
  case (Cons x xs)
  then show ?case by (cases xs) auto
qed simp

lemma filter_remove_first:
  "(\<And>x. x \<in> set xs \<Longrightarrow> P x \<Longrightarrow> \<not> Q x) \<Longrightarrow> filter Q (remove_first P xs) = filter Q xs"
  by (induction xs) auto

lemma count_remove_first:
  "length (filter P (remove_first P xs)) = length (filter P xs) - 1"
  by (induction xs) (auto simp: Suc_diff_Suc)

lemma distinct_map_remove_first:
  "distinct (map f xs) \<Longrightarrow> distinct (map f (remove_first P xs))"
  by (induction xs) (auto dest: subsetD [OF remove_first_subset])

lemma chain_snoc:
  assumes "\<forall>i. Suc i < length xs \<longrightarrow> P (xs ! i) (xs ! Suc i)" and "xs \<noteq> [] \<Longrightarrow> P (last xs) x"
  shows "\<forall>i. Suc i < length (xs @ [x]) \<longrightarrow> P ((xs @ [x]) ! i) ((xs @ [x]) ! Suc i)"
proof (intro allI impI)
  fix i
  assume i: "Suc i < length (xs @ [x])"
  show "P ((xs @ [x]) ! i) ((xs @ [x]) ! Suc i)"
  proof (cases "Suc i < length xs")
    case True
    then show ?thesis using assms(1) by (simp add: nth_append)
  next
    case False
    with i have "Suc i = length xs" by simp
    moreover from this have "xs \<noteq> []" "i = length xs - 1" by auto
    ultimately show ?thesis using assms(2) by (simp add: nth_append last_conv_nth)
  qed
qed

subsection \<open>Index loops over a sequence that the body may change\<close>

lemma unique_index:
  assumes "filter P xs = [x]"
  obtains k where "k < length xs" "xs ! k = x" "P x" "\<And>j. j < length xs \<Longrightarrow> P (xs ! j) \<Longrightarrow> j = k"
proof -
  have "x \<in> set (filter P xs)" using assms by simp
  then obtain k where k: "k < length xs" "xs ! k = x" "P x" by (auto simp: in_set_conv_nth)
  have "j = k" if "j < length xs" "P (xs ! j)" for j
  proof (rule ccontr)
    assume "j \<noteq> k"
    have "length (filter P xs) = card {i. i < length xs \<and> P (xs ! i)}" by (rule length_filter_conv_card)
    then have "card {i. i < length xs \<and> P (xs ! i)} = 1" using assms by simp
    then obtain i where i: "{i. i < length xs \<and> P (xs ! i)} = {i}" by (auto simp: card_1_singleton_iff)
    have "j \<in> {i. i < length xs \<and> P (xs ! i)}" "k \<in> {i. i < length xs \<and> P (xs ! i)}" using that k by simp_all
    then show False using i \<open>j \<noteq> k\<close> by simp
  qed
  with k that show thesis by blast
qed

text \<open>
  \<open>for (i = 0; i < len(); i++) body(i);\<close> where the length is read again before every turn
  and the body may fail. The budget \<open>n\<close> bounds the number of turns; \<open>index_loop_fuel\<close> says
  when it is enough.
\<close>

fun index_loop :: "nat \<Rightarrow> ('s \<Rightarrow> nat) \<Rightarrow> (nat \<Rightarrow> 's \<Rightarrow> 's res) \<Rightarrow> nat \<Rightarrow> 's \<Rightarrow> 's res" where
  "index_loop 0 len body i s = (if i < len s then Inl Out_Of_Fuel else Inr s)"
| "index_loop (Suc n) len body i s =
     (if i < len s then bindR (body i s) (index_loop n len body (Suc i)) else Inr s)"

lemma index_loop_invariant:
  assumes "index_loop n len body i s = Inr t" and "I s"
    and "\<And>j s s'. I s \<Longrightarrow> j < len s \<Longrightarrow> body j s = Inr s' \<Longrightarrow> I s'"
  shows "I t"
  using assms(1,2)
proof (induction n arbitrary: i s)
  case 0
  then show ?case by (simp split: if_splits)
next
  case (Suc n)
  then show ?case using assms(3) by (auto simp: bindR_eq_Inr split: if_splits)
qed

lemma index_loop_no_fault:
  assumes "index_loop n len body i s = Inl e" and "I s"
    and "\<And>j s s'. I s \<Longrightarrow> j < len s \<Longrightarrow> body j s = Inr s' \<Longrightarrow> I s'"
    and "\<And>j s e. I s \<Longrightarrow> j < len s \<Longrightarrow> body j s = Inl e \<Longrightarrow> F e"
  shows "F e \<or> e = Out_Of_Fuel"
  using assms(1,2)
proof (induction n arbitrary: i s)
  case 0
  then show ?case by (simp split: if_splits)
next
  case (Suc n)
  then show ?case using assms(3,4) by (auto simp: bindR_eq_Inl split: if_splits)
qed

text \<open>A walk in which the body does nothing, or something at one index only.\<close>

lemma index_loop_rest:
  assumes "\<And>j. i \<le> j \<Longrightarrow> j < len s \<Longrightarrow> body j s = Inr s" and "len s \<le> n + i"
  shows "index_loop n len body i s = Inr s"
  using assms by (induction n arbitrary: i) auto

lemma index_loop_only:
  assumes "i \<le> k" "k < len s" "\<And>j. i \<le> j \<Longrightarrow> j < k \<Longrightarrow> body j s = Inr s" and "body k s = Inr t" "len t = len s"
    and "\<And>j. k < j \<Longrightarrow> j < len t \<Longrightarrow> body j t = Inr t" and "len s \<le> n + i"
  shows "index_loop n len body i s = Inr t"
  using assms(1,3,7)
proof (induction n arbitrary: i)
  case 0
  with assms(2) show ?case by simp
next
  case (Suc n)
  show ?case
  proof (cases "i = k")
    case True
    have "index_loop n len body (Suc k) t = Inr t"
      using assms(5,6) Suc.prems(3) True by (intro index_loop_rest) auto
    with True assms(2,4) show ?thesis by simp
  next
    case False
    with Suc.prems have "index_loop n len body (Suc i) s = Inr t" by (intro Suc.IH) auto
    with False Suc.prems assms(2) show ?thesis by simp
  qed
qed

lemma index_loop_fuel:
  assumes "len s \<le> b" and "b \<le> n + i" and "I s"
    and "\<And>j s s'. I s \<Longrightarrow> len s \<le> b \<Longrightarrow> j < len s \<Longrightarrow> body j s = Inr s' \<Longrightarrow> I s' \<and> len s' \<le> b"
    and "\<And>j s e. I s \<Longrightarrow> len s \<le> b \<Longrightarrow> j < len s \<Longrightarrow> body j s \<noteq> Inl Out_Of_Fuel"
  shows "index_loop n len body i s \<noteq> Inl Out_Of_Fuel"
  using assms(1-3)
proof (induction n arbitrary: i s)
  case 0
  then show ?case by simp
next
  case (Suc n)
  show ?case
  proof (cases "i < len s")
    case True
    show ?thesis
    proof (cases "body i s")
      case (Inl e)
      with Suc.prems True assms(5) [of s i] show ?thesis by auto
    next
      case (Inr s')
      with Suc.prems True assms(4) [of s i s'] have "I s'" "len s' \<le> b" by auto
      with Suc.IH [of s' "Suc i"] Suc.prems True Inr show ?thesis by simp
    qed
  qed simp
qed

subsection \<open>A fallible step for every element of a list\<close>

fun foldR :: "('a \<Rightarrow> 's \<Rightarrow> 's res) \<Rightarrow> 'a list \<Rightarrow> 's \<Rightarrow> 's res" where
  "foldR f [] s = Inr s"
| "foldR f (x # xs) s = bindR (f x s) (foldR f xs)"

lemma foldR_invariant:
  assumes "foldR f xs s = Inr t" and "I s"
    and "\<And>x s s'. x \<in> set xs \<Longrightarrow> I s \<Longrightarrow> f x s = Inr s' \<Longrightarrow> I s'"
  shows "I t"
  using assms
proof (induction xs arbitrary: s)
  case (Cons x xs)
  from Cons.prems(1) obtain u where "f x s = Inr u" and "foldR f xs u = Inr t"
    by (auto elim: bindR_InrE)
  with Cons show ?case by (meson list.set_intros)
qed simp

lemma foldR_fault:
  assumes "foldR f xs s = Inl e" and "I s"
    and "\<And>x s s'. x \<in> set xs \<Longrightarrow> I s \<Longrightarrow> f x s = Inr s' \<Longrightarrow> I s'"
    and "\<And>x s e. x \<in> set xs \<Longrightarrow> I s \<Longrightarrow> f x s = Inl e \<Longrightarrow> F e"
  shows "F e"
  using assms
proof (induction xs arbitrary: s)
  case (Cons x xs)
  from Cons.prems(1) consider "f x s = Inl e" | u where "f x s = Inr u" "foldR f xs u = Inl e"
    by (auto elim: bindR_InlE)
  then show ?case using Cons by cases (meson list.set_intros)+
qed simp

lemma ends_foldR: "(\<And>x s. x \<in> set xs \<Longrightarrow> ends (f x s)) \<Longrightarrow> ends (foldR f xs s)"
  by (induction xs arbitrary: s) (auto intro: ends_bind)

subsection \<open>Decimal rendering, \<open>snprintf\<close> and \<open>INT_LENGTH\<close>\<close>

definition digit :: "nat \<Rightarrow> char" where
  "digit d = char_of (48 + d)"

fun show_nat :: "nat \<Rightarrow> string" where
  "show_nat n = (if n < 10 then [digit n] else show_nat (n div 10) @ [digit (n mod 10)])"

declare show_nat.simps [simp del]

definition show_int :: "int \<Rightarrow> string" where
  "show_int v = (if v < 0 then CHR ''-'' # show_nat (nat (- v)) else show_nat (nat v))"

text \<open>Reading a digit string back; only used to show that the rendering loses nothing.\<close>

definition read_nat :: "string \<Rightarrow> nat" where
  "read_nat s = foldl (\<lambda>a c. 10 * a + (of_char c - 48)) 0 s"

lemma of_char_digit [simp]: "d < 10 \<Longrightarrow> of_char (digit d) = 48 + d"
  by (simp add: digit_def)

lemma read_show_nat: "read_nat (show_nat n) = n"
proof (induction n rule: show_nat.induct)
  case (1 n)
  then show ?case
    by (subst show_nat.simps) (auto simp: read_nat_def)
qed

lemma inj_show_nat: "show_nat m = show_nat n \<longleftrightarrow> m = n"
  by (metis read_show_nat)

lemma digit_neq_minus: "d < 10 \<Longrightarrow> digit d \<noteq> CHR ''-''"
proof
  assume "d < 10" "digit d = CHR ''-''"
  then have "48 + d = of_char CHR ''-''" by (metis of_char_digit)
  then show False by simp
qed

lemma hd_show_nat: "show_nat n = c # s \<Longrightarrow> c \<noteq> CHR ''-''"
proof (induction n arbitrary: s rule: show_nat.induct)
  case (1 n)
  show ?case
  proof (cases "n < 10")
    case True
    with "1.prems" show ?thesis by (subst (asm) show_nat.simps) (auto dest: digit_neq_minus)
  next
    case False
    then have eq: "show_nat n = show_nat (n div 10) @ [digit (n mod 10)]"
      by (subst show_nat.simps) simp
    show ?thesis
    proof (cases "show_nat (n div 10)")
      case Nil
      then show ?thesis by (subst (asm) show_nat.simps) (simp split: if_splits)
    next
      case (Cons c' s')
      with "1.IH" [OF False] eq "1.prems" show ?thesis by simp
    qed
  qed
qed

lemma inj_show_int: "show_int a = show_int b \<longleftrightarrow> a = b"
proof
  assume eq: "show_int a = show_int b"
  show "a = b"
  proof (cases "a < 0 \<longleftrightarrow> b < 0")
    case True
    with eq show ?thesis by (auto simp: show_int_def inj_show_nat split: if_splits)
  next
    case False
    with eq show ?thesis
      by (auto simp: show_int_def split: if_splits) (metis hd_show_nat)+
  qed
qed simp

text \<open>
  \<open>snprintf(buf, n, ...)\<close> stores at most \<open>n - 1\<close> characters and the terminating NUL; the
  result is the C string left in \<open>buf\<close>.
\<close>

definition snprintf :: "nat \<Rightarrow> string \<Rightarrow> string" where
  "snprintf n s = take (n - 1) s"

lemma snprintf_fits: "length s < n \<Longrightarrow> snprintf n s = s"
  by (simp add: snprintf_def)

text \<open>
  \<open>INT_LENGTH\<close> of \<open>main.h\<close>: \<open>(int)(log10(abs(value)) + 1)\<close>, with one more for the sign.
  \<open>floorlog 10\<close> is that truncated logarithm plus one (exact \<open>log10\<close> on exact powers of ten is
  what the C library provides). \<open>abs(INT_MIN)\<close> overflows.
\<close>

definition INT_LENGTH :: "int \<Rightarrow> nat res" where
  "INT_LENGTH value =
     (if value = - (2 ^ 31) then Inl Int_Overflow
      else Inr (if value = 0 then 1
                else floorlog 10 (nat \<bar>value\<bar>) + (if value < 0 then 1 else 0)))"

lemma length_show_nat: "0 < n \<Longrightarrow> length (show_nat n) = floorlog 10 n"
proof (induction n rule: show_nat.induct)
  case (1 n)
  show ?case
  proof (cases "n < 10")
    case True
    with "1.prems" show ?thesis
      by (subst show_nat.simps, subst compute_floorlog) (simp add: floorlog_def)
  next
    case False
    with 1 show ?thesis
      by (subst show_nat.simps, subst compute_floorlog) simp
  qed
qed

lemma length_show_int:
  "v \<noteq> - (2 ^ 31) \<Longrightarrow> INT_LENGTH v = Inr (length (show_int v))"
  by (auto simp: INT_LENGTH_def show_int_def length_show_nat show_nat.simps [of 0])

subsection \<open>File names\<close>

text \<open>\<open>dirname\<close> and \<open>basename\<close> of \<open>libgen.h\<close>.\<close>

definition strip_slashes :: "string \<Rightarrow> string" where
  "strip_slashes p = rev (dropWhile (\<lambda>c. c = CHR ''/'') (rev p))"

definition c_dirname :: "string \<Rightarrow> string" where
  "c_dirname p =
     (let a = strip_slashes p
      in if a = [] then (if p = [] then ''.'' else ''/'')
         else let b = rev (dropWhile (\<lambda>c. c \<noteq> CHR ''/'') (rev a))
              in if b = [] then ''.''
                 else if strip_slashes b = [] then ''/'' else strip_slashes b)"

definition c_basename :: "string \<Rightarrow> string" where
  "c_basename p =
     (let a = strip_slashes p
      in if a = [] then (if p = [] then ''.'' else ''/'')
         else rev (takeWhile (\<lambda>c. c \<noteq> CHR ''/'') (rev a)))"

lemma length_strip_slashes: "length (strip_slashes p) \<le> length p"
  unfolding strip_slashes_def by (metis length_rev length_dropWhile_le)

text \<open>A directory is shorter than what lies in it, or one of the two names that are their own parent.\<close>

lemma c_dirname_cases: "c_dirname p = ''.'' \<or> c_dirname p = ''/'' \<or> length (c_dirname p) < length p"
proof -
  let ?a = "strip_slashes p"
  let ?b = "rev (dropWhile (\<lambda>c. c \<noteq> CHR ''/'') (rev ?a))"
  have "length (strip_slashes ?b) < length p" if "?a \<noteq> []"
  proof -
    from that have "rev ?a \<noteq> []" by simp
    moreover from this have "hd (rev ?a) \<noteq> CHR ''/''"
      unfolding strip_slashes_def rev_rev_ident by (rule hd_dropWhile)
    ultimately have "length (dropWhile (\<lambda>c. c \<noteq> CHR ''/'') (rev ?a)) < length (rev ?a)"
      by (cases "rev ?a") (auto intro: le_imp_less_Suc length_dropWhile_le)
    then show ?thesis using length_strip_slashes [of p] length_strip_slashes [of ?b] by simp
  qed
  then show ?thesis unfolding c_dirname_def Let_def by presburger
qed

lemma c_dirname_fix: "c_dirname p = p \<Longrightarrow> p = ''.'' \<or> p = ''/''"
  using c_dirname_cases [of p] by auto

lemma c_dirname_roots: "c_dirname ''.'' = ''.''" "c_dirname ''/'' = ''/''"
  by code_simp+

end
