(* ===== verification/Arrays.thy ===== *)
theory Arrays
  imports Prelude
begin

section \<open>The growing array of \<open>sp-daemon/array.c\<close>\<close>

text \<open>
  Two levels.
  \<^item> \<open>Array\<close> is the C structure: one block of bytes, the size of an element and a 32-bit
    element count. \<open>array_new\<close>, \<open>array_add\<close>, \<open>array_get\<close>, \<open>array_del\<close> and
    \<open>array_len_get\<close> work on bytes and offsets as the code does (\<open>calloc\<close> and \<open>realloc\<close> are
    taken to succeed; new bytes of a grown block are indeterminate and are a parameter).
  \<^item> \<open>'a tarray\<close> is what the macros of \<open>array.h\<close> give to the rest of the daemon: a sequence
    of elements of one type. It also counts the reallocations (\<open>blk\<close>): a pointer into the
    array is only valid until the next one.

  The locale \<open>array_ops\<close> is the contract between the two. It is interpreted on the byte level
  (\<open>bytes\<close>) and on the typed level (\<open>typed\<close>); the components use the typed instance.
\<close>

subsection \<open>Byte level\<close>

record Array =
  a_ptr :: "8 word list"
  a_size :: nat
  a_len :: "32 word"

definition realloc :: "(nat \<Rightarrow> 8 word) \<Rightarrow> 8 word list \<Rightarrow> nat \<Rightarrow> 8 word list" where
  "realloc g p n = take n p @ map g [length p..<n]"

definition ACCESS :: "Array \<Rightarrow> 32 word \<Rightarrow> nat" where
  "ACCESS arr i = unat i * a_size arr"

definition array_new :: "nat \<Rightarrow> Array" where
  "array_new sz = \<lparr>a_ptr = [], a_size = sz, a_len = 0\<rparr>"

text \<open>The result is the offset of the new element in the block.\<close>

definition array_add :: "(nat \<Rightarrow> 8 word) \<Rightarrow> Array \<Rightarrow> Array \<times> nat" where
  "array_add g arr =
     (let arr1 = arr\<lparr>a_len := a_len arr + 1\<rparr>;
          arr2 = arr1\<lparr>a_ptr := realloc g (a_ptr arr1) (unat (a_len arr1) * a_size arr1)\<rparr>
      in (arr2, ACCESS arr2 (a_len arr2 - 1)))"

definition array_get :: "Array \<Rightarrow> 32 word \<Rightarrow> nat option" where
  "array_get arr i = (if i \<ge> a_len arr then None else Some (ACCESS arr i))"

definition memmove :: "8 word list \<Rightarrow> nat \<Rightarrow> nat \<Rightarrow> nat \<Rightarrow> 8 word list" where
  "memmove p dst src n = take dst p @ take n (drop src p) @ drop (dst + n) p"

definition array_del :: "(nat \<Rightarrow> 8 word) \<Rightarrow> Array \<Rightarrow> 32 word \<Rightarrow> Array" where
  "array_del g arr i =
     (if i \<ge> a_len arr then arr
      else
        let s = unat (a_len arr - i - 1) * a_size arr;
            arr1 = arr\<lparr>a_ptr := memmove (a_ptr arr) (ACCESS arr i) (ACCESS arr (i + 1)) s\<rparr>;
            arr2 = arr1\<lparr>a_len := a_len arr1 - 1\<rparr>
        in arr2\<lparr>a_ptr := realloc g (a_ptr arr2) (unat (a_len arr2) * a_size arr2)\<rparr>)"

definition array_len_get :: "Array \<Rightarrow> 32 word" where
  "array_len_get arr = a_len arr"

text \<open>Stores and loads of one element through an offset handed out by the operations.\<close>

definition store_at :: "Array \<Rightarrow> nat \<Rightarrow> 8 word list \<Rightarrow> Array" where
  "store_at arr off v =
     arr\<lparr>a_ptr := take off (a_ptr arr) @ v @ drop (off + length v) (a_ptr arr)\<rparr>"

definition load_at :: "Array \<Rightarrow> nat \<Rightarrow> 8 word list" where
  "load_at arr off = take (a_size arr) (drop off (a_ptr arr))"

definition array_wf :: "Array \<Rightarrow> bool" where
  "array_wf arr \<longleftrightarrow> length (a_ptr arr) = unat (a_len arr) * a_size arr"

fun chunks :: "nat \<Rightarrow> nat \<Rightarrow> 'a list \<Rightarrow> 'a list list" where
  "chunks sz 0 p = []"
| "chunks sz (Suc n) p = take sz p # chunks sz n (drop sz p)"

definition array_elems :: "Array \<Rightarrow> 8 word list list" where
  "array_elems arr = chunks (a_size arr) (unat (a_len arr)) (a_ptr arr)"

lemma length_chunks [simp]: "length (chunks sz n p) = n"
  by (induction n arbitrary: p) auto

lemma chunks_nth: "i < n \<Longrightarrow> chunks sz n p ! i = take sz (drop (i * sz) p)"
proof (induction n arbitrary: i p)
  case (Suc n)
  then show ?case by (cases i) (auto simp: add.commute)
qed simp

lemma chunks_eqI:
  assumes "length xs = n" and "\<And>i. i < n \<Longrightarrow> xs ! i = take sz (drop (i * sz) p)"
  shows "chunks sz n p = xs"
  using assms by (intro nth_equalityI) (auto simp: chunks_nth)

lemma unat_Suc_room: "unat (n :: 32 word) + 1 < 2 ^ 32 \<Longrightarrow> unat (n + 1) = unat n + 1"
  by (simp add: unat_word_ariths)

lemma unat_pred: "i < n \<Longrightarrow> unat (n - 1 :: 32 word) = unat n - 1"
  by (metis unat_minus_one word_gt_0 word_le_less_eq word_zero_le order_le_less_trans
      neq_iff)

lemma unat_gap:
  assumes "i < (n :: 32 word)"
  shows "unat (n - i - 1) = unat n - unat i - 1"
proof -
  from assms have lt: "unat i < unat n" by (simp add: word_less_nat_alt)
  have sub: "unat (n - i) = unat n - unat i"
    using assms by (simp add: unat_sub order_less_imp_le)
  with lt have "n - i \<noteq> 0" by (metis unat_0 zero_less_diff less_irrefl)
  with sub show ?thesis by (simp add: unat_minus_one)
qed

lemma unat_Suc_lt:
  assumes "i < (n :: 32 word)"
  shows "unat (i + 1) = unat i + 1"
proof (rule unat_Suc_room)
  from assms have "unat i < unat n" by (simp add: word_less_nat_alt)
  moreover have "unat n < 2 ^ 32" using unsigned_less [of n, where ?'a = nat] by simp
  ultimately show "unat i + 1 < 2 ^ 32" by linarith
qed

lemma length_realloc: "length (realloc g p n) = n"
  by (simp add: realloc_def)

lemma array_wf_new: "array_wf (array_new sz)"
  by (simp add: array_wf_def array_new_def)

lemma a_size_new: "a_size (array_new sz) = sz"
  by (simp add: array_new_def)

lemma array_elems_new: "array_elems (array_new sz) = []"
  by (simp add: array_elems_def array_new_def)

text \<open>
  Appending: \<open>array_add\<close> followed by the store of the caller (every user fills the fields of
  the returned element at once).
\<close>

definition array_push :: "(nat \<Rightarrow> 8 word) \<Rightarrow> 8 word list \<Rightarrow> Array \<Rightarrow> Array" where
  "array_push g v arr = (case array_add g arr of (arr', off) \<Rightarrow> store_at arr' off v)"

lemma array_push_simps:
  assumes "unat (a_len arr) + 1 < 2 ^ 32" and "array_wf arr" and "length v = a_size arr"
  shows "a_len (array_push g v arr) = a_len arr + 1"
    and "a_size (array_push g v arr) = a_size arr"
    and "a_ptr (array_push g v arr) = a_ptr arr @ v"
  using assms unat_Suc_room [OF assms(1)]
  by (simp_all add: array_push_def array_add_def store_at_def ACCESS_def Let_def array_wf_def
      realloc_def)

lemma array_wf_push:
  assumes "unat (a_len arr) + 1 < 2 ^ 32" and "array_wf arr" and "length v = a_size arr"
  shows "array_wf (array_push g v arr)"
  using assms unat_Suc_room [OF assms(1)]
  by (simp add: array_wf_def array_push_simps)

lemma chunks_append:
  "length p = n * sz \<Longrightarrow> length v = sz \<Longrightarrow> chunks sz (Suc n) (p @ v) = chunks sz n p @ [v]"
proof (rule chunks_eqI)
  assume p: "length p = n * sz" and v: "length v = sz"
  show "length (chunks sz n p @ [v]) = Suc n" by simp
  fix i assume i: "i < Suc n"
  show "(chunks sz n p @ [v]) ! i = take sz (drop (i * sz) (p @ v))"
  proof (cases "i < n")
    case True
    then have "(i + 1) * sz \<le> n * sz" by (intro mult_le_mono1) simp
    with True p show ?thesis by (simp add: nth_append chunks_nth)
  next
    case False
    with i have "i = n" by simp
    with p v show ?thesis by (simp add: nth_append)
  qed
qed

lemma array_elems_push:
  assumes "unat (a_len arr) + 1 < 2 ^ 32" and "array_wf arr" and "length v = a_size arr"
  shows "array_elems (array_push g v arr) = array_elems arr @ [v]"
  using assms unat_Suc_room [OF assms(1)] chunks_append [of "a_ptr arr" "unat (a_len arr)" "a_size arr" v]
  by (simp add: array_elems_def array_push_simps array_wf_def)

lemma array_get_elems:
  "array_get arr i = (if unat i < length (array_elems arr) then Some (ACCESS arr i) else None)"
  by (auto simp: array_get_def array_elems_def word_le_nat_alt)

lemma load_get:
  "unat i < length (array_elems arr) \<Longrightarrow> load_at arr (ACCESS arr i) = array_elems arr ! unat i"
  by (simp add: load_at_def ACCESS_def array_elems_def chunks_nth)

lemma array_del_simps:
  assumes wf: "array_wf arr" and i: "i < a_len arr"
  shows "a_len (array_del g arr i) = a_len arr - 1"
    and "a_size (array_del g arr i) = a_size arr"
    and "a_ptr (array_del g arr i) =
      take (unat i * a_size arr) (a_ptr arr) @ drop ((unat i + 1) * a_size arr) (a_ptr arr)"
proof -
  let ?sz = "a_size arr" and ?p = "a_ptr arr" and ?n = "unat (a_len arr)" and ?i = "unat i"
  have lt: "?i < ?n" using i by (simp add: word_less_nat_alt)
  have len: "length ?p = ?n * ?sz" using wf by (simp add: array_wf_def)
  have gap: "unat (a_len arr - i - 1) * ?sz = ?n * ?sz - (?i + 1) * ?sz"
    using i by (simp add: unat_gap diff_mult_distrib)
  have le: "(?i + 1) * ?sz \<le> ?n * ?sz" using lt by (intro mult_le_mono1) simp
  show "a_len (array_del g arr i) = a_len arr - 1"
    and "a_size (array_del g arr i) = ?sz"
    using i by (auto simp: array_del_def Let_def)
  have n1: "(?n - 1) * ?sz = ?i * ?sz + (?n * ?sz - (?i + 1) * ?sz)"
    using le lt by (simp add: diff_mult_distrib algebra_simps)
  show "a_ptr (array_del g arr i) = take (?i * ?sz) ?p @ drop ((?i + 1) * ?sz) ?p"
    using i le len n1
    by (simp add: array_del_def Let_def ACCESS_def memmove_def realloc_def unat_pred [OF i]
        unat_Suc_lt [OF i] gap)
qed

lemma array_wf_del: "array_wf arr \<Longrightarrow> i < a_len arr \<Longrightarrow> array_wf (array_del g arr i)"
  using word_less_nat_alt [of i "a_len arr"] mult_le_mono1 [of "unat i + 1" "unat (a_len arr)" "a_size arr"]
  by (simp add: array_wf_def array_del_simps unat_pred diff_mult_distrib)

lemma take_drop_before:
  "a + n \<le> b \<Longrightarrow> b \<le> length p \<Longrightarrow> take n (drop a (take b p @ q)) = take n (drop a p)"
  by (auto simp: drop_take min_def)

lemma array_elems_del:
  assumes wf: "array_wf arr" and i: "i < a_len arr"
  shows "array_elems (array_del g arr i) =
    take (unat i) (array_elems arr) @ drop (Suc (unat i)) (array_elems arr)"
proof -
  let ?sz = "a_size arr" and ?p = "a_ptr arr" and ?n = "unat (a_len arr)" and ?i = "unat i"
  have lt: "?i < ?n" using i by (simp add: word_less_nat_alt)
  have len: "length ?p = ?n * ?sz" using wf by (simp add: array_wf_def)
  have le: "?i * ?sz \<le> ?n * ?sz" using lt by (intro mult_le_mono1) simp
  have "chunks ?sz (?n - 1) (take (?i * ?sz) ?p @ drop ((?i + 1) * ?sz) ?p) =
    take ?i (chunks ?sz ?n ?p) @ drop (Suc ?i) (chunks ?sz ?n ?p)"
  proof (rule chunks_eqI)
    show "length (take ?i (chunks ?sz ?n ?p) @ drop (Suc ?i) (chunks ?sz ?n ?p)) = ?n - 1"
      using lt by simp
    fix j assume j: "j < ?n - 1"
    show "(take ?i (chunks ?sz ?n ?p) @ drop (Suc ?i) (chunks ?sz ?n ?p)) ! j =
      take ?sz (drop (j * ?sz) (take (?i * ?sz) ?p @ drop ((?i + 1) * ?sz) ?p))"
    proof (cases "j < ?i")
      case True
      then have "(j + 1) * ?sz \<le> ?i * ?sz" by (intro mult_le_mono1) simp
      then have "j * ?sz + ?sz \<le> ?i * ?sz" by simp
      with len le have "take ?sz (drop (j * ?sz) (take (?i * ?sz) ?p @ drop ((?i + 1) * ?sz) ?p)) =
        take ?sz (drop (j * ?sz) ?p)"
        by (intro take_drop_before) simp_all
      with True lt show ?thesis by (simp add: nth_append chunks_nth)
    next
      case False
      then have "?i * ?sz \<le> j * ?sz" by (intro mult_le_mono1) simp
      with False j lt len le show ?thesis
        by (simp add: nth_append chunks_nth algebra_simps)
    qed
  qed
  with i show ?thesis
    by (simp add: array_elems_def array_del_simps [OF wf i] unat_pred)
qed

subsection \<open>The contract of the array\<close>

locale array_ops =
  fixes new :: "'arr"
    and push :: "'e \<Rightarrow> 'arr \<Rightarrow> 'arr"
    and get :: "'arr \<Rightarrow> nat \<Rightarrow> 'e option"
    and del :: "'arr \<Rightarrow> nat \<Rightarrow> 'arr"
    and len :: "'arr \<Rightarrow> nat"
    and elems :: "'arr \<Rightarrow> 'e list"
    and wf :: "'arr \<Rightarrow> bool"
    and room :: "'e \<Rightarrow> 'arr \<Rightarrow> bool"
  assumes wf_new: "wf new"
    and elems_new: "elems new = []"
    and wf_push: "wf a \<Longrightarrow> room e a \<Longrightarrow> wf (push e a)"
    and elems_push: "wf a \<Longrightarrow> room e a \<Longrightarrow> elems (push e a) = elems a @ [e]"
    and get_elems: "wf a \<Longrightarrow> i < 2 ^ 32 \<Longrightarrow>
      get a i = (if i < length (elems a) then Some (elems a ! i) else None)"
    and wf_del: "wf a \<Longrightarrow> i < length (elems a) \<Longrightarrow> wf (del a i)"
    and elems_del: "wf a \<Longrightarrow> i < length (elems a) \<Longrightarrow>
      elems (del a i) = take i (elems a) @ drop (Suc i) (elems a)"
    and del_beyond: "wf a \<Longrightarrow> length (elems a) \<le> i \<Longrightarrow> i < 2 ^ 32 \<Longrightarrow> del a i = a"
    and len_elems: "wf a \<Longrightarrow> len a = length (elems a)"
    and len_bound: "wf a \<Longrightarrow> len a < 2 ^ 32"
begin

lemma find_map_index: "find Q (map f ys) = map_option f (find (\<lambda>y. Q (f y)) ys)"
  by (induction ys) auto

text \<open>The loops of the daemon visit \<open>get a 0, get a 1, \<dots>\<close> below \<open>len a\<close>.\<close>

definition scan :: "('e \<Rightarrow> bool) \<Rightarrow> 'arr \<Rightarrow> nat option" where
  "scan P a = find (\<lambda>i. case get a i of Some e \<Rightarrow> P e | None \<Rightarrow> False) [0..<len a]"

lemma get_inside: "wf a \<Longrightarrow> i < len a \<Longrightarrow> get a i = Some (elems a ! i)"
  using len_bound [of a] by (simp add: get_elems len_elems)

lemma find_upt: "find (\<lambda>i. P (xs ! i)) [0..<length xs] = find_index P xs"
proof (induction xs)
  case (Cons x xs)
  have "find (\<lambda>i. P ((x # xs) ! i)) [Suc 0..<Suc (length xs)] =
      map_option Suc (find (\<lambda>i. P (xs ! i)) [0..<length xs])"
    unfolding map_Suc_upt [symmetric] by (simp add: find_map_index)
  with Cons show ?case by (simp add: upt_conv_Cons del: upt_Suc)
qed simp

lemma scan_find_index:
  assumes wf: "wf a"
  shows "scan P a = find_index P (elems a)"
proof -
  have "scan P a = find (\<lambda>i. P (elems a ! i)) [0..<length (elems a)]"
    unfolding scan_def
    by (rule find_cong) (use wf in \<open>auto simp: get_inside len_elems\<close>)
  then show ?thesis by (simp add: find_upt)
qed

lemma elems_del_scan:
  assumes "wf a" and "scan P a = Some i"
  shows "elems (del a i) = remove_first P (elems a)" and "wf (del a i)"
  using assms
  by (auto simp: scan_find_index elems_del wf_del remove_first_index dest: find_index_SomeD)

lemma get_after_push:
  "wf a \<Longrightarrow> room e a \<Longrightarrow> get (push e a) (len a) = Some e"
  using len_bound [of a] by (simp add: get_elems wf_push elems_push len_elems)

lemma len_push: "wf a \<Longrightarrow> room e a \<Longrightarrow> len (push e a) = len a + 1"
  by (simp add: len_elems wf_push elems_push)

end

lemma of_nat_32_less: "unat (of_nat i :: 32 word) = i" if "i < 2 ^ 32"
  using that by (simp add: unat_of_nat)

lemma array_len_elems: "length (array_elems a) = unat (a_len a)"
  by (simp add: array_elems_def)

lemma unat_32_bound: "unat (w :: 32 word) < 2 ^ 32"
  using unsigned_less [of w, where ?'a = nat] by simp

interpretation bytes: array_ops
  "array_new sz" "array_push g" "\<lambda>a i. map_option (load_at a) (array_get a (of_nat i))"
  "\<lambda>a i. array_del g a (of_nat i)" "\<lambda>a. unat (array_len_get a)" array_elems
  "\<lambda>a. array_wf a \<and> a_size a = sz" "\<lambda>v a. length v = sz \<and> unat (a_len a) + 1 < 2 ^ 32"
  for sz g
proof unfold_locales
  fix a :: Array and i :: nat
  assume a: "array_wf a \<and> a_size a = sz"
  show "i < 2 ^ 32 \<Longrightarrow> map_option (load_at a) (array_get a (of_nat i)) =
      (if i < length (array_elems a) then Some (array_elems a ! i) else None)"
    by (auto simp: array_get_elems load_get of_nat_32_less)
  show "length (array_elems a) \<le> i \<Longrightarrow> i < 2 ^ 32 \<Longrightarrow> array_del g a (of_nat i) = a"
    by (simp add: array_del_def word_le_nat_alt of_nat_32_less array_len_elems)
  assume i: "i < length (array_elems a)"
  then have i32: "i < 2 ^ 32"
    using unat_32_bound [of "a_len a"] by (simp add: array_len_elems)
  with i have lt: "of_nat i < a_len a"
    by (simp add: word_less_nat_alt of_nat_32_less array_len_elems)
  show "array_wf (array_del g a (of_nat i)) \<and> a_size (array_del g a (of_nat i)) = sz"
    using a lt by (simp add: array_wf_del array_del_simps)
  show "array_elems (array_del g a (of_nat i)) =
      take i (array_elems a) @ drop (Suc i) (array_elems a)"
    using a lt i32 by (simp add: array_elems_del of_nat_32_less)
qed (auto simp: array_wf_new array_elems_new a_size_new array_wf_push array_elems_push
    array_push_simps array_len_get_def array_len_elems unat_32_bound [simplified])

subsection \<open>Typed level: the \<open>ARRAY_API\<close> of \<open>array.h\<close>\<close>

record 'a tarray =
  cells :: "'a list"
  blk :: nat

definition tarray_new :: "'a tarray" where
  "tarray_new = \<lparr>cells = [], blk = 0\<rparr>"

definition tarray_add :: "'a \<Rightarrow> 'a tarray \<Rightarrow> 'a tarray" where
  "tarray_add v a = \<lparr>cells = cells a @ [v], blk = Suc (blk a)\<rparr>"

definition tarray_get :: "'a tarray \<Rightarrow> nat \<Rightarrow> 'a option" where
  "tarray_get a i = (if i < length (cells a) then Some (cells a ! i) else None)"

definition tarray_set :: "'a tarray \<Rightarrow> nat \<Rightarrow> 'a \<Rightarrow> 'a tarray" where
  "tarray_set a i v = a\<lparr>cells := (cells a)[i := v]\<rparr>"

definition tarray_del :: "'a tarray \<Rightarrow> nat \<Rightarrow> 'a tarray" where
  "tarray_del a i =
     (if i < length (cells a)
      then \<lparr>cells = take i (cells a) @ drop (Suc i) (cells a), blk = Suc (blk a)\<rparr> else a)"

abbreviation tarray_len :: "'a tarray \<Rightarrow> nat" where
  "tarray_len a \<equiv> length (cells a)"

interpretation typed: array_ops
  tarray_new tarray_add tarray_get tarray_del tarray_len cells
  "\<lambda>a. tarray_len a < 2 ^ 32" "\<lambda>e a. tarray_len a + 1 < 2 ^ 32"
  by unfold_locales (auto simp: tarray_new_def tarray_add_def tarray_get_def tarray_del_def)

subsection \<open>Properties\<close>

text \<open>C25: Appending to the byte array keeps it well formed, puts the new element behind all others, and
  \<open>array_get\<close> hands out the offset of exactly the elements that are there, where the bytes stored
  are found again; nothing is handed out beyond the end.\<close>

theorem array_push_get:
  assumes "array_wf arr" and "length v = a_size arr" and "unat (a_len arr) + 1 < 2 ^ 32"
  shows "array_wf (array_push g v arr) \<and> array_elems (array_push g v arr) = array_elems arr @ [v] \<and>
    (\<forall>i. map_option (load_at (array_push g v arr)) (array_get (array_push g v arr) i) =
       (if i < a_len arr then Some (array_elems arr ! unat i)
        else if i = a_len arr then Some v else None))"
proof -
  let ?p = "array_push g v arr"
  have elems: "array_elems ?p = array_elems arr @ [v]" using assms by (simp add: array_elems_push)
  have "map_option (load_at ?p) (array_get ?p i) =
      (if unat i < length (array_elems ?p) then Some (array_elems ?p ! unat i) else None)" for i
    by (simp add: array_get_elems load_get)
  moreover have "i < a_len arr \<longleftrightarrow> unat i < length (array_elems arr)" for i
    by (simp add: array_len_elems word_less_nat_alt)
  moreover have "i = a_len arr \<longleftrightarrow> unat i = length (array_elems arr)" for i
    by (simp add: array_len_elems word_unat_eq_iff)
  ultimately show ?thesis using assms elems
    by (auto simp: array_wf_push nth_append)
qed

lemma array_push_get_witness:
  "array_elems (array_push (\<lambda>_. 7) [1, 2] (array_new 2)) = [[1, 2]]"
  using array_push_get [of "array_new 2" "[1, 2]" "\<lambda>_. 7"]
  by (simp add: array_wf_new a_size_new array_elems_new) (simp add: array_new_def)

text \<open>C26: Deleting an element moves the later ones down by one and keeps all others; an index out of
  range changes nothing.\<close>

theorem array_del_elems:
  assumes "array_wf arr"
  shows "array_wf (array_del g arr i) \<and>
    array_elems (array_del g arr i) = take (unat i) (array_elems arr) @ drop (Suc (unat i)) (array_elems arr)"
proof (cases "i < a_len arr")
  case True
  with assms show ?thesis by (simp add: array_wf_del array_elems_del)
next
  case False
  then have "length (array_elems arr) \<le> unat i" using not_less [of i "a_len arr"] by (simp add: array_len_elems word_le_nat_alt)
  moreover have "array_del g arr i = arr" using False by (simp add: array_del_def)
  ultimately show ?thesis using assms by simp
qed

definition three_pairs :: Array where
  "three_pairs = \<lparr>a_ptr = [1, 2, 3, 4, 5, 6], a_size = 2, a_len = 3\<rparr>"

lemma array_del_elems_witness:
  "array_elems (array_del (\<lambda>_. 7) three_pairs 1) = [[1, 2], [5, 6]]"
proof -
  have "array_wf three_pairs" by (simp add: array_wf_def three_pairs_def)
  moreover have "array_elems three_pairs = [[1, 2], [3, 4], [5, 6]]" by code_simp
  ultimately show ?thesis using array_del_elems [of three_pairs "\<lambda>_. 7" 1] by simp
qed

end
