(* ===== verification/Types.thy ===== *)
theory Types
  imports Arrays
begin

section \<open>Messages, references and the outside world of the daemon\<close>

text \<open>
  The generated message types of \<open>sp-protocol/*.proto\<close> and \<open>sp-daemon/session_spawn.proto\<close>,
  the function pointers the daemon stores (as enumerations: exactly the callbacks it
  registers), references to heap objects, and \<open>world\<close>: the configuration \<open>_G\<close>, the trace
  of effects the daemon has had on its surroundings, and how many answers it has taken
  from the operating system so far.
\<close>

subsection \<open>\<open>greeter.proto\<close>, \<open>server.proto\<close>, \<open>session_spawn.proto\<close>\<close>

text \<open>
  An enumeration field of a received message holds any integer; the last constructor
  stands for the values without a name, which reach the \<open>default\<close> branches. A required
  string is never NULL after unpacking; before packing the C field may still be NULL.
\<close>

datatype greeter_message_type =
    HELLO
  | LOGIN_TRY
  | SESSION_ACTIVATION
  | GREETER_START
  | Unknown_Greeter_Type int

record greeter_login =
  login_user :: string
  login_password :: string
  login_template_id :: string

record greeter_message =
  gm_type :: greeter_message_type
  gm_login :: "greeter_login option"
  gm_session :: "string option"

datatype server_message_type =
    DATA_UPDATE
  | LOGIN_FEEDBACK
  | LEAVE
  | Unknown_Server_Type int

record server_session =
  ses_id :: "string option"
  ses_user :: "string option"
  ses_name :: "string option"
  ses_icon :: "string option"

record server_template =
  tmpl_id :: "string option"
  tmpl_name :: "string option"
  tmpl_icon :: "string option"

record server_user =
  usr_uid :: int
  usr_name :: "string option"
  usr_icon :: "string option"
  usr_prefered_session :: "string option"

record server_data =
  data_templates :: "server_template list"
  data_sessions :: "server_session list"
  data_users :: "server_user list"

record request_feedback =
  fb_success :: bool
  fb_msg :: "string option"

record server_message =
  sm_type :: server_message_type
  sm_feedback :: "request_feedback option"
  sm_data :: "server_data option"

datatype spawn_message_type =
    CONNECT
  | SETUP_DONE
  | SESSION_ACTIVE
  | ERROR_EXIT
  | Unknown_Spawn_Type int

record spawn_message =
  sp_type :: spawn_message_type
  sp_exit :: "string option"

subsection \<open>Function pointers and references\<close>

datatype fd_cb = Child_data | Client_data | Accept_ready

datatype wait_cb = Spawned_session_disappear | Greeter_done

text \<open>
  A reference into the heap (\<open>Try_ref\<close>, \<open>Client_ref\<close>: the address), or into the array of
  greeters: the reallocation count the pointer was taken at, and the index.
\<close>

datatype ref = Null_ref | Try_ref nat | Client_ref nat | Greeter_ref nat nat

subsection \<open>The world\<close>

text \<open>
  What a process does to the system: paths, terminals, credentials, PAM, the environment and
  the program it turns into. \<open>Asked\<close> is a request that a client of the daemon has written.
\<close>

datatype sys_op =
    Made_dir string
  | Removed_dir string
  | Unlinked string
  | Bound int string
  | Chmod string int
  | Chown string int int
  | Opened string
  | Set_ctty int
  | Hung_up
  | Setsid
  | Hup_ignored
  | Hup_restored
  | Flushed_input
  | Foreground int
  | Chdir string
  | Initgroups string int
  | Setgid int
  | Setuid int
  | Pam_start string string
  | Pam_putenv string
  | Pam_authenticated
  | Pam_established
  | Pam_opened
  | Pam_ended
  | Clearenv
  | Putenv string
  | Set_default_env string string
  | Exec string "string list"
  | Reaped int

datatype effect =
    Sent int server_message
  | Asked int greeter_message
  | Sys sys_op
  | Activated string
  | Killed int
  | Closed int
  | Service_message int spawn_message
  | Forked int
  | Ran_template string

record world =
  debug :: bool
  no_greeter_restart :: bool
  trace :: "effect list"
  nforks :: nat
  npipes :: nat
  nreads :: nat
  naccepts :: nat

definition emit :: "effect \<Rightarrow> 'a world_scheme \<Rightarrow> 'a world_scheme" where
  "emit e s = s\<lparr>trace := trace s @ [e]\<rparr>"

lemma emit_simps [simp]:
  "debug (emit e s) = debug s" "no_greeter_restart (emit e s) = no_greeter_restart s"
  "trace (emit e s) = trace s @ [e]" "nforks (emit e s) = nforks s"
  "npipes (emit e s) = npipes s" "nreads (emit e s) = nreads s"
  "naccepts (emit e s) = naccepts s" "world.more (emit e s) = world.more s"
  by (simp_all add: emit_def)

end
