(* ===== verification/Manager.thy ===== *)
theory Manager
  imports Types
begin

section \<open>The event loop of \<open>sp-daemon/manager.c\<close>\<close>

text \<open>
  The globals of \<open>manager.c\<close> are the fields that \<open>manager\<close> adds to the world. Registered
  callbacks are called through the parameter \<open>call\<close> (the indirect call \<open>reg->cb(&reg->data, fd)\<close>
  on the state of the whole daemon, which extends \<open>manager\<close>). One turn of the \<open>while\<close> loop is
  \<open>manager_iter\<close>; \<open>select\<close> is a parameter.

  \<open>live\<close> is the abstract view: the registrations that can still be called. Deletion of an
  entry is deferred while the loop walks over the array; \<open>tidy\<close> says that the deferred
  deletions are all accounted for in \<open>changes\<close>.
\<close>

record fd_register =
  reg_cb :: "fd_cb option"
  reg_fd :: int
  reg_data :: ref

record manager = world +
  fds :: "fd_register tarray"
  stop :: bool
  changes :: nat
  readout :: bool

subsection \<open>Registration\<close>

definition manager_init :: "'a manager_scheme \<Rightarrow> 'a manager_scheme" where
  "manager_init s = s\<lparr>fds := tarray_new\<rparr>"

text \<open>\<open>!reg->cb\<close>\<close>

definition no_cb :: "fd_register \<Rightarrow> bool" where
  "no_cb reg \<longleftrightarrow> reg_cb reg = None"

definition clear_objects :: "'a manager_scheme \<Rightarrow> 'a manager_scheme" where
  "clear_objects s =
     (case find_index no_cb (cells (fds s)) of
        Some i \<Rightarrow> s\<lparr>fds := tarray_del (fds s) i\<rparr>
      | None \<Rightarrow> s)"

definition manager_stop :: "'a manager_scheme \<Rightarrow> 'a manager_scheme" where
  "manager_stop s = s\<lparr>stop := True\<rparr>"

definition manager_register_fd ::
  "int \<Rightarrow> fd_cb option \<Rightarrow> ref \<Rightarrow> 'a manager_scheme \<Rightarrow> 'a manager_scheme" where
  "manager_register_fd fd cb data s =
     s\<lparr>fds := tarray_add \<lparr>reg_cb = cb, reg_fd = fd, reg_data = data\<rparr> (fds s)\<rparr>"

definition unset_cb :: "int \<Rightarrow> fd_register \<Rightarrow> fd_register" where
  "unset_cb fd reg = (if reg_fd reg = fd then reg\<lparr>reg_cb := None\<rparr> else reg)"

definition manager_unregister_fd :: "int \<Rightarrow> 'a manager_scheme \<Rightarrow> 'a manager_scheme" where
  "manager_unregister_fd fd s =
     (let s1 = s\<lparr>fds := (fds s)\<lparr>cells := map (unset_cb fd) (cells (fds s))\<rparr>\<rparr>
      in if \<not> readout s1 then clear_objects s1 else s1\<lparr>changes := changes s1 + 1\<rparr>)"

text \<open>After a fork the child closes every registered descriptor.\<close>

definition manager_fork_eval :: "'a manager_scheme \<Rightarrow> 'a manager_scheme" where
  "manager_fork_eval s = fold (\<lambda>reg. emit (Closed (reg_fd reg))) (cells (fds s)) s"

subsection \<open>One turn of the loop\<close>

datatype select_result =
    Select_failed
  | Select_interrupted
  | Select_ready "int list" "int list"

type_synonym select_call = "int \<Rightarrow> int list \<Rightarrow> select_result"

datatype 's run_state = Running 's | Returned int 's

definition watched :: "'a manager_scheme \<Rightarrow> int list" where
  "watched s = map reg_fd (filter (\<lambda>reg. \<not> no_cb reg) (cells (fds s)))"

definition max_fd :: "'a manager_scheme \<Rightarrow> int" where
  "max_fd s = fold max (watched s) 0"

definition read_available ::
  "(fd_cb \<Rightarrow> ref \<Rightarrow> int \<Rightarrow> 'a manager_scheme \<Rightarrow> 'a manager_scheme res) \<Rightarrow>
    fd_register \<Rightarrow> 'a manager_scheme \<Rightarrow> 'a manager_scheme res" where
  "read_available call reg s =
     (case reg_cb reg of Some cb \<Rightarrow> call cb (reg_data reg) (reg_fd reg) s | None \<Rightarrow> Inr s)"

definition error_available ::
  "fd_register \<Rightarrow> 'a manager_scheme \<Rightarrow> 'a manager_scheme res" where
  "error_available reg s = Inr (manager_unregister_fd (reg_fd reg) s)"

definition fd_set_check ::
  "int list \<Rightarrow> (fd_register \<Rightarrow> 'a manager_scheme \<Rightarrow> 'a manager_scheme res) \<Rightarrow>
    nat \<Rightarrow> 'a manager_scheme \<Rightarrow> 'a manager_scheme res" where
  "fd_set_check set_fds handle i s =
     (case tarray_get (fds s) i of
        None \<Rightarrow> Inl Null_Deref
      | Some reg \<Rightarrow> if reg_fd reg \<in> set set_fds then handle reg s else Inr s)"

abbreviation fds_len :: "'a manager_scheme \<Rightarrow> nat" where
  "fds_len s \<equiv> tarray_len (fds s)"

fun flush_changes :: "nat \<Rightarrow> 'a manager_scheme \<Rightarrow> 'a manager_scheme" where
  "flush_changes 0 s = s"
| "flush_changes (Suc n) s = flush_changes n ((clear_objects s)\<lparr>changes := n\<rparr>)"

definition manager_iter ::
  "nat \<Rightarrow> (fd_cb \<Rightarrow> ref \<Rightarrow> int \<Rightarrow> 'a manager_scheme \<Rightarrow> 'a manager_scheme res) \<Rightarrow>
    select_call \<Rightarrow> 'a manager_scheme \<Rightarrow> 'a manager_scheme run_state res" where
  "manager_iter n call sel s =
     (let result = sel (max_fd s + 1) (watched s);
          s1 = s\<lparr>readout := True\<rparr>;
          finish = (\<lambda>t. let t1 = t\<lparr>readout := False\<rparr>
                        in Inr (Running (flush_changes (changes t1) t1)))
      in case result of
           Select_failed \<Rightarrow> Inr (Returned 0 (s1\<lparr>readout := False\<rparr>))
         | Select_interrupted \<Rightarrow> finish s1
         | Select_ready rd er \<Rightarrow>
             bindR (index_loop (fds_len s1) fds_len (fd_set_check er error_available) 0 s1)
               (\<lambda>s2. bindR (index_loop n fds_len (fd_set_check rd (read_available call)) 0 s2)
                 finish))"

text \<open>
  \<open>manager_run\<close> against a sequence of answers of \<open>select\<close>: \<open>Running\<close> when the answers are
  used up and the loop would wait again.
\<close>

fun manager_run ::
  "nat \<Rightarrow> (fd_cb \<Rightarrow> ref \<Rightarrow> int \<Rightarrow> 'a manager_scheme \<Rightarrow> 'a manager_scheme res) \<Rightarrow>
    select_call list \<Rightarrow> 'a manager_scheme \<Rightarrow> 'a manager_scheme run_state res" where
  "manager_run n call [] s = Inr (if stop s then Returned 1 s else Running s)"
| "manager_run n call (sel # sels) s =
     (if stop s then Inr (Returned 1 s)
      else bindR (manager_iter n call sel s)
        (\<lambda>r. case r of Returned v t \<Rightarrow> Inr (Returned v t)
                     | Running t \<Rightarrow> manager_run n call sels t))"

subsection \<open>The abstract view: which registrations can still be called\<close>

type_synonym registration = "int \<times> fd_cb \<times> ref"

definition live :: "'a manager_scheme \<Rightarrow> registration list" where
  "live s = map (\<lambda>reg. (reg_fd reg, the (reg_cb reg), reg_data reg))
     (filter (\<lambda>reg. \<not> no_cb reg) (cells (fds s)))"

definition nulls :: "'a manager_scheme \<Rightarrow> nat" where
  "nulls s = length (filter no_cb (cells (fds s)))"

definition tidy :: "'a manager_scheme \<Rightarrow> bool" where
  "tidy s \<longleftrightarrow> distinct (map fst (live s)) \<and> nulls s \<le> changes s \<and> (\<not> readout s \<longrightarrow> changes s = 0)"

lemma manager_frame [simp]:
  "live (s\<lparr>readout := b\<rparr>) = live s" "nulls (s\<lparr>readout := b\<rparr>) = nulls s"
  "live (s\<lparr>changes := n\<rparr>) = live s" "nulls (s\<lparr>changes := n\<rparr>) = nulls s"
  "live (s\<lparr>stop := b\<rparr>) = live s" "nulls (s\<lparr>stop := b\<rparr>) = nulls s"
  by (simp_all add: live_def nulls_def)

lemma watched_live: "watched s = map fst (live s)"
  by (simp add: watched_def live_def comp_def)

text \<open>\<open>clear_objects\<close> removes the first entry without a callback, and nothing else.\<close>

lemma clear_objects_cells:
  "cells (fds (clear_objects s)) = remove_first no_cb (cells (fds s))"
proof (cases "find_index no_cb (cells (fds s))")
  case None
  then have "\<forall>reg \<in> set (cells (fds s)). \<not> no_cb reg" by simp
  with None show ?thesis unfolding clear_objects_def None by (simp add: remove_first_absent)
next
  case (Some i)
  then have "i < tarray_len (fds s)" by (auto dest: find_index_SomeD)
  with Some show ?thesis
    by (simp add: clear_objects_def tarray_del_def remove_first_index)
qed

lemma clear_objects_frame [simp]:
  "changes (clear_objects s) = changes s" "readout (clear_objects s) = readout s"
  "stop (clear_objects s) = stop s" "manager.more (clear_objects s) = manager.more s"
  by (simp_all add: clear_objects_def split: option.split)

lemma clear_objects_shape: "clear_objects s = s\<lparr>fds := fds (clear_objects s)\<rparr>"
  by (simp add: clear_objects_def split: option.split)

lemma live_clear_objects [simp]: "live (clear_objects s) = live s"
  by (simp add: live_def clear_objects_cells filter_remove_first)

lemma nulls_clear_objects [simp]: "nulls (clear_objects s) = nulls s - 1"
  by (simp add: nulls_def clear_objects_cells count_remove_first)

lemma live_register [live_simps]:
  "live (manager_register_fd fd (Some cb) d s) = live s @ [(fd, cb, d)]"
  by (simp add: live_def manager_register_fd_def tarray_add_def no_cb_def)

lemma nulls_register [live_simps]: "nulls (manager_register_fd fd (Some cb) d s) = nulls s"
  by (simp add: nulls_def manager_register_fd_def tarray_add_def no_cb_def)

lemma live_unset:
  "map (\<lambda>reg. (reg_fd reg, the (reg_cb reg), reg_data reg))
     (filter (\<lambda>reg. \<not> no_cb reg) (map (unset_cb fd) rs)) =
   filter (\<lambda>l. fst l \<noteq> fd)
     (map (\<lambda>reg. (reg_fd reg, the (reg_cb reg), reg_data reg))
       (filter (\<lambda>reg. \<not> no_cb reg) rs))"
  by (induction rs) (auto simp: unset_cb_def no_cb_def)

lemma live_unregister [live_simps]:
  "live (manager_unregister_fd fd s) = filter (\<lambda>l. fst l \<noteq> fd) (live s)"
proof -
  let ?s1 = "s\<lparr>fds := (fds s)\<lparr>cells := map (unset_cb fd) (cells (fds s))\<rparr>\<rparr>"
  have "live ?s1 = filter (\<lambda>l. fst l \<noteq> fd) (live s)"
    unfolding live_def by (simp add: live_unset)
  then show ?thesis by (simp add: manager_unregister_fd_def Let_def)
qed

lemma nulls_unset:
  "length (filter no_cb (map (unset_cb fd) rs)) =
   length (filter no_cb rs) +
   length (filter (\<lambda>reg. \<not> no_cb reg \<and> reg_fd reg = fd) rs)"
  by (induction rs) (auto simp: unset_cb_def no_cb_def)

lemma one_registration:
  "distinct (map reg_fd (filter (\<lambda>reg. \<not> no_cb reg) rs)) \<Longrightarrow>
   length (filter (\<lambda>reg. \<not> no_cb reg \<and> reg_fd reg = fd) rs) \<le> 1"
proof (induction rs)
  case (Cons r rs)
  show ?case
  proof (cases "\<not> no_cb r \<and> reg_fd r = fd")
    case True
    with Cons.prems have "filter (\<lambda>reg. \<not> no_cb reg \<and> reg_fd reg = fd) rs = []"
      by (auto simp: filter_empty_conv) (metis (mono_tags, lifting) image_eqI mem_Collect_eq)
    with True show ?thesis by simp
  next
    case False
    with Cons show ?thesis by (auto split: if_splits)
  qed
qed simp

lemma nulls_unregister:
  assumes "distinct (map fst (live s))"
  shows "nulls (manager_unregister_fd fd s) \<le> (if readout s then nulls s + 1 else nulls s)"
proof -
  have "length (filter (\<lambda>reg. \<not> no_cb reg \<and> reg_fd reg = fd) (cells (fds s))) \<le> 1"
    using assms by (intro one_registration) (simp add: live_def comp_def)
  moreover have "nulls (s\<lparr>fds := (fds s)\<lparr>cells := map (unset_cb fd) (cells (fds s))\<rparr>\<rparr>) = nulls s +
      length (filter (\<lambda>reg. \<not> no_cb reg \<and> reg_fd reg = fd) (cells (fds s)))"
    unfolding nulls_def by (simp add: nulls_unset del: length_filter_map)
  ultimately show ?thesis
    by (auto simp: manager_unregister_fd_def Let_def)
qed

lemma unregister_frame [simp]:
  "readout (manager_unregister_fd fd s) = readout s"
  "stop (manager_unregister_fd fd s) = stop s"
  "changes (manager_unregister_fd fd s) = (if readout s then changes s + 1 else changes s)"
  "manager.more (manager_unregister_fd fd s) = manager.more s"
  by (simp_all add: manager_unregister_fd_def Let_def)

lemma register_frame [simp]:
  "readout (manager_register_fd fd cb d s) = readout s"
  "stop (manager_register_fd fd cb d s) = stop s"
  "changes (manager_register_fd fd cb d s) = changes s"
  "manager.more (manager_register_fd fd cb d s) = manager.more s"
  by (simp_all add: manager_register_fd_def)

lemma fds_len_unregister: "readout s \<Longrightarrow> fds_len (manager_unregister_fd fd s) = fds_len s"
  by (simp add: manager_unregister_fd_def Let_def)

lemma tidy_unregister [intro]: "tidy s \<Longrightarrow> tidy (manager_unregister_fd fd s)"
  using nulls_unregister [of s fd]
  by (auto simp: tidy_def live_unregister distinct_map_filter split: if_splits)

lemma tidy_register [intro]:
  "tidy s \<Longrightarrow> fd \<notin> fst ` set (live s) \<Longrightarrow> tidy (manager_register_fd fd (Some cb) d s)"
  by (auto simp: tidy_def live_register nulls_register)

lemma flush_changes_spec:
  "live (flush_changes n s) = live s \<and> nulls (flush_changes n s) = nulls s - n \<and>
   readout (flush_changes n s) = readout s \<and> stop (flush_changes n s) = stop s \<and>
   manager.more (flush_changes n s) = manager.more s \<and>
   changes (flush_changes n s) = (if n = 0 then changes s else 0)"
  by (induction n arbitrary: s) auto

lemma flush_changes_shape:
  "\<exists>x c. flush_changes n s = s\<lparr>fds := x, changes := c\<rparr>"
proof (induction n arbitrary: s)
  case 0
  have "s = s\<lparr>fds := fds s, changes := changes s\<rparr>" by simp
  then show ?case by (metis flush_changes.simps(1))
next
  case (Suc n)
  obtain x c where "flush_changes n ((clear_objects s)\<lparr>changes := n\<rparr>) =
      (clear_objects s)\<lparr>changes := n\<rparr>\<lparr>fds := x, changes := c\<rparr>"
    using Suc by blast
  moreover have "(clear_objects s)\<lparr>changes := n\<rparr>\<lparr>fds := x, changes := c\<rparr> =
      s\<lparr>fds := x, changes := c\<rparr>"
    by (subst clear_objects_shape) simp
  ultimately show ?case by auto
qed

text \<open>After the deferred deletions nothing is left over and no registration is lost.\<close>

lemma flush_tidy:
  assumes "tidy s"
  shows "tidy (flush_changes (changes s) (s\<lparr>readout := False\<rparr>))"
    and "nulls (flush_changes (changes s) (s\<lparr>readout := False\<rparr>)) = 0"
    and "live (flush_changes (changes s) (s\<lparr>readout := False\<rparr>)) = live s"
  using assms by (auto simp: tidy_def flush_changes_spec)

subsection \<open>The contract of the callbacks, and what the loop makes of it\<close>

lemma unregister_shape:
  "manager_unregister_fd fd s = s\<lparr>fds := fds (manager_unregister_fd fd s),
     changes := changes (manager_unregister_fd fd s), readout := readout s\<rparr>"
  by (simp add: manager_unregister_fd_def Let_def clear_objects_def split: option.split)

lemma entry_live:
  "tarray_get (fds s) i = Some reg \<Longrightarrow> reg_cb reg = Some cb \<Longrightarrow>
   (reg_fd reg, cb, reg_data reg) \<in> set (live s)"
  by (force simp: tarray_get_def live_def no_cb_def split: if_splits)

text \<open>
  \<open>I\<close> is an invariant of the rest of the daemon; \<open>F\<close> the faults that a callback may run into.
  Callbacks are called in the middle of a walk over the array (\<open>readout\<close>), only for a live
  registration, with its own descriptor and datum.
\<close>

locale fd_callbacks =
  fixes call :: "fd_cb \<Rightarrow> ref \<Rightarrow> int \<Rightarrow> 'a manager_scheme \<Rightarrow> 'a manager_scheme res"
    and I :: "'a manager_scheme \<Rightarrow> bool"
    and F :: "fault \<Rightarrow> bool"
  assumes I_frame: "I s \<Longrightarrow> set (live (s\<lparr>fds := x, changes := c, readout := b\<rparr>)) \<subseteq> set (live s) \<Longrightarrow>
      I (s\<lparr>fds := x, changes := c, readout := b\<rparr>)"
    and call_ok: "I s \<Longrightarrow> tidy s \<Longrightarrow> readout s \<Longrightarrow> (fd, cb, d) \<in> set (live s) \<Longrightarrow>
      call cb d fd s = Inr t \<Longrightarrow> I t \<and> tidy t \<and> readout t"
    and call_fault: "I s \<Longrightarrow> tidy s \<Longrightarrow> readout s \<Longrightarrow> (fd, cb, d) \<in> set (live s) \<Longrightarrow>
      call cb d fd s = Inl e \<Longrightarrow> F e"
begin

lemma I_readout: "I s \<Longrightarrow> I (s\<lparr>readout := b\<rparr>)"
  using I_frame [where s = s and x = "fds s" and c = "changes s" and b = b] by simp

lemma I_unregister:
  assumes "I s"
  shows "I (manager_unregister_fd fd s)"
proof -
  let ?u = "manager_unregister_fd fd s"
  have "set (live ?u) \<subseteq> set (live s)" by (auto simp: live_unregister)
  with assms I_frame [where s = s and x = "fds ?u" and c = "changes ?u" and b = "readout s"]
  show ?thesis by (simp only: unregister_shape [symmetric])
qed

lemma I_flush:
  assumes "I s"
  shows "I (flush_changes n s)"
proof -
  obtain x c where eq: "flush_changes n s = s\<lparr>fds := x, changes := c\<rparr>"
    using flush_changes_shape by blast
  moreover have "live (flush_changes n s) = live s" by (simp add: flush_changes_spec)
  ultimately show ?thesis using assms I_frame [where s = s and x = x and c = c and b = "readout s"] by simp
qed

definition walking :: "'a manager_scheme \<Rightarrow> bool" where
  "walking s \<longleftrightarrow> I s \<and> tidy s \<and> readout s"

lemma error_body:
  "walking s \<Longrightarrow> fd_set_check er error_available j s = Inr t \<Longrightarrow> walking t"
  by (auto simp: fd_set_check_def error_available_def walking_def I_unregister
      split: option.splits if_splits)

lemma read_body:
  assumes w: "walking s" and r: "fd_set_check rd (read_available call) j s = Inr t"
  shows "walking t"
proof -
  from r obtain reg where get: "tarray_get (fds s) j = Some reg"
    and run: "(if reg_fd reg \<in> set rd then read_available call reg s else Inr s) = Inr t"
    by (auto simp: fd_set_check_def split: option.splits)
  show ?thesis
  proof (cases "reg_fd reg \<in> set rd \<and> reg_cb reg \<noteq> None")
    case True
    then obtain cb where cb: "reg_cb reg = Some cb" by blast
    with True run have "call cb (reg_data reg) (reg_fd reg) s = Inr t"
      by (simp add: read_available_def)
    with call_ok [OF _ _ _ entry_live [OF get cb]] w show ?thesis
      by (simp add: walking_def)
  next
    case False
    with run w show ?thesis by (auto simp: read_available_def split: if_splits option.splits)
  qed
qed

lemma read_body_fault:
  assumes w: "walking s" and j: "j < fds_len s"
    and r: "fd_set_check rd (read_available call) j s = Inl e"
  shows "F e"
proof -
  from j obtain reg where get: "tarray_get (fds s) j = Some reg"
    by (simp add: tarray_get_def)
  with r obtain cb where cb: "reg_cb reg = Some cb"
    and "call cb (reg_data reg) (reg_fd reg) s = Inl e"
    by (auto simp: fd_set_check_def read_available_def split: if_splits option.splits)
  with call_fault [OF _ _ _ entry_live [OF get cb]] w show ?thesis
    by (simp add: walking_def)
qed

text \<open>
  One turn of the loop keeps the invariant, ends outside the walk, and leaves no entry
  without a callback behind: the array holds exactly the live registrations.
\<close>

lemma iter_keeps:
  assumes "I s" and "tidy s" and "\<not> readout s" and "manager_iter n call sel s = Inr (Running t)"
  shows "I t \<and> tidy t \<and> \<not> readout t \<and> nulls t = 0"
proof -
  let ?s1 = "s\<lparr>readout := True\<rparr>"
  have w1: "walking ?s1"
    using assms(1-3) by (auto simp: walking_def I_readout tidy_def)
  have fin: "I t \<and> tidy t \<and> \<not> readout t \<and> nulls t = 0"
    if "walking u" and "flush_changes (changes (u\<lparr>readout := False\<rparr>)) (u\<lparr>readout := False\<rparr>) = t" for u
    using that flush_tidy [of u]
    by (auto simp: walking_def I_flush I_readout flush_changes_spec)
  show ?thesis
  proof (cases "sel (max_fd s + 1) (watched s)")
    case Select_failed
    with assms(4) show ?thesis by (simp add: manager_iter_def)
  next
    case Select_interrupted
    with assms(4) fin [OF w1] show ?thesis by (simp add: manager_iter_def Let_def)
  next
    case (Select_ready rd er)
    show ?thesis
      using assms(4) unfolding manager_iter_def Let_def Select_ready select_result.case
    proof (elim bindR_InrE)
      fix s2 s3
      assume s2: "index_loop (fds_len ?s1) fds_len (fd_set_check er error_available) 0 ?s1 = Inr s2"
        and s3: "index_loop n fds_len (fd_set_check rd (read_available call)) 0 s2 = Inr s3"
        and t: "Inr (Running (flush_changes (changes (s3\<lparr>readout := False\<rparr>)) (s3\<lparr>readout := False\<rparr>))) =
          Inr (Running t)"
      have w2: "walking s2"
        by (rule index_loop_invariant [where I = walking, OF s2 w1]) (rule error_body)
      have w3: "walking s3"
        by (rule index_loop_invariant [where I = walking, OF s3 w2]) (rule read_body)
      from t have "flush_changes (changes (s3\<lparr>readout := False\<rparr>)) (s3\<lparr>readout := False\<rparr>) = t"
        by (simp only: sum.inject run_state.inject)
      then show ?thesis by (rule fin [OF w3])
    qed
  qed
qed

lemma run_keeps:
  assumes "I s" and "tidy s" and "\<not> readout s" and "manager_run n call sels s = Inr (Running t)"
  shows "I t \<and> tidy t \<and> \<not> readout t"
  using assms
proof (induction sels arbitrary: s)
  case Nil
  then show ?case by (simp split: if_splits)
next
  case (Cons sel sels)
  have ns: "\<not> stop s" using Cons.prems(4) by (cases "stop s") simp_all
  with Cons.prems(4) have "bindR (manager_iter n call sel s) (\<lambda>r. case r of
      Returned v t \<Rightarrow> Inr (Returned v t) | Running t \<Rightarrow> manager_run n call sels t) = Inr (Running t)"
    by simp
  then obtain r where r: "manager_iter n call sel s = Inr r"
    and k: "(case r of Returned v t \<Rightarrow> Inr (Returned v t) | Running t \<Rightarrow> manager_run n call sels t) =
      Inr (Running t)"
    unfolding bindR_eq_Inr by blast
  then obtain u where u: "r = Running u" by (cases r) auto
  with r k iter_keeps [OF Cons.prems(1-3)] Cons.IH [of u] show ?case by simp
qed

text \<open>
  Walking over the registrations never calls a callback that is gone: whatever goes wrong goes
  wrong inside a callback (or the budget of the model is too small).
\<close>

lemma iter_faults:
  assumes "I s" and "tidy s" and "\<not> readout s" and "manager_iter n call sel s = Inl e"
  shows "F e \<or> e = Out_Of_Fuel"
proof -
  let ?s1 = "s\<lparr>readout := True\<rparr>"
  have w1: "walking ?s1"
    using assms(1-3) by (auto simp: walking_def I_readout tidy_def)
  show ?thesis
  proof (cases "sel (max_fd s + 1) (watched s)")
    case Select_failed
    with assms(4) show ?thesis by (simp add: manager_iter_def)
  next
    case Select_interrupted
    with assms(4) show ?thesis by (simp add: manager_iter_def Let_def)
  next
    case (Select_ready rd er)
    from assms(4) show ?thesis
      unfolding manager_iter_def Let_def Select_ready select_result.case
    proof (elim bindR_InlE)
      assume "index_loop (fds_len ?s1) fds_len (fd_set_check er error_available) 0 ?s1 = Inl e"
      from this w1 have "False \<or> e = Out_Of_Fuel"
        by (rule index_loop_no_fault [where I = walking])
          (erule (1) error_body, simp add: fd_set_check_def error_available_def tarray_get_def split: if_splits)
      then show ?thesis by simp
    next
      fix s2
      assume s2: "index_loop (fds_len ?s1) fds_len (fd_set_check er error_available) 0 ?s1 = Inr s2"
        and e: "index_loop n fds_len (fd_set_check rd (read_available call)) 0 s2 = Inl e"
      have w2: "walking s2"
        by (rule index_loop_invariant [where I = walking, OF s2 w1]) (rule error_body)
      show ?thesis
        by (rule index_loop_no_fault [where I = walking, OF e w2]) (erule (1) read_body, erule (2) read_body_fault)
    qed simp
  qed
qed

lemma run_faults:
  assumes "I s" and "tidy s" and "\<not> readout s" and "manager_run n call sels s = Inl e"
  shows "F e \<or> e = Out_Of_Fuel"
  using assms
proof (induction sels arbitrary: s)
  case Nil
  then show ?case by (simp split: if_splits)
next
  case (Cons sel sels)
  have ns: "\<not> stop s" using Cons.prems(4) by (cases "stop s") simp_all
  with Cons.prems(4) have "bindR (manager_iter n call sel s) (\<lambda>r. case r of
      Returned v t \<Rightarrow> Inr (Returned v t) | Running t \<Rightarrow> manager_run n call sels t) = Inl e"
    by simp
  then show ?case
  proof (elim bindR_InlE)
    assume "manager_iter n call sel s = Inl e"
    with iter_faults Cons.prems(1-3) show ?thesis by blast
  next
    fix r
    assume r: "manager_iter n call sel s = Inr r"
      and k: "(case r of Returned v t \<Rightarrow> Inr (Returned v t) | Running t \<Rightarrow> manager_run n call sels t) = Inl e"
    then obtain u where u: "r = Running u" by (cases r) auto
    with r k iter_keeps [OF Cons.prems(1-3)] Cons.IH [of u] show ?thesis by simp
  qed
qed

end

subsection \<open>A turn in which one descriptor is ready\<close>

definition descriptors :: "'a manager_scheme \<Rightarrow> int list" where
  "descriptors s = map reg_fd (cells (fds s))"

definition only_ready :: "int \<Rightarrow> select_call" where
  "only_ready fd = (\<lambda>_ _. Select_ready [fd] [])"

lemma single_turn:
  assumes s: "tidy s" "nulls s = 0" and reg: "(fd, cb, d) \<in> set (live s)" and n: "fds_len s \<le> n"
    and call: "call cb d fd (s\<lparr>readout := True\<rparr>) = Inr t" and same: "descriptors t = descriptors s"
  shows "manager_iter n call (only_ready fd) s =
    Inr (Running (flush_changes (changes t) (t\<lparr>readout := False\<rparr>)))"
proof -
  let ?s1 = "s\<lparr>readout := True\<rparr>"
  have all: "filter (\<lambda>reg. \<not> no_cb reg) (cells (fds s)) = cells (fds s)"
    using s(2) by (auto simp: nulls_def filter_empty_conv)
  then have lv: "live s = map (\<lambda>reg. (reg_fd reg, the (reg_cb reg), reg_data reg)) (cells (fds s))"
    by (simp add: live_def)
  then have "descriptors s = map fst (live s)" by (simp add: descriptors_def)
  then have dist: "distinct (descriptors s)" using s(1) by (simp add: tidy_def)
  from reg lv obtain k where k: "k < fds_len s" "reg_fd (cells (fds s) ! k) = fd"
    "the (reg_cb (cells (fds s) ! k)) = cb" "reg_data (cells (fds s) ! k) = d"
    by (auto simp: in_set_conv_nth)
  have "\<not> no_cb (cells (fds s) ! k)"
    using s(2) k(1) by (auto simp: nulls_def filter_empty_conv)
  then have cb: "reg_cb (cells (fds s) ! k) = Some cb" using k(3) by (auto simp: no_cb_def)
  have len: "fds_len t = fds_len s" using same by (metis descriptors_def length_map)
  have other: "reg_fd (cells (fds u) ! j) \<noteq> fd" if "j < fds_len s" "j \<noteq> k" "descriptors u = descriptors s" for u j
  proof -
    have "length (descriptors s) = fds_len s" by (simp add: descriptors_def)
    then have "descriptors s ! j \<noteq> descriptors s ! k"
      using that(1,2) k(1) nth_eq_iff_index_eq [OF dist, of j k] by simp
    moreover have "length (cells (fds u)) = fds_len s" using that(3) by (metis descriptors_def length_map)
    then have "descriptors u ! j = reg_fd (cells (fds u) ! j)" using that(1) by (simp add: descriptors_def)
    moreover have "descriptors s ! k = fd" using k by (simp add: descriptors_def)
    ultimately show ?thesis using that(3) by simp
  qed
  have d1: "descriptors ?s1 = descriptors s" by (simp add: descriptors_def)
  have "index_loop (fds_len ?s1) fds_len (fd_set_check [] error_available) 0 ?s1 = Inr ?s1"
    by (rule index_loop_rest) (simp_all add: fd_set_check_def tarray_get_def)
  moreover have "index_loop n fds_len (fd_set_check [fd] (read_available call)) 0 ?s1 = Inr t"
  proof (rule index_loop_only)
    show "(0 :: nat) \<le> k" "k < fds_len ?s1" "fds_len t = fds_len ?s1" "fds_len ?s1 \<le> n + 0"
      using k len n by simp_all
    show "fd_set_check [fd] (read_available call) k ?s1 = Inr t"
      using k cb call by (simp add: fd_set_check_def tarray_get_def read_available_def)
    show "fd_set_check [fd] (read_available call) j ?s1 = Inr ?s1" if "j < k" for j
      using that k(1) other [OF _ _ d1, of j] by (simp add: fd_set_check_def tarray_get_def)
    show "fd_set_check [fd] (read_available call) j t = Inr t" if "k < j" "j < fds_len t" for j
      using that len other [OF _ _ same, of j] by (simp add: fd_set_check_def tarray_get_def)
  qed
  ultimately show ?thesis by (simp add: manager_iter_def only_ready_def Let_def)
qed

lemma descriptors_unregister: "readout s \<Longrightarrow> descriptors (manager_unregister_fd fd s) = descriptors s"
  by (simp add: descriptors_def manager_unregister_fd_def Let_def comp_def unset_cb_def if_distrib cong: if_cong)

lemma run_turn:
  "\<not> stop s \<Longrightarrow> manager_iter n call sel s = Inr (Running t) \<Longrightarrow>
   manager_run n call (sel # sels) s = manager_run n call sels t"
  by simp

subsection \<open>Properties\<close>

text \<open>C36: Unregistering a descriptor takes exactly its registrations out of those that can be called.
  Outside a walk over the array one emptied entry is removed at once, and only one: \<open>m\<close> registrations
  of the same descriptor leave \<open>m - 1\<close> dead entries behind. Inside a walk all stay, and one more
  deletion is due.\<close>

theorem unregister_exact:
  "live (manager_unregister_fd fd s) = filter (\<lambda>l. fst l \<noteq> fd) (live s) \<and>
   nulls (manager_unregister_fd fd s) =
     nulls s + length (filter (\<lambda>l. fst l = fd) (live s)) - (if readout s then 0 else 1) \<and>
   changes (manager_unregister_fd fd s) = changes s + (if readout s then 1 else 0)"
proof -
  let ?s1 = "s\<lparr>fds := (fds s)\<lparr>cells := map (unset_cb fd) (cells (fds s))\<rparr>\<rparr>"
  have "length (filter (\<lambda>l. fst l = fd) (live s)) =
      length (filter (\<lambda>reg. \<not> no_cb reg \<and> reg_fd reg = fd) (cells (fds s)))"
    by (simp add: live_def filter_map comp_def conj_commute)
  then have "nulls ?s1 = nulls s + length (filter (\<lambda>l. fst l = fd) (live s))"
    unfolding nulls_def by (simp add: nulls_unset del: length_filter_map)
  then have "nulls (manager_unregister_fd fd s) =
      nulls s + length (filter (\<lambda>l. fst l = fd) (live s)) - (if readout s then 0 else 1)"
    by (auto simp: manager_unregister_fd_def Let_def)
  then show ?thesis by (simp add: live_unregister)
qed

end
