(* ===== verification/Spawnregistery.thy ===== *)
theory Spawnregistery
  imports Manager
begin

section \<open>Child processes: \<open>sp-daemon/spawnregistery.c\<close>\<close>

text \<open>
  \<open>pending\<close> holds who waits for which process; \<open>spawnregistery_eval\<close> runs when \<open>SIGCHLD\<close>
  arrives, with the answers of \<open>waitpid\<close> as the list \<open>reaped\<close>. The indirect call
  \<open>w->handler(w->data, status, pid)\<close> is the parameter \<open>run\<close>.

  \<open>listeners\<close> is the abstract view: the entries that have not been cancelled. An entry that
  is cancelled while \<open>eval_mode\<close> is set is zeroed and removed later; \<open>reg_ok\<close> says that
  zeroed entries cannot match a process.
\<close>

record waiting =
  w_pid :: int
  w_handler :: "wait_cb option"
  w_data :: ref

record registry = manager +
  pending :: "waiting tarray"
  eval_mode :: bool

definition spawnregistery_init :: "'a registry_scheme \<Rightarrow> 'a registry_scheme" where
  "spawnregistery_init s = s\<lparr>pending := tarray_new\<rparr>"

definition spawnregistery_listen ::
  "int \<Rightarrow> wait_cb option \<Rightarrow> ref \<Rightarrow> 'a registry_scheme \<Rightarrow> 'a registry_scheme" where
  "spawnregistery_listen pid handler data s =
     s\<lparr>pending := tarray_add \<lparr>w_pid = pid, w_handler = handler, w_data = data\<rparr> (pending s)\<rparr>"

definition no_handler :: "waiting \<Rightarrow> bool" where
  "no_handler w \<longleftrightarrow> w_handler w = None"

definition spawnregistery_cleanup_step :: "'a registry_scheme \<Rightarrow> bool \<times> 'a registry_scheme" where
  "spawnregistery_cleanup_step s =
     (case find_index no_handler (cells (pending s)) of
        Some i \<Rightarrow> (True, s\<lparr>pending := tarray_del (pending s) i\<rparr>)
      | None \<Rightarrow> (False, s))"

abbreviation pending_len :: "'a registry_scheme \<Rightarrow> nat" where
  "pending_len s \<equiv> tarray_len (pending s)"

lemma cleanup_step_shorter:
  "spawnregistery_cleanup_step s = (True, t) \<Longrightarrow> pending_len t < pending_len s"
  by (auto simp: spawnregistery_cleanup_step_def tarray_del_def dest: find_index_SomeD
      split: option.splits)

function spawnregistery_cleanup :: "'a registry_scheme \<Rightarrow> 'a registry_scheme" where
  "spawnregistery_cleanup s =
     (case spawnregistery_cleanup_step s of
        (again, t) \<Rightarrow> if again then spawnregistery_cleanup t else t)"
  by pat_completeness auto
termination
  by (relation "measure pending_len") (auto dest: cleanup_step_shorter [OF sym])

declare spawnregistery_cleanup.simps [simp del]

definition zero_waiting :: "int \<Rightarrow> wait_cb \<Rightarrow> ref \<Rightarrow> waiting \<Rightarrow> waiting" where
  "zero_waiting pid handler data w =
     (if w_pid w = pid \<and> w_handler w = Some handler \<and> w_data w = data
      then \<lparr>w_pid = 0, w_handler = None, w_data = Null_ref\<rparr> else w)"

definition spawnregistery_unlisten ::
  "int \<Rightarrow> wait_cb \<Rightarrow> ref \<Rightarrow> 'a registry_scheme \<Rightarrow> 'a registry_scheme" where
  "spawnregistery_unlisten pid handler data s =
     (let s1 = s\<lparr>pending := (pending s)\<lparr>cells :=
                  map (zero_waiting pid handler data) (cells (pending s))\<rparr>\<rparr>
      in if \<not> eval_mode s1 then spawnregistery_cleanup s1 else s1)"

definition eval_entry ::
  "(wait_cb \<Rightarrow> ref \<Rightarrow> int \<Rightarrow> int \<Rightarrow> 'a registry_scheme \<Rightarrow> 'a registry_scheme res) \<Rightarrow>
    int \<Rightarrow> int \<Rightarrow> nat \<Rightarrow> 'a registry_scheme \<Rightarrow> 'a registry_scheme res" where
  "eval_entry run pid status i s =
     (case tarray_get (pending s) i of
        None \<Rightarrow> Inl Null_Deref
      | Some w \<Rightarrow>
          if w_pid w = pid then
            (case w_handler w of
               None \<Rightarrow> Inl Null_Deref
             | Some h \<Rightarrow> bindR (run h (w_data w) status pid s)
                 (\<lambda>t. Inr (spawnregistery_unlisten pid h (w_data w) t)))
          else Inr s)"

definition spawnregistery_eval ::
  "nat \<Rightarrow> (wait_cb \<Rightarrow> ref \<Rightarrow> int \<Rightarrow> int \<Rightarrow> 'a registry_scheme \<Rightarrow> 'a registry_scheme res) \<Rightarrow>
    (int \<times> int) list \<Rightarrow> 'a registry_scheme \<Rightarrow> 'a registry_scheme res" where
  "spawnregistery_eval n run reaped s =
     bindR (foldR (\<lambda>(pid, status). index_loop n pending_len (eval_entry run pid status) 0)
              (takeWhile (\<lambda>(pid, _). 0 < pid) reaped) (s\<lparr>eval_mode := True\<rparr>))
       (\<lambda>t. Inr (spawnregistery_cleanup (t\<lparr>eval_mode := False\<rparr>)))"

subsection \<open>The abstract view\<close>

type_synonym listener = "int \<times> wait_cb \<times> ref"

definition listeners :: "'a registry_scheme \<Rightarrow> listener list" where
  "listeners s = map (\<lambda>w. (w_pid w, the (w_handler w), w_data w))
     (filter (\<lambda>w. \<not> no_handler w) (cells (pending s)))"

definition zeroed :: "'a registry_scheme \<Rightarrow> nat" where
  "zeroed s = length (filter no_handler (cells (pending s)))"

definition reg_ok :: "'a registry_scheme \<Rightarrow> bool" where
  "reg_ok s \<longleftrightarrow> (\<forall>w \<in> set (cells (pending s)). no_handler w \<longrightarrow> w_pid w = 0) \<and>
     (\<not> eval_mode s \<longrightarrow> zeroed s = 0)"

lemma listeners_listen [live_simps]:
  "listeners (spawnregistery_listen pid (Some h) d s) = listeners s @ [(pid, h, d)]"
  by (simp add: listeners_def spawnregistery_listen_def tarray_add_def no_handler_def)

lemma reg_ok_listen [intro]: "reg_ok s \<Longrightarrow> reg_ok (spawnregistery_listen pid (Some h) d s)"
  by (simp add: reg_ok_def zeroed_def spawnregistery_listen_def tarray_add_def no_handler_def)

lemma cleanup_shape: "spawnregistery_cleanup s = s\<lparr>pending := pending (spawnregistery_cleanup s)\<rparr>"
proof (induction s rule: spawnregistery_cleanup.induct)
  case (1 s)
  show ?case
  proof (cases "find_index no_handler (cells (pending s))")
    case None
    then show ?thesis
      by (simp add: spawnregistery_cleanup.simps [of s] spawnregistery_cleanup_step_def
          del: find_index_None)
  next
    case (Some i)
    let ?t = "s\<lparr>pending := tarray_del (pending s) i\<rparr>"
    have t: "spawnregistery_cleanup_step s = (True, ?t)"
      using Some by (simp add: spawnregistery_cleanup_step_def)
    then have eq: "spawnregistery_cleanup s = spawnregistery_cleanup ?t"
      by (simp add: spawnregistery_cleanup.simps [of s])
    have "spawnregistery_cleanup ?t = ?t\<lparr>pending := pending (spawnregistery_cleanup ?t)\<rparr>"
      by (rule "1.IH" [OF t [symmetric] TrueI])
    then show ?thesis unfolding eq by simp
  qed
qed

lemma cleanup_cells:
  "cells (pending (spawnregistery_cleanup s)) = filter (\<lambda>w. \<not> no_handler w) (cells (pending s))"
proof (induction s rule: spawnregistery_cleanup.induct)
  case (1 s)
  show ?case
  proof (cases "find_index no_handler (cells (pending s))")
    case None
    then have "\<forall>w \<in> set (cells (pending s)). \<not> no_handler w" by simp
    with None show ?thesis
      by (simp add: spawnregistery_cleanup.simps [of s] spawnregistery_cleanup_step_def
          del: find_index_None)
  next
    case (Some i)
    let ?t = "s\<lparr>pending := tarray_del (pending s) i\<rparr>"
    have t: "spawnregistery_cleanup_step s = (True, ?t)"
      using Some by (simp add: spawnregistery_cleanup_step_def)
    then have "spawnregistery_cleanup s = spawnregistery_cleanup ?t"
      by (simp add: spawnregistery_cleanup.simps [of s])
    moreover have "cells (pending ?t) = remove_first no_handler (cells (pending s))"
      using Some find_index_SomeD [OF Some] by (simp add: tarray_del_def remove_first_index)
    moreover have "cells (pending (spawnregistery_cleanup ?t)) =
        filter (\<lambda>w. \<not> no_handler w) (cells (pending ?t))"
      by (rule "1.IH" [OF t [symmetric] TrueI])
    ultimately show ?thesis by (simp add: filter_remove_first)
  qed
qed

lemma cleanup_frame [simp]:
  "eval_mode (spawnregistery_cleanup s) = eval_mode s"
  "registry.more (spawnregistery_cleanup s) = registry.more s"
  "fds (spawnregistery_cleanup s) = fds s"
  "changes (spawnregistery_cleanup s) = changes s"
  "readout (spawnregistery_cleanup s) = readout s"
  by (subst cleanup_shape, simp)+

lemma listeners_cleanup [simp]: "listeners (spawnregistery_cleanup s) = listeners s"
  by (simp add: listeners_def cleanup_cells)

lemma zeroed_cleanup [simp]: "zeroed (spawnregistery_cleanup s) = 0"
  by (simp add: zeroed_def cleanup_cells)

lemma reg_ok_cleanup: "reg_ok (spawnregistery_cleanup s)"
  by (simp add: reg_ok_def cleanup_cells)

lemma reg_ok_eval_mode [intro]: "reg_ok s \<Longrightarrow> reg_ok (s\<lparr>eval_mode := True\<rparr>)"
  by (simp add: reg_ok_def)

lemma listeners_eval_mode [simp]: "listeners (s\<lparr>eval_mode := b\<rparr>) = listeners s"
  by (simp add: listeners_def)

lemma listeners_zero:
  "map (\<lambda>w. (w_pid w, the (w_handler w), w_data w))
     (filter (\<lambda>w. \<not> no_handler w) (map (zero_waiting pid h d) ws)) =
   filter (\<lambda>l. l \<noteq> (pid, h, d))
     (map (\<lambda>w. (w_pid w, the (w_handler w), w_data w)) (filter (\<lambda>w. \<not> no_handler w) ws))"
proof (induction ws)
  case (Cons w ws)
  then show ?case by (cases "w_handler w") (auto simp: zero_waiting_def no_handler_def)
qed simp

text \<open>Cancelling removes exactly the cancelled listener, deferred or not.\<close>

lemma listeners_unlisten [live_simps]:
  "listeners (spawnregistery_unlisten pid h d s) = filter (\<lambda>l. l \<noteq> (pid, h, d)) (listeners s)"
proof -
  let ?s1 = "s\<lparr>pending := (pending s)\<lparr>cells := map (zero_waiting pid h d) (cells (pending s))\<rparr>\<rparr>"
  have "listeners ?s1 = filter (\<lambda>l. l \<noteq> (pid, h, d)) (listeners s)"
    unfolding listeners_def by (simp add: listeners_zero)
  then show ?thesis by (simp add: spawnregistery_unlisten_def Let_def)
qed

lemma unlisten_shape:
  "spawnregistery_unlisten pid h d s = s\<lparr>pending := pending (spawnregistery_unlisten pid h d s)\<rparr>"
proof -
  let ?s1 = "s\<lparr>pending := (pending s)\<lparr>cells := map (zero_waiting pid h d) (cells (pending s))\<rparr>\<rparr>"
  have "spawnregistery_cleanup ?s1 = s\<lparr>pending := pending (spawnregistery_cleanup ?s1)\<rparr>"
    by (subst cleanup_shape) simp
  then show ?thesis by (auto simp: spawnregistery_unlisten_def Let_def)
qed

lemma unlisten_frame [simp]:
  "eval_mode (spawnregistery_unlisten pid h d s) = eval_mode s"
  "registry.more (spawnregistery_unlisten pid h d s) = registry.more s"
  "fds (spawnregistery_unlisten pid h d s) = fds s"
  "changes (spawnregistery_unlisten pid h d s) = changes s"
  "readout (spawnregistery_unlisten pid h d s) = readout s"
  by (subst unlisten_shape, simp)+

lemma listen_frame [simp]:
  "eval_mode (spawnregistery_listen pid h d s) = eval_mode s"
  "registry.more (spawnregistery_listen pid h d s) = registry.more s"
  "fds (spawnregistery_listen pid h d s) = fds s"
  "changes (spawnregistery_listen pid h d s) = changes s"
  "readout (spawnregistery_listen pid h d s) = readout s"
  by (simp_all add: spawnregistery_listen_def)

lemma reg_ok_unlisten [intro]:
  assumes "reg_ok s"
  shows "reg_ok (spawnregistery_unlisten pid h d s)"
proof (cases "eval_mode s")
  case True
  with assms show ?thesis
    by (auto simp: reg_ok_def spawnregistery_unlisten_def Let_def zero_waiting_def)
next
  case False
  then show ?thesis by (simp add: spawnregistery_unlisten_def Let_def reg_ok_cleanup)
qed

lemma pending_len_unlisten:
  "eval_mode s \<Longrightarrow> pending_len (spawnregistery_unlisten pid h d s) = pending_len s"
  by (simp add: spawnregistery_unlisten_def Let_def)

lemma entry_listener:
  "tarray_get (pending s) i = Some w \<Longrightarrow> w_handler w = Some h \<Longrightarrow>
   (w_pid w, h, w_data w) \<in> set (listeners s)"
  by (force simp: tarray_get_def listeners_def no_handler_def split: if_splits)

subsection \<open>The contract of the handlers\<close>

locale wait_handlers =
  fixes run :: "wait_cb \<Rightarrow> ref \<Rightarrow> int \<Rightarrow> int \<Rightarrow> 'a registry_scheme \<Rightarrow> 'a registry_scheme res"
    and I :: "'a registry_scheme \<Rightarrow> bool"
    and F :: "fault \<Rightarrow> bool"
  assumes I_frame: "I s \<Longrightarrow> set (listeners (s\<lparr>pending := x, eval_mode := b\<rparr>)) \<subseteq> set (listeners s) \<Longrightarrow>
      I (s\<lparr>pending := x, eval_mode := b\<rparr>)"
    and run_ok: "I s \<Longrightarrow> reg_ok s \<Longrightarrow> eval_mode s \<Longrightarrow> (pid, h, d) \<in> set (listeners s) \<Longrightarrow>
      run h d status pid s = Inr t \<Longrightarrow> I t \<and> reg_ok t \<and> eval_mode t"
    and run_fault: "I s \<Longrightarrow> reg_ok s \<Longrightarrow> eval_mode s \<Longrightarrow> (pid, h, d) \<in> set (listeners s) \<Longrightarrow>
      run h d status pid s = Inl e \<Longrightarrow> F e"
begin

definition reaping :: "'a registry_scheme \<Rightarrow> bool" where
  "reaping s \<longleftrightarrow> I s \<and> reg_ok s \<and> eval_mode s"

lemma I_unlisten:
  assumes "I s"
  shows "I (spawnregistery_unlisten pid h d s)"
proof -
  let ?u = "spawnregistery_unlisten pid h d s"
  have "set (listeners ?u) \<subseteq> set (listeners s)" by (auto simp: listeners_unlisten)
  moreover have "?u = s\<lparr>pending := pending ?u, eval_mode := eval_mode s\<rparr>"
    by (subst unlisten_shape) simp
  ultimately show ?thesis using assms I_frame by metis
qed

lemma I_cleanup:
  assumes "I s"
  shows "I (spawnregistery_cleanup (s\<lparr>eval_mode := False\<rparr>))"
proof -
  let ?u = "spawnregistery_cleanup (s\<lparr>eval_mode := False\<rparr>)"
  have "set (listeners ?u) \<subseteq> set (listeners s)" by simp
  moreover have "?u = s\<lparr>pending := pending ?u, eval_mode := False\<rparr>"
    by (subst cleanup_shape) simp
  ultimately show ?thesis using assms I_frame by metis
qed

lemma entry_step:
  assumes w: "reaping s" and r: "eval_entry run pid status j s = Inr t"
  shows "reaping t"
proof -
  from r obtain w where get: "tarray_get (pending s) j = Some w"
    by (auto simp: eval_entry_def split: option.splits)
  show ?thesis
  proof (cases "w_pid w = pid")
    case False
    with r get assms(1) show ?thesis by (simp add: eval_entry_def)
  next
    case True
    with r get obtain h u where h: "w_handler w = Some h" and u: "run h (w_data w) status pid s = Inr u"
      and t: "t = spawnregistery_unlisten pid h (w_data w) u"
      by (auto simp: eval_entry_def elim!: bindR_InrE split: option.splits)
    have "(pid, h, w_data w) \<in> set (listeners s)" using entry_listener [OF get h] True by simp
    with run_ok [OF _ _ _ _ u] w have "I u \<and> reg_ok u \<and> eval_mode u" by (simp add: reaping_def)
    with t show ?thesis by (simp add: reaping_def I_unlisten reg_ok_unlisten)
  qed
qed

lemma entry_fault:
  assumes w: "reaping s" and j: "j < pending_len s" and pid: "0 < pid"
    and r: "eval_entry run pid status j s = Inl e"
  shows "F e"
proof -
  from j obtain w where get: "tarray_get (pending s) j = Some w" and mem: "w \<in> set (cells (pending s))"
    by (simp add: tarray_get_def)
  with r have eq: "w_pid w = pid" by (auto simp: eval_entry_def split: if_splits)
  with mem pid w have "\<not> no_handler w" by (auto simp: reaping_def reg_ok_def)
  then obtain h where h: "w_handler w = Some h" by (auto simp: no_handler_def)
  with r get eq have u: "run h (w_data w) status pid s = Inl e"
    by (auto simp: eval_entry_def elim!: bindR_InlE)
  have "(pid, h, w_data w) \<in> set (listeners s)" using entry_listener [OF get h] eq by simp
  with run_fault [OF _ _ _ _ u] w show ?thesis by (simp add: reaping_def)
qed

lemma eval_keeps:
  assumes "I s" and "reg_ok s" and "spawnregistery_eval n run reaped s = Inr t"
  shows "I t \<and> reg_ok t \<and> \<not> eval_mode t \<and> zeroed t = 0"
proof -
  from assms(3) obtain u where
    u: "foldR (\<lambda>(pid, status). index_loop n pending_len (eval_entry run pid status) 0)
          (takeWhile (\<lambda>(pid, _). 0 < pid) reaped) (s\<lparr>eval_mode := True\<rparr>) = Inr u"
    and t: "t = spawnregistery_cleanup (u\<lparr>eval_mode := False\<rparr>)"
    unfolding spawnregistery_eval_def by (elim bindR_InrE) simp
  have "reaping (s\<lparr>eval_mode := True\<rparr>)"
    using assms(1,2) I_frame [where s = s and x = "pending s" and b = True]
    by (auto simp: reaping_def)
  with u have "reaping u"
  proof (rule foldR_invariant)
    fix x s1 s2
    assume "reaping s1"
      and "(case x of (pid, status) \<Rightarrow> index_loop n pending_len (eval_entry run pid status) 0) s1 = Inr s2"
    then show "reaping s2"
      by (cases x) (auto elim: index_loop_invariant [where I = reaping] intro: entry_step)
  qed
  with t show ?thesis by (simp add: reaping_def I_cleanup reg_ok_cleanup)
qed

text \<open>
  Walking over the entries never calls a handler that is gone: whatever goes wrong goes
  wrong inside a handler (or the budget of the model is too small).
\<close>

lemma eval_faults:
  assumes "I s" and "reg_ok s" and "spawnregistery_eval n run reaped s = Inl e"
  shows "F e \<or> e = Out_Of_Fuel"
proof -
  from assms(3) have
    u: "foldR (\<lambda>(pid, status). index_loop n pending_len (eval_entry run pid status) 0)
          (takeWhile (\<lambda>(pid, _). 0 < pid) reaped) (s\<lparr>eval_mode := True\<rparr>) = Inl e"
    unfolding spawnregistery_eval_def by (elim bindR_InlE) simp_all
  have "reaping (s\<lparr>eval_mode := True\<rparr>)"
    using assms(1,2) I_frame [where s = s and x = "pending s" and b = True]
    by (auto simp: reaping_def)
  with u show ?thesis
  proof (rule foldR_fault [where F = "\<lambda>e. F e \<or> e = Out_Of_Fuel"])
    fix x s1 s2
    assume "reaping s1"
      and "(case x of (pid, status) \<Rightarrow> index_loop n pending_len (eval_entry run pid status) 0) s1 = Inr s2"
    then show "reaping s2"
      by (cases x) (auto elim: index_loop_invariant [where I = reaping] intro: entry_step)
  next
    fix x s1 e1
    assume x: "x \<in> set (takeWhile (\<lambda>(pid, _). 0 < pid) reaped)" and w: "reaping s1"
      and r: "(case x of (pid, status) \<Rightarrow> index_loop n pending_len (eval_entry run pid status) 0) s1 = Inl e1"
    obtain pid status where [simp]: "x = (pid, status)" by (cases x)
    from x have "0 < pid" by (auto dest: set_takeWhileD)
    from r have "index_loop n pending_len (eval_entry run pid status) 0 s1 = Inl e1" by simp
    then show "F e1 \<or> e1 = Out_Of_Fuel" using w
      by (rule index_loop_no_fault [where I = reaping and F = F])
         (use \<open>0 < pid\<close> in \<open>blast intro: entry_step entry_fault\<close>)+
  qed
qed

end

text \<open>Reaping one process that one listener waits for.\<close>

lemma single_reap:
  assumes s: "reg_ok s" "\<not> eval_mode s" and pid: "0 < pid"
    and only: "filter (\<lambda>l. fst l = pid) (listeners s) = [(pid, h, d)]" and n: "pending_len s \<le> n"
    and run: "run h d status pid (s\<lparr>eval_mode := True\<rparr>) = Inr t" and mode: "eval_mode t"
    and p: "cells (pending t) = map (zero_waiting pid h d) (cells (pending s))"
  shows "spawnregistery_eval n run [(pid, status)] s =
    Inr (spawnregistery_cleanup ((spawnregistery_unlisten pid h d t)\<lparr>eval_mode := False\<rparr>))"
proof -
  let ?s1 = "s\<lparr>eval_mode := True\<rparr>" and ?t1 = "spawnregistery_unlisten pid h d t"
  have "filter (\<lambda>w. \<not> no_handler w) (cells (pending s)) = cells (pending s)"
    using s by (auto simp: reg_ok_def zeroed_def filter_empty_conv)
  then have ls: "listeners s = map (\<lambda>w. (w_pid w, the (w_handler w), w_data w)) (cells (pending s))"
    by (simp add: listeners_def)
  obtain k where kl: "k < length (listeners s)" "listeners s ! k = (pid, h, d)"
    and ol: "\<And>j. j < length (listeners s) \<Longrightarrow> fst (listeners s ! j) = pid \<Longrightarrow> j = k"
    using unique_index [OF only] by blast
  have k: "k < pending_len s" "w_pid (cells (pending s) ! k) = pid" "the (w_handler (cells (pending s) ! k)) = h"
    "w_data (cells (pending s) ! k) = d"
    using kl by (simp_all add: ls)
  have others: "j = k" if "j < pending_len s" "w_pid (cells (pending s) ! j) = pid" for j
    using ol [of j] that unfolding ls by simp
  have "\<not> no_handler (cells (pending s) ! k)"
    using s k(1) by (auto simp: reg_ok_def zeroed_def filter_empty_conv)
  then have h: "w_handler (cells (pending s) ! k) = Some h" using k(3) by (auto simp: no_handler_def)
  have p1: "cells (pending ?t1) = map (zero_waiting pid h d) (map (zero_waiting pid h d) (cells (pending s)))"
    using mode p by (simp add: spawnregistery_unlisten_def Let_def)
  have len: "pending_len ?t1 = pending_len s" using p1 by simp
  have other: "w_pid (cells (pending ?t1) ! j) \<noteq> pid" if "j < pending_len s" "j \<noteq> k" for j
    using that others [of j] unfolding p1 by (auto simp: zero_waiting_def)
  have "index_loop n pending_len (eval_entry run pid status) 0 ?s1 = Inr ?t1"
  proof (rule index_loop_only)
    show "(0 :: nat) \<le> k" "k < pending_len ?s1" "pending_len ?t1 = pending_len ?s1" "pending_len ?s1 \<le> n + 0"
      using k len n by simp_all
    show "eval_entry run pid status k ?s1 = Inr ?t1"
      using k h run by (simp add: eval_entry_def tarray_get_def)
    show "eval_entry run pid status j ?s1 = Inr ?s1" if "j < k" for j
      using that k(1) others [of j] by (auto simp: eval_entry_def tarray_get_def)
    show "eval_entry run pid status j ?t1 = Inr ?t1" if "k < j" "j < pending_len ?t1" for j
      using that len other [of j] by (auto simp: eval_entry_def tarray_get_def)
  qed
  then show ?thesis using pid by (simp add: spawnregistery_eval_def)
qed

subsection \<open>Properties\<close>

text \<open>C27: Cancelling a listener removes exactly the listener given. While processes are being reaped the
  entry is only emptied in place (no entry moves); otherwise the whole array is compacted, and the
  restarting deletion loop computes the plain filter.\<close>

theorem unlisten_exact:
  "listeners (spawnregistery_unlisten pid h d s) = filter (\<lambda>l. l \<noteq> (pid, h, d)) (listeners s) \<and>
   cells (pending (spawnregistery_unlisten pid h d s)) =
     (if eval_mode s then map (zero_waiting pid h d) (cells (pending s))
      else filter (\<lambda>w. \<not> no_handler w) (map (zero_waiting pid h d) (cells (pending s))))"
  by (simp add: listeners_unlisten) (simp add: spawnregistery_unlisten_def Let_def cleanup_cells)

end
