(* ===== verification/Templatereg.thy ===== *)
theory Templatereg
  imports Spawnregistery
begin

section \<open>Session templates: \<open>sp-daemon/templatereg.c\<close>\<close>

text \<open>
  The registry is a global array that the first registration creates, and a 32-bit counter
  that names the templates \<open>t0, t1, \<dots>\<close> (printed with \<open>%d\<close>, so as a signed number).
  \<open>tmpl_ok\<close> is its invariant: the identifiers in use are those of distinct earlier values of
  the counter. The lemmas show that a registration is found under the identifier it
  returned, that it disturbs no other, and that the buffer for the identifier is never too
  short.
\<close>

datatype fire_up = Tty_Fire_Up | X11_Fire_Up | Wl_Fire_Up

record template =
  t_id :: string
  t_name :: string
  t_icon :: "string option"
  t_type :: string
  t_cb :: fire_up
  t_data :: "string option"

record templates = registry +
  tmpls :: "template tarray gptr"
  counter :: "32 word"

definition template_init :: "'a templates_scheme \<Rightarrow> 'a templates_scheme" where
  "template_init s = (case tmpls s of Null_ptr \<Rightarrow> s\<lparr>tmpls := Live_ptr tarray_new\<rparr> | _ \<Rightarrow> s)"

definition find_temp :: "string \<Rightarrow> 'a templates_scheme \<Rightarrow> (nat \<times> template) option res" where
  "find_temp tid s =
     bindR (gderef (tmpls s))
       (\<lambda>a. Inr (case find_index (\<lambda>t. t_id t = tid) (cells a) of
                   Some i \<Rightarrow> Some (i, cells a ! i) | None \<Rightarrow> None))"

text \<open>The identifier of the template registered when the counter is \<open>c\<close>.\<close>

definition template_id :: "32 word \<Rightarrow> string" where
  "template_id c = CHR ''t'' # show_int (sint c)"

definition template_register ::
  "string option \<Rightarrow> string option \<Rightarrow> string option \<Rightarrow> fire_up option \<Rightarrow> string option \<Rightarrow>
    'a templates_scheme \<Rightarrow> (string option \<times> 'a templates_scheme) res" where
  "template_register name icon type fire_up data s =
     bindR (INT_LENGTH (sint (counter s)))
       (\<lambda>n. case (name, fire_up) of
              (Some nm, Some cb) \<Rightarrow>
                (let buf = snprintf (n + 2) (template_id (counter s));
                     s1 = template_init (s\<lparr>counter := counter s + 1\<rparr>)
                 in bindR (gderef (tmpls s1))
                      (\<lambda>a. bindR (deref type Null_Deref)
                        (\<lambda>ty. Inr (Some buf,
                           s1\<lparr>tmpls := Live_ptr (tarray_add
                             \<lparr>t_id = buf, t_name = nm, t_icon = icon, t_type = ty,
                              t_cb = cb, t_data = data\<rparr> a)\<rparr>))))
            | _ \<Rightarrow> Inr (None, s))"

definition template_unregister ::
  "string \<Rightarrow> 'a templates_scheme \<Rightarrow> (int \<times> 'a templates_scheme) res" where
  "template_unregister tid s =
     bindR (find_temp tid s)
       (\<lambda>r. case r of
              None \<Rightarrow> Inr (0, s)
            | Some (i, t) \<Rightarrow>
                bindR (gderef (tmpls s))
                  (\<lambda>a. Inr (1, s\<lparr>tmpls := Live_ptr (tarray_del a i)\<rparr>)))"

text \<open>The three out-parameters on success; the callers leave their variables alone on failure.\<close>

definition template_details_get ::
  "string \<Rightarrow> 'a templates_scheme \<Rightarrow> (string \<times> string option \<times> string) option res" where
  "template_details_get tid s =
     bindR (find_temp tid s)
       (\<lambda>r. Inr (case r of None \<Rightarrow> None | Some (_, t) \<Rightarrow> Some (t_name t, t_icon t, t_type t)))"

definition template_run ::
  "(fire_up \<Rightarrow> string option \<Rightarrow> 'a templates_scheme \<Rightarrow> 'a templates_scheme res) \<Rightarrow>
    string \<Rightarrow> 'a templates_scheme \<Rightarrow> (int \<times> 'a templates_scheme) res" where
  "template_run call tid s =
     bindR (find_temp tid s)
       (\<lambda>r. case r of None \<Rightarrow> Inr (0, s)
                    | Some (_, t) \<Rightarrow> bindR (call (t_cb t) (t_data t) s) (\<lambda>u. Inr (1, u)))"

definition template_get :: "'a templates_scheme \<Rightarrow> string list res" where
  "template_get s = bindR (gderef (tmpls s)) (\<lambda>a. Inr (map t_id (cells a)))"

lemma unregister_shorter:
  assumes "tmpls s = Live_ptr a" and "cells a = t # ts"
  shows "template_unregister (t_id t) s = Inr (1, s\<lparr>tmpls := Live_ptr (tarray_del a 0)\<rparr>)"
  using assms by (simp add: template_unregister_def find_temp_def)

function template_shutdown :: "'a templates_scheme \<Rightarrow> 'a templates_scheme res" where
  "template_shutdown s =
     (case tmpls s of
        Live_ptr a \<Rightarrow>
          (case cells a of
             [] \<Rightarrow> Inr (s\<lparr>tmpls := Dangling_ptr\<rparr>)
           | t # ts \<Rightarrow>
               (case template_unregister (t_id t) s of
                  Inl e \<Rightarrow> Inl e
                | Inr (_, s1) \<Rightarrow> template_shutdown s1))
      | Null_ptr \<Rightarrow> Inl Null_Deref
      | Dangling_ptr \<Rightarrow> Inl Use_After_Free)"
  by pat_completeness auto
termination
  by (relation "measure (\<lambda>s. case tmpls s of Live_ptr a \<Rightarrow> tarray_len a | _ \<Rightarrow> 0)")
     (auto simp: unregister_shorter tarray_del_def)

declare template_shutdown.simps [simp del]

subsection \<open>The invariant and the laws\<close>

definition tmpl_ok :: "'a templates_scheme \<Rightarrow> bool" where
  "tmpl_ok s \<longleftrightarrow>
     (case tmpls s of
        Null_ptr \<Rightarrow> True
      | Dangling_ptr \<Rightarrow> False
      | Live_ptr a \<Rightarrow> distinct (map t_id (cells a)) \<and>
          (\<forall>t \<in> set (cells a). \<exists>c < counter s. t_id t = template_id c))"

definition template_view :: "'a templates_scheme \<Rightarrow> template list" where
  "template_view s = (case tmpls s of Live_ptr a \<Rightarrow> cells a | _ \<Rightarrow> [])"

lemma inj_template_id: "template_id a = template_id b \<longleftrightarrow> a = b"
  by (auto simp: template_id_def inj_show_int intro: signed_word_eqI)

text \<open>The buffer is as long as the identifier and its terminator: nothing is cut off.\<close>

lemma template_id_fits:
  assumes "INT_LENGTH (sint c) = Inr n"
  shows "snprintf (n + 2) (template_id c) = template_id c"
proof -
  have "sint c \<noteq> - (2 ^ 31)" using assms by (auto simp: INT_LENGTH_def)
  with assms length_show_int [of "sint c"] have "n = length (show_int (sint c))" by simp
  then show ?thesis by (intro snprintf_fits) (simp add: template_id_def)
qed

lemma register_success:
  assumes "tmpl_ok s" and "sint (counter s) \<noteq> - (2 ^ 31)"
  shows "template_register (Some nm) icon (Some ty) (Some cb) data s =
     Inr (Some (template_id (counter s)),
       s\<lparr>tmpls := Live_ptr (tarray_add
            \<lparr>t_id = template_id (counter s), t_name = nm, t_icon = icon, t_type = ty,
             t_cb = cb, t_data = data\<rparr>
            (case tmpls s of Live_ptr a \<Rightarrow> a | _ \<Rightarrow> tarray_new)),
         counter := counter s + 1\<rparr>)"
  using assms length_show_int [OF assms(2)] template_id_fits [of "counter s"]
  by (auto simp: template_register_def template_init_def tmpl_ok_def Let_def split: gptr.splits)

lemma find_temp_view:
  assumes "tmpls s = Live_ptr a"
  shows "find_temp tid s = Inr (case find_index (\<lambda>t. t_id t = tid) (template_view s) of
           Some i \<Rightarrow> Some (i, template_view s ! i) | None \<Rightarrow> None)"
  using assms
  by (auto simp: find_temp_def template_view_def split: option.split simp del: find_index_None)

lemma details_view:
  assumes "tmpls s = Live_ptr a"
  shows "template_details_get tid s =
     Inr (map_option (\<lambda>t. (t_name t, t_icon t, t_type t))
       (find (\<lambda>t. t_id t = tid) (template_view s)))"
  unfolding find_index_find [symmetric]
  by (simp add: template_details_get_def find_temp_view [OF assms] split: option.splits
      del: find_index_None)

lemma get_view: "tmpls s = Live_ptr a \<Longrightarrow> template_get s = Inr (map t_id (template_view s))"
  by (simp add: template_get_def template_view_def)

lemma register_view:
  assumes "tmpl_ok s" and "sint (counter s) \<noteq> - (2 ^ 31)"
    and "template_register (Some nm) icon (Some ty) (Some cb) data s = Inr (tid, u)"
  shows "tid = Some (template_id (counter s))"
    and "template_view u = template_view s @ [\<lparr>t_id = template_id (counter s), t_name = nm,
       t_icon = icon, t_type = ty, t_cb = cb, t_data = data\<rparr>]"
    and "counter u = counter s + 1" and "\<exists>a. tmpls u = Live_ptr a"
  using assms(3) assms(1)
  by (auto simp: register_success [OF assms(1,2)] template_view_def tarray_add_def tarray_new_def
      tmpl_ok_def split: gptr.splits)

lemma fresh_id:
  assumes "tmpl_ok s"
  shows "template_id (counter s) \<notin> t_id ` set (template_view s)"
  using assms
  by (auto simp: tmpl_ok_def template_view_def inj_template_id split: gptr.splits)

lemma tmpl_ok_register:
  assumes ok: "tmpl_ok s" and c: "sint (counter s) \<noteq> - (2 ^ 31)" and w: "counter s < - 1"
    and r: "template_register (Some nm) icon (Some ty) (Some cb) data s = Inr (tid, u)"
  shows "tmpl_ok u"
proof -
  note v = register_view [OF ok c r]
  from v(4) obtain a where a: "tmpls u = Live_ptr a" by blast
  have "unat (counter s) + 1 < 2 ^ 32" using w by (simp add: word_less_nat_alt unsigned_minus_1_eq_mask mask_eq_exp_minus_1)
  then have lt: "counter s < counter s + 1"
    using unat_Suc_room [of "counter s"] by (simp add: word_less_nat_alt unsigned_minus_1_eq_mask mask_eq_exp_minus_1)
  have le: "d < counter s + 1" if "d < counter s" for d
    using that lt by (rule less_trans)
  have old: "\<forall>t \<in> set (template_view s). \<exists>d < counter s. t_id t = template_id d"
    and dist: "distinct (map t_id (template_view s))"
    using ok by (auto simp: tmpl_ok_def template_view_def split: gptr.splits)
  from old le have "\<forall>t \<in> set (template_view s). \<exists>d < counter s + 1. t_id t = template_id d"
    by blast
  moreover from a have "cells a = template_view u" by (simp add: template_view_def)
  ultimately show ?thesis
    using fresh_id [OF ok] lt dist by (auto simp: tmpl_ok_def a v(2,3))
qed

lemma unregister_view:
  assumes "tmpls s = Live_ptr a" and "template_unregister tid s = Inr (r, u)"
  shows "template_view u = remove_first (\<lambda>t. t_id t = tid) (template_view s)"
    and "r = (if tid \<in> t_id ` set (template_view s) then 1 else 0)"
    and "counter u = counter s"
proof -
  have "template_view u = remove_first (\<lambda>t. t_id t = tid) (template_view s) \<and>
    r = (if tid \<in> t_id ` set (template_view s) then 1 else 0) \<and> counter u = counter s"
  proof (cases "find_index (\<lambda>t. t_id t = tid) (template_view s)")
    case None
    then have "\<forall>t \<in> set (template_view s). t_id t \<noteq> tid" by simp
    with assms None show ?thesis
      by (auto simp: template_unregister_def find_temp_view remove_first_absent
          simp del: find_index_None)
  next
    case (Some i)
    from find_index_SomeD [OF Some] have "tid \<in> t_id ` set (template_view s)"
      by (auto intro: rev_image_eqI [OF nth_mem])
    moreover have "u = s\<lparr>tmpls := Live_ptr (tarray_del a i)\<rparr>" "r = 1"
      using assms Some by (simp_all add: template_unregister_def find_temp_view)
    moreover have "cells (tarray_del a i) = remove_first (\<lambda>t. t_id t = tid) (template_view s)"
      using assms(1) Some find_index_SomeD [OF Some]
      by (simp add: tarray_del_def remove_first_index template_view_def)
    ultimately show ?thesis by (simp add: template_view_def)
  qed
  then show "template_view u = remove_first (\<lambda>t. t_id t = tid) (template_view s)"
    and "r = (if tid \<in> t_id ` set (template_view s) then 1 else 0)"
    and "counter u = counter s" by simp_all
qed

text \<open>\<open>template_shutdown\<close> runs to its end and leaves nothing registered.\<close>

lemma shutdown_ends:
  "tmpls s = Live_ptr a \<Longrightarrow> \<exists>u. template_shutdown s = Inr u \<and> tmpls u = Dangling_ptr"
proof (induction "tarray_len a" arbitrary: s a)
  case 0
  then show ?case by (subst template_shutdown.simps) simp
next
  case (Suc n)
  then obtain t ts where c: "cells a = t # ts" by (cases "cells a") auto
  let ?s1 = "s\<lparr>tmpls := Live_ptr (tarray_del a 0)\<rparr>"
  have "template_shutdown s = template_shutdown ?s1"
    by (subst template_shutdown.simps) (simp add: Suc.prems c unregister_shorter)
  moreover have "\<exists>u. template_shutdown ?s1 = Inr u \<and> tmpls u = Dangling_ptr"
    using Suc.hyps c by (intro Suc.hyps(1) [of "tarray_del a 0"]) (simp_all add: tarray_del_def)
  ultimately show ?case by simp
qed


subsection \<open>Properties\<close>

definition empty_templates :: templates where
  "empty_templates = \<lparr>debug = False, no_greeter_restart = False, trace = [], nforks = 0, npipes = 0,
     nreads = 0, naccepts = 0, fds = tarray_new, stop = False, changes = 0, readout = False,
     pending = tarray_new, eval_mode = False, tmpls = Null_ptr, counter = 9\<rparr>"

lemma find_other_append:
  "t_id x \<noteq> tid \<Longrightarrow> find (\<lambda>t. t_id t = tid) (ts @ [x]) = find (\<lambda>t. t_id t = tid) ts"
  by (induction ts) auto

lemma find_new_append:
  "t_id x \<notin> t_id ` set ts \<Longrightarrow> find (\<lambda>t. t_id t = t_id x) (ts @ [x]) = Some x"
  by (induction ts) auto

lemma remove_first_ids:
  "distinct (map f xs) \<Longrightarrow>
   map f (remove_first (\<lambda>x. f x = k) xs) = filter (\<lambda>y. y \<noteq> k) (map f xs)"
proof (induction xs)
  case (Cons x xs)
  have "filter (\<lambda>y. y \<noteq> k) (map f xs) = map f xs" if "f x = k"
    using that Cons.prems by (auto intro!: filter_True simp: image_iff)
  with Cons show ?case by auto
qed simp

text \<open>C22: Registering a template succeeds and returns an identifier no registered template has, written
  in full into its buffer; the details found under it are those registered, every other identifier
  finds what it found before, and the list of identifiers grows by the new one.\<close>

theorem register_lookup:
  assumes ok: "tmpl_ok s" and c: "counter s < 2 ^ 31 - 1"
  shows "\<exists>tid u. template_register (Some nm) icon (Some ty) (Some cb) data s = Inr (Some tid, u) \<and>
    tmpl_ok u \<and> tid \<notin> t_id ` set (template_view s) \<and> tid = template_id (counter s) \<and>
    template_get u = Inr (map t_id (template_view s) @ [tid]) \<and>
    template_details_get tid u = Inr (Some (nm, icon, ty)) \<and>
    (\<forall>a other. tmpls s = Live_ptr a \<longrightarrow> other \<noteq> tid \<longrightarrow>
       template_details_get other u = template_details_get other s)"
proof -
  have small: "sint (counter s) \<noteq> - (2 ^ 31)"
  proof
    assume "sint (counter s) = - (2 ^ 31)"
    moreover have "word_of_int (sint (counter s)) = counter s" by simp
    ultimately have "counter s = of_int (- (2 ^ 31))" by simp
    with c show False by simp
  qed
  have "counter s < - 1" using c by (rule less_trans) simp
  let ?tid = "template_id (counter s)"
  let ?t = "\<lparr>t_id = ?tid, t_name = nm, t_icon = icon, t_type = ty, t_cb = cb, t_data = data\<rparr>"
  obtain u where r: "template_register (Some nm) icon (Some ty) (Some cb) data s = Inr (Some ?tid, u)"
    using register_success [OF ok small] by simp
  note v = register_view [OF ok small r]
  from v(4) obtain b where b: "tmpls u = Live_ptr b" by blast
  have fresh: "?tid \<notin> t_id ` set (template_view s)" by (rule fresh_id [OF ok])
  have "template_details_get ?tid u = Inr (Some (nm, icon, ty))"
    using find_new_append [of ?t "template_view s"] fresh by (simp add: details_view [OF b] v(2))
  moreover have "template_details_get other u = template_details_get other s"
    if "tmpls s = Live_ptr a" "other \<noteq> ?tid" for a other
    using that find_other_append [of ?t other] by (simp add: details_view [OF b] details_view [OF that(1)] v(2))
  moreover have "tmpl_ok u" using tmpl_ok_register [OF ok small \<open>counter s < - 1\<close> r] .
  ultimately show ?thesis using r fresh b v(2)
    by (intro exI [of _ ?tid] exI [of _ u]) (simp add: get_view)
qed

lemma register_lookup_witness:
  "\<exists>u. template_register (Some ''tty'') None (Some ''tty'') (Some Tty_Fire_Up) None empty_templates =
     Inr (Some ''t9'', u) \<and> template_details_get ''t9'' u = Inr (Some (''tty'', None, ''tty''))"
proof -
  have "tmpl_ok empty_templates" "counter empty_templates < 2 ^ 31 - 1"
    by (simp_all add: empty_templates_def tmpl_ok_def)
  from register_lookup [OF this, of "''tty''" None "''tty''" Tty_Fire_Up None]
  have "\<exists>tid u. template_register (Some ''tty'') None (Some ''tty'') (Some Tty_Fire_Up) None empty_templates =
      Inr (Some tid, u) \<and> tid = template_id 9 \<and> template_details_get tid u = Inr (Some (''tty'', None, ''tty''))"
    by (auto simp: empty_templates_def)
  moreover have "template_id 9 = ''t9''" by code_simp
  ultimately show ?thesis by auto
qed

text \<open>Unregistering an identifier removes the template it names and no other, and says whether there
  was one.\<close>

theorem unregister_removes:
  assumes "tmpl_ok s" and "tmpls s = Live_ptr a" and "template_unregister tid s = Inr (r, u)"
  shows "tmpl_ok u \<and> template_get u = Inr (filter (\<lambda>x. x \<noteq> tid) (map t_id (template_view s))) \<and>
    template_details_get tid u = Inr None \<and> r = (if tid \<in> t_id ` set (template_view s) then 1 else 0)"
proof -
  note v = unregister_view [OF assms(2,3)]
  have view: "template_view s = cells a" using assms(2) by (simp add: template_view_def)
  have dist: "distinct (map t_id (cells a))" and ids: "\<forall>t \<in> set (cells a). \<exists>c < counter s. t_id t = template_id c"
    using assms(1,2) by (simp_all add: tmpl_ok_def)
  obtain b where b: "tmpls u = Live_ptr b"
    using assms(2,3) by (auto simp: template_unregister_def elim!: bindR_InrE split: option.splits)
  then have vb: "cells b = remove_first (\<lambda>t. t_id t = tid) (cells a)" using v(1) view by (simp add: template_view_def)
  have "tmpl_ok u"
    using b vb dist ids v(3) remove_first_subset [of "\<lambda>t. t_id t = tid" "cells a"]
    by (auto simp: tmpl_ok_def intro: distinct_map_remove_first)
  moreover have "map t_id (cells b) = filter (\<lambda>x. x \<noteq> tid) (map t_id (cells a))"
    unfolding vb by (rule remove_first_ids [OF dist])
  moreover from this have "tid \<notin> set (map t_id (cells b))" by simp
  then have "find (\<lambda>t. t_id t = tid) (cells b) = None" by (auto simp: find_None_iff)
  moreover have "template_view u = cells b" using b by (simp add: template_view_def)
  ultimately show ?thesis using v(2) view
    by (simp add: get_view [OF b] details_view [OF b])
qed

lemma unregister_removes_witness:
  "\<exists>u. template_unregister ''t9'' (template_init empty_templates) = Inr (0, u) \<and> template_get u = Inr []"
proof -
  let ?s = "template_init empty_templates"
  have t: "tmpls ?s = Live_ptr tarray_new" "tmpl_ok ?s"
    by (simp_all add: template_init_def empty_templates_def tmpl_ok_def tarray_new_def)
  then have "template_unregister ''t9'' ?s = Inr (0, ?s)"
    by (simp add: template_unregister_def find_temp_def tarray_new_def)
  from unregister_removes [OF t(2,1) this] this t show ?thesis
    by (simp add: template_view_def tarray_new_def)
qed

text \<open>Shutting down ends for every registry that was created, whatever it holds, and frees it.\<close>

theorem template_shutdown_ends:
  "tmpls s = Live_ptr a \<Longrightarrow> \<exists>u. template_shutdown s = Inr u \<and> tmpls u = Dangling_ptr"
  by (rule shutdown_ends)

lemma template_shutdown_ends_witness:
  "\<exists>u. template_shutdown (template_init empty_templates) = Inr u \<and> tmpls u = Dangling_ptr"
  by (rule template_shutdown_ends [of _ tarray_new]) (simp add: template_init_def empty_templates_def)

end
