(* ===== verification/Os.thy ===== *)
theory Os
  imports Types
begin

section \<open>What the daemon asks of its surroundings\<close>

text \<open>
  Answers of the C library, the kernel and systemd's \<open>sd-login\<close>, none of which is under
  \<open>src/\<close>: one record of functions, a parameter of every definition that uses them. Queries
  that depend on the moment (\<open>fork\<close>, \<open>pipe\<close>, \<open>accept\<close>, \<open>read\<close>) are numbered by the counters of
  the world: the n-th call gets the n-th answer. The kernel hands out a descriptor knowing which
  ones are open: \<open>pipe\<close> and \<open>accept\<close> are also given the descriptors the event loop watches
  (the daemon closes none of them before it has stopped watching it). A failing \<open>sd_\<close> call answers \<open>Inl\<close> of its
  (negative) error number.
\<close>

record passwd =
  pw_name :: string
  pw_uid :: int
  pw_gid :: int
  pw_dir :: string
  pw_shell :: string

text \<open>
  A read from a client's socket: end of file, an error, bytes that are no message, a message.
  A read from the pipe of a child likewise.
\<close>

datatype 'm input = Closed_by_peer | Read_error | Malformed | Message 'm

record os =
  sd_pid_get_session :: "int \<Rightarrow> int + string"
  sd_session_get_seat :: "string \<Rightarrow> int + string"
  sd_seat_get_sessions :: "string option \<Rightarrow> int + string list"
  sd_session_get_vt :: "string option \<Rightarrow> int + nat"
  sd_session_get_uid :: "string option \<Rightarrow> int + int"
  sd_session_get_desktop :: "string option \<Rightarrow> int + string"
  sd_session_get_type :: "string option \<Rightarrow> int + string"
  getsid :: "int \<Rightarrow> int"
  kill_probe :: "int \<Rightarrow> int"
  os_fork :: "nat \<Rightarrow> int"
  os_pipe :: "nat \<Rightarrow> int list \<Rightarrow> (int \<times> int) option"
  os_accept :: "nat \<Rightarrow> int list \<Rightarrow> int"
  so_peercred :: "int \<Rightarrow> int option"
  recv_client :: "nat \<Rightarrow> greeter_message input"
  recv_child :: "nat \<Rightarrow> spawn_message input"
  getpwnam :: "string \<Rightarrow> passwd option"
  getpwuid :: "int \<Rightarrow> passwd option"

text \<open>A new descriptor is never one that is open.\<close>

definition kernel_ok :: "os \<Rightarrow> bool" where
  "kernel_ok os \<longleftrightarrow> (\<forall>n open_fds. os_accept os n open_fds \<notin> set open_fds \<and>
     (\<forall>rd wr. os_pipe os n open_fds = Some (rd, wr) \<longrightarrow> rd \<notin> set open_fds))"

subsection \<open>A small concrete system for the witnesses\<close>

definition bob :: passwd where
  "bob = \<lparr>pw_name = ''bob'', pw_uid = 1000, pw_gid = 1000, pw_dir = ''/home/bob'', pw_shell = ''/bin/sh''\<rparr>"

definition spawny_pw :: passwd where
  "spawny_pw = \<lparr>pw_name = ''spawny'', pw_uid = 200, pw_gid = 200, pw_dir = ''/'', pw_shell = ''/bin/sh''\<rparr>"

definition example_os :: "greeter_message input \<Rightarrow> os" where
  "example_os inp =
     \<lparr>sd_pid_get_session = (\<lambda>pid. if pid = 60 then Inl (-61) else Inr ''c1''),
      sd_session_get_seat = (\<lambda>_. Inr ''seat0''),
      sd_seat_get_sessions = (\<lambda>_. Inr [''c1'', ''c2'', ''c3'']),
      sd_session_get_vt = (\<lambda>h. if h = Some ''c3'' then Inl (-6) else Inr 12),
      sd_session_get_uid = (\<lambda>h. if h = Some ''c1'' then Inr 200 else Inr 1000),
      sd_session_get_desktop = (\<lambda>_. Inr ''sway''), sd_session_get_type = (\<lambda>_. Inr ''wayland''),
      getsid = (\<lambda>pid. pid), kill_probe = (\<lambda>_. 0), os_fork = (\<lambda>n. 100 + int n),
      os_pipe = (\<lambda>n fds. Some (fold max fds 2 + 1, fold max fds 2 + 2)),
      os_accept = (\<lambda>n fds. fold max fds 2 + 1), so_peercred = (\<lambda>_. Some 50),
      recv_client = (\<lambda>_. inp), recv_child = (\<lambda>_. Malformed),
      getpwnam = (\<lambda>n. if n = ''spawny'' then Some spawny_pw else if n = ''bob'' then Some bob else None),
      getpwuid = (\<lambda>u. if u = 200 then Some spawny_pw else if u = 1000 then Some bob else None)\<rparr>"

lemma fold_max_ge: "x \<in> set xs \<or> x \<le> a \<Longrightarrow> x \<le> fold max xs (a :: int)"
  by (induction xs arbitrary: a) (auto simp: max_def)

lemma example_kernel_ok: "kernel_ok (example_os inp)"
proof -
  have "fold max fds 2 + 1 \<notin> set fds" for fds :: "int list"
    using fold_max_ge [of "fold max fds 2 + 1" fds 2] by auto
  then show ?thesis by (simp add: kernel_ok_def example_os_def)
qed

end
