(* ===== verification/Sessionmgt.thy ===== *)
theory Sessionmgt
  imports Os
begin

section \<open>Session management on logind: \<open>sp-daemon/sessionmgt_logind.c\<close>\<close>

text \<open>
  The implementation of the interface \<open>sessionmgt.h\<close> that is built. Out-parameters that a
  call may leave unset are of type \<open>'a cell\<close>; reading one that is unset is \<open>Uninit_Read\<close>.
\<close>

datatype 'a cell = Indet | Val 'a

fun read_cell :: "'a cell \<Rightarrow> 'a res" where
  "read_cell Indet = Inl Uninit_Read"
| "read_cell (Val v) = Inr v"

lemma read_cell_eq_Inr [res_simps]: "read_cell c = Inr v \<longleftrightarrow> c = Val v"
  by (cases c) auto

definition session_get :: "os \<Rightarrow> int \<Rightarrow> string option" where
  "session_get os pid = (case sd_pid_get_session os pid of Inl _ \<Rightarrow> None | Inr r \<Rightarrow> Some r)"

definition seat_get :: "os \<Rightarrow> int \<Rightarrow> string option" where
  "seat_get os pid =
     (case session_get os pid of
        None \<Rightarrow> None
      | Some session \<Rightarrow> (case sd_session_get_seat os session of Inl _ \<Rightarrow> None | Inr r \<Rightarrow> Some r))"

definition session_enumerate :: "os \<Rightarrow> string option \<Rightarrow> string list" where
  "session_enumerate os seat =
     (case sd_seat_get_sessions os seat of Inl _ \<Rightarrow> [] | Inr handles \<Rightarrow> handles)"

text \<open>\<open>system("loginctl activate ...")\<close>; nothing is done for a NULL handle.\<close>

definition session_activate :: "string option \<Rightarrow> 'a world_scheme \<Rightarrow> 'a world_scheme" where
  "session_activate handle s =
     (case handle of None \<Rightarrow> s | Some h \<Rightarrow> emit (Activated (snprintf (4096 - 18) h)) s)"

definition ENXIO :: int where "ENXIO = 6"
definition ENODATA :: int where "ENODATA = 61"
definition EINVAL :: int where "EINVAL = 22"
definition ENOMEM :: int where "ENOMEM = 12"

text \<open>
  The macro \<open>GET_FIELD\<close>: \<open>None\<close> where it returns from the function; the field is set on
  success and on three errors, and left as it was on any other error.
\<close>

definition GET_FIELD :: "int + 'a \<Rightarrow> 'a \<Rightarrow> 'a cell option" where
  "GET_FIELD ret errval =
     (case ret of
        Inr v \<Rightarrow> Some (Val v)
      | Inl r \<Rightarrow>
          if r = - ENXIO then None
          else if r = - ENODATA \<or> r = - EINVAL \<or> r = - ENOMEM then Some (Val errval)
          else Some Indet)"

definition str_field :: "int + string \<Rightarrow> string option cell option" where
  "str_field ret = GET_FIELD (map_sum id Some ret) None"

record details =
  det_ok :: bool
  det_uid :: "int cell"
  det_name :: "string option"
  det_vtnr :: "int option"

definition session_name :: "string option \<Rightarrow> string option \<Rightarrow> string cell" where
  "session_name type desktop =
     (case (type, desktop) of
        (Some t, Some d) \<Rightarrow> Val (snprintf 1024 (t @ '' - '' @ d))
      | (Some t, None) \<Rightarrow> Val (snprintf 1024 t)
      | (None, Some d) \<Rightarrow> Val (snprintf 1024 d)
      | (None, None) \<Rightarrow> Indet)"

text \<open>
  \<open>want_uid\<close> and \<open>want_name\<close> say whether the caller passes a pointer for these fields;
  \<open>det_vtnr\<close> is what is stored through \<open>vtnr\<close> when that pointer is given.
\<close>

definition session_details ::
  "os \<Rightarrow> string option \<Rightarrow> bool \<Rightarrow> bool \<Rightarrow> details res" where
  "session_details os handle want_uid want_name =
     (let failed = (\<lambda>vt. Inr \<lparr>det_ok = False, det_uid = Indet, det_name = None, det_vtnr = vt\<rparr>)
      in case GET_FIELD (sd_session_get_vt os handle) 0 of
           None \<Rightarrow> failed None
         | Some _ \<Rightarrow>
             let vt = Some (case sd_session_get_vt os handle of Inl _ \<Rightarrow> -1 | Inr n \<Rightarrow> int n)
             in case (if want_uid then GET_FIELD (sd_session_get_uid os handle) 0 else Some Indet) of
                  None \<Rightarrow> failed vt
                | Some uid \<Rightarrow>
                    case str_field (sd_session_get_desktop os handle) of
                      None \<Rightarrow> failed vt
                    | Some desktop \<Rightarrow>
                        case str_field (sd_session_get_type os handle) of
                          None \<Rightarrow> failed vt
                        | Some type \<Rightarrow>
                            bindR (read_cell type)
                              (\<lambda>t. bindR (read_cell desktop)
                                (\<lambda>d. bindR (if want_name then map_sum id Some (read_cell (session_name t d))
                                            else Inr None)
                                  (\<lambda>name. Inr \<lparr>det_ok = True, det_uid = uid,
                                               det_name = name, det_vtnr = vt\<rparr>))))"

definition known_errors :: "int + 'a \<Rightarrow> bool" where
  "known_errors ret \<longleftrightarrow> (case ret of Inr _ \<Rightarrow> True | Inl r \<Rightarrow> r \<in> {- ENXIO, - ENODATA, - EINVAL, - ENOMEM})"

lemma GET_FIELD_known: "known_errors ret \<Longrightarrow> GET_FIELD ret e \<noteq> Some Indet"
  by (auto simp: known_errors_def GET_FIELD_def split: sum.splits)

lemma str_field_known: "known_errors ret \<Longrightarrow> str_field ret \<noteq> Some Indet"
  unfolding str_field_def
  by (rule GET_FIELD_known) (auto simp: known_errors_def split: sum.splits)

text \<open>
  Where systemd answers the fields of a session with a value or one of the four errors the
  macro knows, asking without the name never reads an unset variable.
\<close>

lemma details_defined:
  assumes "known_errors (sd_session_get_desktop os handle)"
    and "known_errors (sd_session_get_type os handle)"
  shows "\<exists>d. session_details os handle want_uid False = Inr d"
  using str_field_known [OF assms(1)] str_field_known [OF assms(2)]
  by (auto simp: session_details_def Let_def split: option.splits)
     (metis cell.exhaust read_cell.simps(2) bindR_Inr)+

lemma details_vtnr:
  assumes "session_details os handle False False = Inr d"
  shows "det_vtnr d = (if sd_session_get_vt os handle = Inl (- ENXIO) then None
    else Some (case sd_session_get_vt os handle of Inl _ \<Rightarrow> -1 | Inr n \<Rightarrow> int n))"
  using assms
  by (auto simp: session_details_def Let_def GET_FIELD_def bindR_eq_Inr split: option.splits sum.splits if_splits)

lemma ends_read_cell [simp]: "ends (read_cell c)"
  by (cases c) simp_all

lemma ends_session_details: "ends (session_details os h u n)"
  by (auto simp: session_details_def Let_def intro!: ends_bind split: option.split)
     (auto simp: ends_def session_name_def split: option.split)

subsection \<open>Properties\<close>


lemma example_details: "session_details (example_os inp) (Some h) want_uid False =
   (if h = ''c3'' then Inr \<lparr>det_ok = False, det_uid = Indet, det_name = None, det_vtnr = None\<rparr>
    else Inr \<lparr>det_ok = True, det_uid = (if want_uid then Val (if h = ''c1'' then 200 else 1000) else Indet),
      det_name = None, det_vtnr = Some 12\<rparr>)"
  by (simp add: session_details_def example_os_def GET_FIELD_def str_field_def ENXIO_def)


end
