(* ===== verification/Spawnservice.thy ===== *)
theory Spawnservice
  imports Templatereg Sessionmgt
begin

section \<open>Starting sessions, daemon side: \<open>sp-daemon/spawnservice.c\<close>\<close>

text \<open>
  A \<open>Spawn_Try\<close> lives on the heap \<open>tries\<close> from \<open>spawnservice_spawn\<close> to \<open>_spawn_try_free\<close>;
  addresses are not reused (\<open>next_try\<close>), so touching a freed one is visible as
  \<open>Use_After_Free\<close>. The indirect call \<open>try->done.cb(try->done.data, end)\<close> is the parameter
  \<open>run_done\<close> of the operations that may reach it. What runs in the forked child is the
  theory \<open>Session_Child\<close>.
\<close>

datatype Spawn_Service_State = SPAWN_SERVICE_SUCCESS | SPAWN_SERVICE_ERROR

record spawn_end =
  end_success :: Spawn_Service_State
  end_message :: "string option"

datatype done_fn = Greeter_start_done | Session_done

datatype job_fn = Greeter_job ref | Session_job string

datatype ended_fn = Reexecute_greeter

record xdg_settings =
  session_type :: "string option cell"
  session_desktop :: "string option cell"
  session_seat :: "string option cell"

record spawn_try =
  com_read :: int
  com_write :: int
  job :: job_fn
  session_ended :: "ended_fn option"
  done_cb :: "done_fn option"
  done_data :: ref
  service :: string
  usr :: string
  pw :: "string option"
  st_session :: "string option"
  error_msg :: "string option"
  exit_success :: Spawn_Service_State
  try_pid :: int
  settings :: xdg_settings

record spawner = templates +
  tty_counter :: int
  tries :: "nat \<Rightarrow> spawn_try option"
  next_try :: nat

type_synonym 'a spawner_done =
  "done_fn \<Rightarrow> ref \<Rightarrow> spawn_end \<Rightarrow> 'a spawner_scheme \<Rightarrow> 'a spawner_scheme res"

definition upd_try :: "nat \<Rightarrow> (spawn_try \<Rightarrow> spawn_try) \<Rightarrow> 'a spawner_scheme \<Rightarrow> 'a spawner_scheme" where
  "upd_try t f s = s\<lparr>tries := (tries s)(t := map_option f (tries s t))\<rparr>"

definition free_try :: "nat \<Rightarrow> 'a spawner_scheme \<Rightarrow> 'a spawner_scheme" where
  "free_try t s = s\<lparr>tries := (tries s)(t := None)\<rparr>"

subsection \<open>Terminals\<close>

definition LAST_TTY :: int where "LAST_TTY = 63"
definition FIRST_TTY :: int where "FIRST_TTY = 10"

fun vt_used_by :: "os \<Rightarrow> string list \<Rightarrow> int \<Rightarrow> bool res" where
  "vt_used_by os [] vtnr = Inr False"
| "vt_used_by os (h # hs) vtnr =
     bindR (session_details os (Some h) False False)
       (\<lambda>d. if (case det_vtnr d of None \<Rightarrow> -1 | Some v \<Rightarrow> v) = vtnr then Inr True
            else vt_used_by os hs vtnr)"

definition vt_used :: "os \<Rightarrow> string option \<Rightarrow> int \<Rightarrow> bool res" where
  "vt_used os seat vtnr = vt_used_by os (session_enumerate os seat) vtnr"

text \<open>The loop of \<open>available_tty\<close>: the number of the terminal, and the new \<open>tty_counter\<close>.\<close>

function find_tty :: "(int \<Rightarrow> bool res) \<Rightarrow> int \<Rightarrow> (int option \<times> int) res" where
  "find_tty used c =
     (if c > LAST_TTY then Inr (None, c)
      else case used (c + 1) of
             Inl e \<Rightarrow> Inl e
           | Inr True \<Rightarrow> find_tty used (c + 1)
           | Inr False \<Rightarrow> Inr (Some (c + 1), c + 1))"
  by pat_completeness auto
termination
  by (relation "measure (\<lambda>(used, c). nat (LAST_TTY + 1 - c))") (auto simp: LAST_TTY_def)

declare find_tty.simps [simp del]

definition available_tty ::
  "os \<Rightarrow> string option \<Rightarrow> 'a spawner_scheme \<Rightarrow> (string option \<times> 'a spawner_scheme) res" where
  "available_tty os seat s =
     bindR (find_tty (vt_used os seat) (tty_counter s))
       (\<lambda>(r, c). Inr (map_option (\<lambda>n. snprintf 4096 (''/dev/tty'' @ show_int n)) r,
                     s\<lparr>tty_counter := c\<rparr>))"

subsection \<open>Messages of the child, ending a try\<close>

definition service_message ::
  "spawn_try \<Rightarrow> spawn_message_type \<Rightarrow> string option \<Rightarrow> 'a world_scheme \<Rightarrow> 'a world_scheme" where
  "service_message try ty msg =
     emit (Service_message (com_write try) \<lparr>sp_type = ty, sp_exit = msg\<rparr>)"

definition service_com_exit :: "spawn_try \<Rightarrow> string \<Rightarrow> 'a world_scheme \<Rightarrow> 'a world_scheme" where
  "service_com_exit try reason = service_message try ERROR_EXIT (Some reason)"

definition force_quit :: "spawn_try \<Rightarrow> 'a world_scheme \<Rightarrow> 'a world_scheme" where
  "force_quit try s = (if try_pid try > 0 then emit (Killed (try_pid try)) s else s)"

definition spawn_try_free ::
  "'a spawner_done \<Rightarrow> nat \<Rightarrow> 'a spawner_scheme \<Rightarrow> 'a spawner_scheme res" where
  "spawn_try_free run_done t s =
     bindR (deref (tries s t) Use_After_Free)
       (\<lambda>try. let s1 = emit (Closed (com_read try)) (manager_unregister_fd (com_read try) s)
              in bindR (case done_cb try of
                          None \<Rightarrow> Inr s1
                        | Some cb \<Rightarrow> run_done cb (done_data try)
                            \<lparr>end_success = exit_success try, end_message = error_msg try\<rparr> s1)
                   (\<lambda>s2. bindR (deref (tries s2 t) Use_After_Free)
                     (\<lambda>try2. Inr (free_try t
                       (spawnregistery_unlisten (try_pid try2) Spawned_session_disappear
                         (Try_ref t) s2)))))"

definition child_data ::
  "os \<Rightarrow> 'a spawner_done \<Rightarrow> ref \<Rightarrow> int \<Rightarrow> 'a spawner_scheme \<Rightarrow> 'a spawner_scheme res" where
  "child_data os run_done data fd s =
     (case data of
        Try_ref t \<Rightarrow>
          (let inp = recv_child os (nreads s); s1 = s\<lparr>nreads := Suc (nreads s)\<rparr>
           in case inp of
                Read_error \<Rightarrow> Inl Out_Of_Bounds
              | Message msg \<Rightarrow>
                  (case sp_type msg of
                     CONNECT \<Rightarrow> Inr s1
                   | SETUP_DONE \<Rightarrow>
                       bindR (deref (tries s1 t) Use_After_Free)
                         (\<lambda>try. let sess = session_get os (try_pid try);
                                    s2 = upd_try t (\<lambda>y. y\<lparr>st_session := sess\<rparr>) s1;
                                    s3 = (if sess = None then force_quit try s2 else s2)
                                in Inr (session_activate sess s3))
                   | SESSION_ACTIVE \<Rightarrow>
                       bindR (deref (tries s1 t) Use_After_Free)
                         (\<lambda>try. spawn_try_free run_done t
                           (upd_try t (\<lambda>y. y\<lparr>exit_success := SPAWN_SERVICE_SUCCESS\<rparr>)
                             (manager_unregister_fd (com_read try) s1)))
                   | ERROR_EXIT \<Rightarrow>
                       bindR (deref (tries s1 t) Use_After_Free)
                         (\<lambda>try. bindR (deref (sp_exit msg) Null_Deref)
                           (\<lambda>reason. Inr (upd_try t (\<lambda>y. y\<lparr>error_msg := Some reason\<rparr>)
                             (manager_unregister_fd (com_read try) s1))))
                   | Unknown_Spawn_Type _ \<Rightarrow> Inr s1)
              | _ \<Rightarrow>
                  bindR (deref (tries s1 t) Use_After_Free)
                    (\<lambda>try. Inr (force_quit try (manager_unregister_fd fd s1))))
      | _ \<Rightarrow> Inl Null_Deref)"

definition spawned_session_disappear ::
  "'a spawner_done \<Rightarrow> ref \<Rightarrow> 'a spawner_scheme \<Rightarrow> 'a spawner_scheme res" where
  "spawned_session_disappear run_done data s =
     (case data of Try_ref t \<Rightarrow> spawn_try_free run_done t s | _ \<Rightarrow> Inl Null_Deref)"

subsection \<open>Starting a try\<close>

text \<open>The daemon's side of the fork.\<close>

definition child_started :: "nat \<Rightarrow> spawn_try \<Rightarrow> int \<Rightarrow> 'a spawner_scheme \<Rightarrow> 'a spawner_scheme" where
  "child_started t try pid s =
     (let s1 = emit (Closed (com_write try)) s;
          s2 = manager_register_fd (com_read try) (Some Child_data) (Try_ref t) s1;
          s3 = spawnregistery_listen pid (Some Spawned_session_disappear) (Try_ref t) s2
      in upd_try t (\<lambda>y. y\<lparr>try_pid := pid\<rparr>) s3)"

text \<open>\<open>child_run\<close> as the daemon sees it: \<open>fork\<close> returned an error or a process.\<close>

definition child_run :: "os \<Rightarrow> nat \<Rightarrow> 'a spawner_scheme \<Rightarrow> (bool \<times> 'a spawner_scheme) res" where
  "child_run os t s =
     bindR (deref (tries s t) Use_After_Free)
       (\<lambda>try. bindR (read_cell (session_seat (settings try)))
         (\<lambda>seat. bindR (available_tty os seat s)
           (\<lambda>(tty, s1).
              case tty of
                None \<Rightarrow> Inr (False, service_com_exit try ''Failed to find tty'' s1)
              | Some _ \<Rightarrow>
                  let pid = os_fork os (nforks s1); s2 = s1\<lparr>nforks := Suc (nforks s1)\<rparr>
                  in if pid = -1 then Inr (False, s2)
                     else Inr (True, child_started t try pid (emit (Forked pid) s2)))))"

definition no_settings :: xdg_settings where
  "no_settings = \<lparr>session_type = Val None, session_desktop = Val None, session_seat = Val None\<rparr>"

definition spawnservice_spawn ::
  "os \<Rightarrow> 'a spawner_done \<Rightarrow> done_fn \<Rightarrow> ref \<Rightarrow> job_fn \<Rightarrow> ended_fn option \<Rightarrow> string \<Rightarrow> string \<Rightarrow>
    string option \<Rightarrow> xdg_settings option \<Rightarrow> 'a spawner_scheme \<Rightarrow> (nat option \<times> 'a spawner_scheme) res" where
  "spawnservice_spawn os run_done done data jb session_done svc user pass sett s =
     (let p = os_pipe os (npipes s) (watched s); s1 = s\<lparr>npipes := Suc (npipes s)\<rparr>
      in case p of
           None \<Rightarrow> Inr (None, s1)
         | Some (rd, wr) \<Rightarrow>
             let t = next_try s1;
                 try = \<lparr>com_read = rd, com_write = wr, job = jb, session_ended = session_done,
                        done_cb = Some done, done_data = data, service = svc, usr = user,
                        pw = pass, st_session = None, error_msg = None,
                        exit_success = SPAWN_SERVICE_ERROR, try_pid = 0,
                        settings = (case sett of None \<Rightarrow> no_settings | Some x \<Rightarrow> x)\<rparr>;
                 s2 = s1\<lparr>tries := (tries s1)(t := Some try), next_try := Suc t\<rparr>
             in bindR (read_cell (session_seat (settings try)))
                  (\<lambda>_. bindR (child_run os t s2)
                    (\<lambda>(ok, s3). if ok then Inr (Some t, s3)
                               else bindR (spawn_try_free run_done t s3) (\<lambda>s4. Inr (Some t, s4)))))"

subsection \<open>Starting a try always comes to an end\<close>

lemma ends_vt_used: "ends (vt_used os seat v)"
proof -
  have "ends (vt_used_by os hs v)" for hs
    by (induction hs) (auto intro!: ends_bind ends_session_details)
  then show ?thesis by (simp add: vt_used_def)
qed

lemma ends_find_tty:
  assumes "\<And>v. ends (used v)"
  shows "ends (find_tty used c)"
  using assms
proof (induction used c rule: find_tty.induct)
  case (1 used c)
  show ?case
  proof (cases "c > LAST_TTY")
    case True
    then show ?thesis by (simp add: find_tty.simps [of used c])
  next
    case False
    show ?thesis
    proof (cases "used (c + 1)")
      case (Inl e)
      with False 1(2) [of "c + 1"] show ?thesis by (simp add: find_tty.simps [of used c])
    next
      case (Inr b)
      with False 1 show ?thesis by (cases b) (simp_all add: find_tty.simps [of used c])
    qed
  qed
qed

text \<open>What the search finds: the first number above the counter that no session uses.\<close>

lemma find_tty_spec:
  assumes "find_tty used c = Inr (r, c')"
  shows "case r of
      Some n \<Rightarrow> c' = n \<and> c < n \<and> n \<le> LAST_TTY + 1 \<and> used n = Inr False \<and>
        (\<forall>v. c < v \<and> v < n \<longrightarrow> used v = Inr True)
    | None \<Rightarrow> c' = max c (LAST_TTY + 1) \<and> (\<forall>v. c < v \<and> v \<le> LAST_TTY + 1 \<longrightarrow> used v = Inr True)"
  using assms
proof (induction used c rule: find_tty.induct)
  case (1 used c)
  show ?case
  proof (cases "c > LAST_TTY")
    case True
    then show ?thesis using 1(2) by (auto simp: find_tty.simps [of used c])
  next
    case False
    from 1(2) False obtain b where b: "used (c + 1) = Inr b"
      by (auto simp: find_tty.simps [of used c] split: sum.splits)
    show ?thesis
    proof (cases b)
      case True
      with b False 1(2) have "find_tty used (c + 1) = Inr (r, c')"
        by (simp add: find_tty.simps [of used c])
      from 1(1) [OF False _ _ this] b True
      have IH: "case r of
          Some n \<Rightarrow> c' = n \<and> c + 1 < n \<and> n \<le> LAST_TTY + 1 \<and> used n = Inr False \<and>
            (\<forall>v. c + 1 < v \<and> v < n \<longrightarrow> used v = Inr True)
        | None \<Rightarrow> c' = max (c + 1) (LAST_TTY + 1) \<and>
            (\<forall>v. c + 1 < v \<and> v \<le> LAST_TTY + 1 \<longrightarrow> used v = Inr True)"
        by blast
      have step: "c < v \<longleftrightarrow> v = c + 1 \<or> c + 1 < v" for v by auto
      from IH b True False show ?thesis
        by (cases r) (auto simp: step)
    next
      case False
      with b \<open>\<not> c > LAST_TTY\<close> 1(2) show ?thesis
        by (auto simp: find_tty.simps [of used c])
    qed
  qed
qed

lemma ends_available_tty: "ends (available_tty os seat s)"
  by (auto simp: available_tty_def intro!: ends_bind ends_find_tty ends_vt_used)

lemma more_frame [simp]:
  "spawner.more (emit e s) = spawner.more s"
  "spawner.more (manager_unregister_fd fd s) = spawner.more s"
  "spawner.more (manager_register_fd fd cb d s) = spawner.more s"
  "spawner.more (spawnregistery_listen pid h d s) = spawner.more s"
  "spawner.more (upd_try t f s) = spawner.more s"
  "tries (emit e s) = tries s"
  "tries (manager_unregister_fd fd s) = tries s"
  "tries (manager_register_fd fd cb d s) = tries s"
  "tries (spawnregistery_listen pid h d s) = tries s"
  by (simp_all add: emit_def manager_unregister_fd_def Let_def clear_objects_def
      manager_register_fd_def spawnregistery_listen_def upd_try_def split: option.split)

lemma forks_frame:
  "nforks (emit e s) = nforks s" "nforks (manager_register_fd fd cb d s) = nforks s"
  "nforks (spawnregistery_listen pid h d s) = nforks s" "nforks (upd_try t f s) = nforks s"
  by (simp_all add: manager_register_fd_def spawnregistery_listen_def upd_try_def)

lemma available_tty_frame:
  "available_tty os seat s = Inr (r, t) \<Longrightarrow> \<exists>c. t = s\<lparr>tty_counter := c\<rparr>"
  by (auto simp: available_tty_def elim!: bindR_InrE)

text \<open>The counter never goes back and stops behind the last terminal; a terminal is found only below.\<close>

lemma available_tty_counter:
  assumes "available_tty os seat s = Inr (tty, t)"
  shows "\<exists>c. t = s\<lparr>tty_counter := c\<rparr> \<and> tty_counter s \<le> c \<and> c \<le> max (tty_counter s) (LAST_TTY + 1) \<and>
    (tty \<noteq> None \<longrightarrow> tty_counter s < c)"
proof -
  from assms obtain r c where r: "find_tty (vt_used os seat) (tty_counter s) = Inr (r, c)"
    and "t = s\<lparr>tty_counter := c\<rparr>" "tty = map_option (\<lambda>n. snprintf 4096 (''/dev/tty'' @ show_int n)) r"
    by (auto simp: available_tty_def elim!: bindR_InrE)
  with find_tty_spec [OF r] show ?thesis by (cases r) auto
qed

text \<open>\<open>child_run\<close> forks exactly if a terminal of the range is left that no session of the seat uses.\<close>

lemma child_run_forks:
  assumes "tries s t = Some y" and "session_seat (settings y) = Val seat" and "child_run os t s = Inr (ok, u)"
  shows "nforks u = nforks s +
    (if \<exists>v. tty_counter s < v \<and> v \<le> LAST_TTY + 1 \<and> vt_used os seat v = Inr False then 1 else 0)"
proof -
  from assms obtain tty s1 where a: "available_tty os seat s = Inr (tty, s1)"
    and u: "nforks u = (if tty = None then nforks s1 else Suc (nforks s1))"
    by (auto simp: child_run_def child_started_def Let_def service_com_exit_def service_message_def forks_frame
        elim!: bindR_InrE split: option.splits if_splits)
  from a obtain r c where r: "find_tty (vt_used os seat) (tty_counter s) = Inr (r, c)"
    and s1: "s1 = s\<lparr>tty_counter := c\<rparr>" and tty: "tty = map_option (\<lambda>n. snprintf 4096 (''/dev/tty'' @ show_int n)) r"
    by (auto simp: available_tty_def elim!: bindR_InrE)
  from find_tty_spec [OF r] show ?thesis using u s1 tty by (cases r) auto
qed

lemma ends_child_run: "ends (child_run os t s)"
  unfolding child_run_def child_started_def
  by (auto intro!: ends_bind ends_available_tty simp: Let_def split: option.split)

text \<open>When the child could not be started, the try is as it was made, without a process.\<close>

lemma child_run_failed:
  "child_run os t s = Inr (False, u) \<Longrightarrow>
   tries u t = tries s t \<and> spawner.more u = spawner.more s"
  unfolding child_run_def child_started_def
  by (auto elim!: bindR_InrE dest!: available_tty_frame
      simp: Let_def service_com_exit_def service_message_def split: option.splits if_splits)

lemma ends_spawn_try_free:
  assumes "\<And>y s'. tries s t = Some y \<Longrightarrow> spawner.more s' = spawner.more s \<Longrightarrow>
    (case done_cb y of None \<Rightarrow> True
     | Some cb \<Rightarrow> ends (run_done cb (done_data y) \<lparr>end_success = exit_success y, end_message = error_msg y\<rparr> s'))"
  shows "ends (spawn_try_free run_done t s)"
proof (cases "tries s t")
  case None
  then show ?thesis by (simp add: spawn_try_free_def)
next
  case (Some y)
  let ?s1 = "emit (Closed (com_read y)) (manager_unregister_fd (com_read y) s)"
  from assms [OF Some, of ?s1] Some show ?thesis
    by (auto simp: spawn_try_free_def Let_def intro!: ends_bind split: option.splits)
qed

lemma ends_spawn:
  assumes "\<And>s'. spawner.more s' = spawner.more s \<Longrightarrow>
    ends (run_done cb d \<lparr>end_success = SPAWN_SERVICE_ERROR, end_message = None\<rparr> s')"
  shows "ends (spawnservice_spawn os run_done cb d jb ended svc user pass sett s)"
proof (cases "os_pipe os (npipes s) (watched s)")
  case None
  then show ?thesis by (simp add: spawnservice_spawn_def Let_def)
next
  case (Some p)
  then obtain rd wr where p: "os_pipe os (npipes s) (watched s) = Some (rd, wr)" by (cases p) auto
  let ?y = "\<lparr>com_read = rd, com_write = wr, job = jb, session_ended = ended,
                      done_cb = Some cb, done_data = d, service = svc, usr = user,
                      pw = pass, st_session = None, error_msg = None,
                      exit_success = SPAWN_SERVICE_ERROR, try_pid = 0,
                      settings = (case sett of None \<Rightarrow> no_settings | Some x \<Rightarrow> x)\<rparr>"
  let ?s2 = "s\<lparr>npipes := Suc (npipes s), tries := (tries s)(next_try s := Some ?y),
    next_try := Suc (next_try s)\<rparr>"
  have free: "ends (spawn_try_free run_done (next_try s) s3)"
    if "child_run os (next_try s) ?s2 = Inr (False, s3)" for s3
    using child_run_failed [OF that] by (intro ends_spawn_try_free) (auto intro: assms)
  show ?thesis
    unfolding spawnservice_spawn_def Let_def
    using free p by (auto intro!: ends_bind ends_child_run)
qed

subsection \<open>Properties\<close>

text \<open>C34: The terminal handed to a new session is the lowest one above the counter that no session of the
  seat uses; the counter moves there. Its number can be one more than \<open>LAST_TTY\<close>.\<close>

theorem available_tty_lowest_free:
  assumes "available_tty os seat s = Inr (Some tty, s')"
  shows "\<exists>n. tty = snprintf 4096 (''/dev/tty'' @ show_int n) \<and> s' = s\<lparr>tty_counter := n\<rparr> \<and>
    tty_counter s < n \<and> n \<le> LAST_TTY + 1 \<and> vt_used os seat n = Inr False \<and>
    (\<forall>v. tty_counter s < v \<and> v < n \<longrightarrow> vt_used os seat v = Inr True)"
proof -
  from assms obtain r c where r: "find_tty (vt_used os seat) (tty_counter s) = Inr (r, c)"
    and t: "map_option (\<lambda>n. snprintf 4096 (''/dev/tty'' @ show_int n)) r = Some tty"
    and s': "s' = s\<lparr>tty_counter := c\<rparr>"
    by (auto simp: available_tty_def elim!: bindR_InrE)
  from t obtain n where n: "r = Some n" "tty = snprintf 4096 (''/dev/tty'' @ show_int n)" by (cases r) auto
  with find_tty_spec [OF r] s' show ?thesis by (intro exI [of _ n]) auto
qed

definition example_spawner :: "int \<Rightarrow> spawner" where
  "example_spawner c = \<lparr>debug = False, no_greeter_restart = False, trace = [], nforks = 0, npipes = 0,
     nreads = 0, naccepts = 0, fds = tarray_new, stop = False, changes = 0, readout = False,
     pending = tarray_new, eval_mode = False, tmpls = Null_ptr, counter = 0, tty_counter = c,
     tries = [0 \<mapsto> \<lparr>com_read = 7, com_write = 8, job = Session_job ''t0'',
        session_ended = Some Reexecute_greeter, done_cb = Some Session_done, done_data = Client_ref 0,
        service = ''spawny'', usr = ''bob'', pw = Some ''secret'', st_session = None, error_msg = None,
        exit_success = SPAWN_SERVICE_ERROR, try_pid = 0, settings = no_settings\<rparr>],
     next_try = 1\<rparr>"

lemma example_vt_used: "vt_used (example_os Malformed) seat v = Inr (v = 12 \<or> v = -1)"
  by (simp add: vt_used_def session_enumerate_def example_details example_os_def [THEN arg_cong, of sd_seat_get_sessions])

lemma available_tty_lowest_free_witness:
  "\<exists>n. available_tty (example_os Malformed) None (example_spawner 11) =
     Inr (Some ''/dev/tty13'', (example_spawner 11)\<lparr>tty_counter := n\<rparr>) \<and> n \<le> 64"
proof -
  have s: "show_int 13 = ''13''" by code_simp
  have "available_tty (example_os Malformed) None (example_spawner 11) =
      Inr (Some ''/dev/tty13'', (example_spawner 11)\<lparr>tty_counter := 13\<rparr>)"
    by (simp add: available_tty_def example_spawner_def find_tty.simps [of _ 11] find_tty.simps [of _ 12]
        example_vt_used LAST_TTY_def snprintf_def s)
  from available_tty_lowest_free [OF this] this show ?thesis by (auto simp: LAST_TTY_def)
qed

end
