(* ===== verification/Greeter.thy ===== *)
theory Greeter
  imports Spawnservice
begin

section \<open>Greeters per seat: \<open>sp-daemon/greeter.c\<close>\<close>

text \<open>
  The daemon keeps one \<open>Seat_Greeter\<close> per seat in a growing array and hands pointers into that
  array to \<open>spawnservice_spawn\<close> and \<open>spawnregistery_listen\<close>. Such a pointer is
  \<open>Greeter_ref b i\<close>: index \<open>i\<close> of the block that existed after \<open>b\<close> reallocations; using it
  after the array was reallocated is \<open>Use_After_Free\<close>.

  \<open>greeter_activate\<close> starts a try; when that fails on the spot, the callback
  \<open>_greeter_start_done\<close> counts the failure and activates again. The recursion is bounded by
  \<open>run_gen\<close>; the model spends one unit of fuel per level, and \<open>greeter_fuel\<close> is enough.
\<close>

record seat_greeter =
  g_seat :: string
  run_gen :: int
  run_try :: "nat option"
  run_pid :: int
  g_end :: bool

record greeter_state = spawner +
  greeters :: "seat_greeter tarray gptr"

definition FALLBACK_RUN_GENERATION :: int where "FALLBACK_RUN_GENERATION = 5"

definition SP_USER :: string where "SP_USER = ''spawny''"
definition SP_PAM_SERVICE :: string where "SP_PAM_SERVICE = ''spawny''"
definition SP_PAM_SERVICE_GREETER :: string where "SP_PAM_SERVICE_GREETER = ''spawny-greeter''"

definition seat_greeter_pid_get :: "seat_greeter \<Rightarrow> 'a spawner_scheme \<Rightarrow> int res" where
  "seat_greeter_pid_get seat s =
     (case run_try seat of
        Some t \<Rightarrow> bindR (deref (tries s t) Use_After_Free) (\<lambda>try. Inr (try_pid try))
      | None \<Rightarrow> Inr (run_pid seat))"

definition greeter_init :: "'a greeter_state_scheme \<Rightarrow> 'a greeter_state_scheme" where
  "greeter_init s = s\<lparr>greeters := Live_ptr tarray_new\<rparr>"

definition greeter_shutdown :: "'a greeter_state_scheme \<Rightarrow> 'a greeter_state_scheme" where
  "greeter_shutdown s = s\<lparr>greeters := Null_ptr\<rparr>"

definition greeter_add ::
  "string \<Rightarrow> 'a greeter_state_scheme \<Rightarrow> (nat \<times> 'a greeter_state_scheme) res" where
  "greeter_add seat s =
     bindR (gderef (greeters s))
       (\<lambda>a. Inr (tarray_len a, s\<lparr>greeters := Live_ptr (tarray_add
          \<lparr>g_seat = seat, run_gen = 0, run_try = None, run_pid = -1, g_end = False\<rparr> a)\<rparr>))"

definition greeter_run_reset :: "seat_greeter \<Rightarrow> seat_greeter" where
  "greeter_run_reset g = g\<lparr>run_try := None, run_pid := -1\<rparr>"

text \<open>\<open>strcmp\<close> with a NULL seat is undefined, and is reached when there is an entry.\<close>

definition greeter_search :: "string option \<Rightarrow> 'a greeter_state_scheme \<Rightarrow> nat option res" where
  "greeter_search seat s =
     bindR (gderef (greeters s))
       (\<lambda>a. case seat of
              Some st \<Rightarrow> Inr (find_index (\<lambda>g. g_seat g = st) (cells a))
            | None \<Rightarrow> if cells a = [] then Inr None else Inl Null_Deref)"

definition greeter_del :: "string \<Rightarrow> 'a greeter_state_scheme \<Rightarrow> 'a greeter_state_scheme res" where
  "greeter_del seat s =
     bindR (gderef (greeters s))
       (\<lambda>a. Inr (case find_index (\<lambda>g. g_seat g = seat) (cells a) of
                   Some i \<Rightarrow> s\<lparr>greeters := Live_ptr (tarray_del a i)\<rparr>
                 | None \<Rightarrow> s))"

text \<open>Reading and writing through a pointer into the array.\<close>

definition greeter_deref :: "ref \<Rightarrow> 'a greeter_state_scheme \<Rightarrow> seat_greeter res" where
  "greeter_deref data s =
     (case data of
        Greeter_ref b i \<Rightarrow>
          bindR (gderef (greeters s))
            (\<lambda>a. if b = blk a then deref (tarray_get a i) Out_Of_Bounds else Inl Use_After_Free)
      | _ \<Rightarrow> Inl Null_Deref)"

definition greeter_store ::
  "ref \<Rightarrow> (seat_greeter \<Rightarrow> seat_greeter) \<Rightarrow> 'a greeter_state_scheme \<Rightarrow> 'a greeter_state_scheme res" where
  "greeter_store data f s =
     bindR (greeter_deref data s)
       (\<lambda>g. case (data, greeters s) of
              (Greeter_ref b i, Live_ptr a) \<Rightarrow> Inr (s\<lparr>greeters := Live_ptr (tarray_set a i (f g))\<rparr>)
            | _ \<Rightarrow> Inl Null_Deref)"

subsection \<open>Callbacks and activation\<close>

type_synonym 'a activate = "string \<Rightarrow> 'a greeter_state_scheme \<Rightarrow> 'a greeter_state_scheme res"

text \<open>
  The two callbacks over the activation they call again (\<open>act\<close>). The arguments of \<open>ERR\<close> and
  \<open>INF\<close> are evaluated, so the process id is read even though it is only logged.
\<close>

definition greeter_done_with ::
  "'a activate \<Rightarrow> ref \<Rightarrow> 'a greeter_state_scheme \<Rightarrow> 'a greeter_state_scheme res" where
  "greeter_done_with act data s =
     bindR (greeter_deref data s)
       (\<lambda>g. if \<not> g_end g then
              bindR (greeter_store data (\<lambda>g. g\<lparr>run_gen := run_gen g + 1\<rparr>) s)
                (\<lambda>s1. bindR (seat_greeter_pid_get g s1)
                  (\<lambda>_. bindR (greeter_store data greeter_run_reset s1)
                    (act (g_seat g))))
            else
              bindR (seat_greeter_pid_get g s) (\<lambda>_. greeter_del (g_seat g) s))"

definition greeter_start_done_with ::
  "'a activate \<Rightarrow> ref \<Rightarrow> spawn_end \<Rightarrow> 'a greeter_state_scheme \<Rightarrow> 'a greeter_state_scheme res" where
  "greeter_start_done_with act data end s =
     bindR (greeter_deref data s)
       (\<lambda>g. if end_success end = SPAWN_SERVICE_ERROR then
              bindR (greeter_store data (\<lambda>g. g\<lparr>run_gen := run_gen g + 1\<rparr>) s)
                (\<lambda>s1. bindR (seat_greeter_pid_get g s1)
                  (\<lambda>_. bindR (greeter_store data greeter_run_reset s1)
                    (act (g_seat g))))
            else
              bindR (seat_greeter_pid_get g s)
                (\<lambda>_. bindR (deref (run_try g) Null_Deref)
                  (\<lambda>t. bindR (deref (tries s t) Use_After_Free)
                    (\<lambda>try. bindR (greeter_store data (\<lambda>g. g\<lparr>run_pid := try_pid try, run_try := None\<rparr>) s)
                      (\<lambda>s1. Inr (spawnregistery_listen (try_pid try) (Some Greeter_done) data s1))))))"

definition greeter_settings :: "string \<Rightarrow> xdg_settings" where
  "greeter_settings seat =
     \<lparr>session_type = Val None, session_desktop = Val None, session_seat = Val (Some seat)\<rparr>"

text \<open>The session a known greeter runs in: of the try in progress, else of the running process.\<close>

definition greeter_session :: "os \<Rightarrow> seat_greeter \<Rightarrow> 'a spawner_scheme \<Rightarrow> string option res" where
  "greeter_session os g s =
     (case run_try g of
        Some t \<Rightarrow> bindR (deref (tries s t) Use_After_Free) (\<lambda>try. Inr (session_get os (try_pid try)))
      | None \<Rightarrow> Inr (if run_pid g \<noteq> -1 then session_get os (run_pid g) else None))"

definition greeter_find_or_add ::
  "string \<Rightarrow> 'a greeter_state_scheme \<Rightarrow> (ref \<times> 'a greeter_state_scheme) res" where
  "greeter_find_or_add seat s =
     bindR (greeter_search (Some seat) s)
       (\<lambda>r. bindR (case r of Some i \<Rightarrow> Inr (i, s) | None \<Rightarrow> greeter_add seat s)
         (\<lambda>(i, s1). bindR (gderef (greeters s1)) (\<lambda>a. Inr (Greeter_ref (blk a) i, s1))))"

primrec greeter_activate ::
  "(ref \<Rightarrow> spawn_end \<Rightarrow> 'a greeter_state_scheme \<Rightarrow> 'a greeter_state_scheme res) \<Rightarrow> os \<Rightarrow> nat \<Rightarrow>
    'a activate" where
  "greeter_activate sdone os 0 seat s = Inl Out_Of_Fuel"
| "greeter_activate sdone os (Suc n) seat s =
     bindR (greeter_find_or_add seat s)
       (\<lambda>(greeter, s1). bindR (greeter_deref greeter s1)
         (\<lambda>g. bindR (greeter_session os g s1)
           (\<lambda>session.
              case session of
                Some h \<Rightarrow> Inr (session_activate (Some h) s1)
              | None \<Rightarrow>
                  if \<not> run_gen g > FALLBACK_RUN_GENERATION then
                    bindR (spawnservice_spawn os
                             (\<lambda>cb d e. case cb of
                                Greeter_start_done \<Rightarrow> greeter_start_done_with (greeter_activate sdone os n) d e
                              | Session_done \<Rightarrow> sdone d e)
                             Greeter_start_done greeter (Greeter_job greeter) None
                             SP_PAM_SERVICE_GREETER SP_USER None (Some (greeter_settings (g_seat g))) s1)
                      (\<lambda>(t, s2). greeter_store greeter (\<lambda>g. g\<lparr>run_try := t\<rparr>) s2)
                  else Inr s1)))"

definition greeter_fuel :: nat where "greeter_fuel = 7"

definition greeter_lockout ::
  "string option \<Rightarrow> 'a greeter_state_scheme \<Rightarrow> 'a greeter_state_scheme res" where
  "greeter_lockout seat s =
     bindR (greeter_search seat s)
       (\<lambda>r. case r of
              None \<Rightarrow> Inr s
            | Some i \<Rightarrow> bindR (gderef (greeters s))
                (\<lambda>a. Inr (s\<lparr>greeters := Live_ptr
                   (tarray_set a i ((cells a ! i)\<lparr>g_end := True\<rparr>))\<rparr>)))"

fun sid_among :: "os \<Rightarrow> int \<Rightarrow> seat_greeter list \<Rightarrow> 'a spawner_scheme \<Rightarrow> bool res" where
  "sid_among os sid [] s = Inr False"
| "sid_among os sid (g # gs) s =
     bindR (seat_greeter_pid_get g s)
       (\<lambda>pid. if getsid os pid = -1 then sid_among os sid gs s
              else if getsid os pid = sid then Inr True
              else sid_among os sid gs s)"

definition greeter_exists_sid :: "os \<Rightarrow> int \<Rightarrow> 'a greeter_state_scheme \<Rightarrow> bool res" where
  "greeter_exists_sid os sid s = bindR (gderef (greeters s)) (\<lambda>a. sid_among os sid (cells a) s)"


subsection \<open>Activation always comes to an end\<close>

lemma greeters_more: "spawner.more s = spawner.more t \<Longrightarrow> greeters s = greeters t"
  by (cases s; cases t) simp

lemma map_update_same: "i < length xs \<Longrightarrow> f y = f (xs ! i) \<Longrightarrow> map f (xs[i := y]) = map f xs"
  by (simp add: list_eq_iff_nth_eq nth_list_update)

lemma find_index_seat:
  "find_index (\<lambda>g. g_seat g = st) gs = find_index (\<lambda>x. x = st) (map g_seat gs)"
  by (induction gs) auto

lemma greeter_deref_live:
  "greeters s = Live_ptr a \<Longrightarrow> i < tarray_len a \<Longrightarrow>
   greeter_deref (Greeter_ref (blk a) i) s = Inr (cells a ! i)"
  by (simp add: greeter_deref_def tarray_get_def)

lemma greeter_store_live:
  "greeters s = Live_ptr a \<Longrightarrow> i < tarray_len a \<Longrightarrow>
   greeter_store (Greeter_ref (blk a) i) f s =
     Inr (s\<lparr>greeters := Live_ptr (tarray_set a i (f (cells a ! i)))\<rparr>)"
  by (simp add: greeter_store_def greeter_deref_live)

lemma ends_pid_get: "ends (seat_greeter_pid_get g s)"
  by (auto simp: seat_greeter_pid_get_def intro!: ends_bind split: option.split)

lemma ends_greeter_deref: "ends (greeter_deref d s)"
  by (auto simp: greeter_deref_def intro!: ends_bind split: ref.split)

lemma ends_greeter_store: "ends (greeter_store d f s)"
  by (auto simp: greeter_store_def intro!: ends_bind ends_greeter_deref split: ref.split gptr.split)

lemma ends_greeter_session: "ends (greeter_session os g s)"
  by (auto simp: greeter_session_def intro!: ends_bind split: option.split)

lemma find_or_add_ends: "ends (greeter_find_or_add seat s)"
  by (auto simp: greeter_find_or_add_def greeter_search_def greeter_add_def intro!: ends_bind split: option.split)

text \<open>How many levels an activation of the seat can still take.\<close>

definition enough_for :: "nat \<Rightarrow> string \<Rightarrow> 'a greeter_state_scheme \<Rightarrow> bool" where
  "enough_for n seat s \<longleftrightarrow> 1 \<le> n \<and>
     (\<forall>a. greeters s = Live_ptr a \<longrightarrow>
        (case find_index (\<lambda>g. g_seat g = seat) (cells a) of
           None \<Rightarrow> 7 \<le> n
         | Some i \<Rightarrow> 7 - run_gen (cells a ! i) \<le> int n))"

lemma find_or_add_result:
  assumes "greeter_find_or_add seat s = Inr (d, s1)"
  obtains a i where "greeters s1 = Live_ptr a" "d = Greeter_ref (blk a) i" "i < tarray_len a"
    "find_index (\<lambda>g. g_seat g = seat) (cells a) = Some i"
    "\<forall>n. enough_for n seat s \<longrightarrow> 7 - run_gen (cells a ! i) \<le> int n"
proof -
  from assms obtain a0 where a0: "greeters s = Live_ptr a0"
    by (auto simp: greeter_find_or_add_def greeter_search_def gderef_eq_Inr elim!: bindR_InrE)
  show ?thesis
  proof (cases "find_index (\<lambda>g. g_seat g = seat) (cells a0)")
    case (Some i)
    with assms a0 have "s1 = s" "d = Greeter_ref (blk a0) i"
      by (simp_all add: greeter_find_or_add_def greeter_search_def)
    with a0 Some find_index_SomeD [OF Some] show ?thesis
      by (intro that [of a0 i]) (simp_all add: enough_for_def)
  next
    case None
    let ?g = "\<lparr>g_seat = seat, run_gen = 0, run_try = None, run_pid = -1, g_end = False\<rparr>"
    let ?a = "tarray_add ?g a0"
    have "find_index (\<lambda>g. g_seat g = seat) (cells ?a) = Some (tarray_len a0)"
    proof -
      have "\<forall>g \<in> set gs. g_seat g \<noteq> seat \<Longrightarrow>
        find_index (\<lambda>g. g_seat g = seat) (gs @ [?g]) = Some (length gs)" for gs
        by (induction gs) auto
      moreover have "\<forall>g \<in> set (cells a0). g_seat g \<noteq> seat" using None by simp
      ultimately show ?thesis by (simp add: tarray_add_def)
    qed
    moreover from assms a0 None have "s1 = s\<lparr>greeters := Live_ptr ?a\<rparr>"
        "d = Greeter_ref (blk ?a) (tarray_len a0)"
      by (simp_all add: greeter_find_or_add_def greeter_search_def greeter_add_def del: find_index_None)
    moreover have "run_gen (cells ?a ! tarray_len a0) = 0" by (simp add: tarray_add_def nth_append)
    moreover have "tarray_len a0 < tarray_len ?a" by (simp add: tarray_add_def)
    moreover have "7 \<le> n" if "enough_for n seat s" for n
      using that a0 None by (simp add: enough_for_def del: find_index_None)
    ultimately show ?thesis by (intro that [of ?a "tarray_len a0"]) fastforce+
  qed
qed

lemma restart_ends:
  assumes a: "greeters s = Live_ptr a" and i: "find_index (\<lambda>g. g_seat g = seat) (cells a) = Some i"
    and n: "run_gen (cells a ! i) \<le> 5" "7 - run_gen (cells a ! i) \<le> int (Suc n)"
    and act: "\<And>s. enough_for n seat s \<Longrightarrow> ends (act seat s)"
    and err: "end_success e = SPAWN_SERVICE_ERROR"
  shows "ends (greeter_start_done_with act (Greeter_ref (blk a) i) e s)"
proof -
  let ?d = "Greeter_ref (blk a) i" and ?g = "cells a ! i"
  let ?a1 = "tarray_set a i (?g\<lparr>run_gen := run_gen ?g + 1\<rparr>)"
  let ?a2 = "tarray_set ?a1 i (greeter_run_reset (cells ?a1 ! i))"
  have lt: "i < tarray_len a" and seat: "g_seat ?g = seat" using find_index_SomeD [OF i] by auto
  have get: "greeter_deref ?d s = Inr ?g" using a lt by (rule greeter_deref_live)
  have st1: "greeter_store ?d (\<lambda>g. g\<lparr>run_gen := run_gen g + 1\<rparr>) s = Inr (s\<lparr>greeters := Live_ptr ?a1\<rparr>)"
    using a lt by (rule greeter_store_live)
  have st2: "greeter_store ?d greeter_run_reset (s\<lparr>greeters := Live_ptr ?a1\<rparr>) =
      Inr (s\<lparr>greeters := Live_ptr ?a2\<rparr>)"
    using greeter_store_live [of "s\<lparr>greeters := Live_ptr ?a1\<rparr>" ?a1 i greeter_run_reset] lt
    by (simp add: tarray_set_def)
  have "map g_seat (cells ?a2) = map g_seat (cells a)"
    using lt by (simp add: tarray_set_def greeter_run_reset_def map_update_same)
  then have "find_index (\<lambda>g. g_seat g = seat) (cells ?a2) = Some i"
    using i by (simp add: find_index_seat)
  moreover have "run_gen (cells ?a2 ! i) = run_gen ?g + 1"
    using lt by (simp add: tarray_set_def greeter_run_reset_def)
  ultimately have "enough_for n seat (s\<lparr>greeters := Live_ptr ?a2\<rparr>)"
    using n by (simp add: enough_for_def)
  then have "ends (act (g_seat ?g) (s\<lparr>greeters := Live_ptr ?a2\<rparr>))" using act seat by simp
  then have rest: "ends (bindR (greeter_store ?d greeter_run_reset (s\<lparr>greeters := Live_ptr ?a1\<rparr>)) (act (g_seat ?g)))"
    by (simp only: st2 bindR_Inr)
  show ?thesis
    unfolding greeter_start_done_with_def get bindR_Inr err if_P [OF refl] st1
    by (rule ends_bind [OF ends_pid_get rest])
qed

lemma greeter_activate_ends: "enough_for n seat s \<Longrightarrow> ends (greeter_activate sdone os n seat s)"
proof (induction n arbitrary: seat s)
  case 0
  then show ?case by (simp add: enough_for_def)
next
  case (Suc n)
  have step: "ends (bindR (spawnservice_spawn os
                             (\<lambda>cb d e. case cb of
                                Greeter_start_done \<Rightarrow> greeter_start_done_with (greeter_activate sdone os n) d e
                              | Session_done \<Rightarrow> sdone d e)
                             Greeter_start_done d (Greeter_job d) None
                             SP_PAM_SERVICE_GREETER SP_USER None sett s1)
                      (\<lambda>(t, s2). greeter_store d (\<lambda>g. g\<lparr>run_try := t\<rparr>) s2))"
    if fa: "greeter_find_or_add seat s = Inr (d, s1)" and g: "greeter_deref d s1 = Inr g"
      and gen: "\<not> run_gen g > FALLBACK_RUN_GENERATION" for d s1 g sett
  proof -
    obtain a i where a: "greeters s1 = Live_ptr a" "d = Greeter_ref (blk a) i" "i < tarray_len a"
      "find_index (\<lambda>g. g_seat g = seat) (cells a) = Some i"
      "\<forall>n. enough_for n seat s \<longrightarrow> 7 - run_gen (cells a ! i) \<le> int n"
      using fa by (rule find_or_add_result)
    have gi: "g = cells a ! i" using g greeter_deref_live [OF a(1,3)] a(2) by simp
    then have gen5: "run_gen (cells a ! i) \<le> 5" using gen by (simp add: FALLBACK_RUN_GENERATION_def)
    have lim: "7 - run_gen (cells a ! i) \<le> int (Suc n)" using a(5) Suc.prems by blast
    have "ends (greeter_start_done_with (greeter_activate sdone os n) d
        \<lparr>end_success = SPAWN_SERVICE_ERROR, end_message = None\<rparr> s')"
      if "spawner.more s' = spawner.more s1" for s'
      unfolding a(2) using greeters_more [OF that] a(1) 
      by (intro restart_ends [OF _ a(4) gen5 lim Suc.IH]) simp_all
    then show ?thesis
      by (intro ends_bind ends_spawn) (auto intro: ends_greeter_store)
  qed
  show ?case
    unfolding greeter_activate.simps
    by (rule ends_bind [OF find_or_add_ends], clarify, rule ends_bind [OF ends_greeter_deref],
        rule ends_bind [OF ends_greeter_session])
       (auto split: option.split intro: step)
qed

subsection \<open>Properties\<close>

text \<open>C24: Activating the greeter of a seat always comes to an end: a start that fails on the spot counts and
  is tried again, at most \<open>FALLBACK_RUN_GENERATION + 2\<close> levels deep, so the budget \<open>greeter_fuel\<close> is
  enough from every state whose generations are not negative.\<close>

theorem activation_ends:
  assumes "\<forall>a. greeters s = Live_ptr a \<longrightarrow> (\<forall>g \<in> set (cells a). 0 \<le> run_gen g)"
  shows "greeter_activate sdone os greeter_fuel seat s \<noteq> Inl Out_Of_Fuel"
proof -
  have "enough_for greeter_fuel seat s"
    using assms by (auto simp: enough_for_def greeter_fuel_def split: option.split dest!: find_index_SomeD)
  then show ?thesis using greeter_activate_ends unfolding ends_def by blast
qed

text \<open>A greeter that has used up its generations is given up: activating it changes nothing, starts no
  process and activates no session.\<close>

theorem greeter_given_up:
  assumes "greeters s = Live_ptr a" and "find_index (\<lambda>g. g_seat g = seat) (cells a) = Some i"
    and "run_gen (cells a ! i) > FALLBACK_RUN_GENERATION"
    and "run_try (cells a ! i) = None" and "run_pid (cells a ! i) = -1"
  shows "greeter_activate sdone os (Suc n) seat s = Inr s"
  using assms find_index_SomeD [OF assms(2)]
  by (simp add: greeter_find_or_add_def greeter_search_def greeter_deref_live greeter_session_def)

definition example_greeters :: "seat_greeter list \<Rightarrow> greeter_state" where
  "example_greeters gs = \<lparr>debug = False, no_greeter_restart = False, trace = [], nforks = 0, npipes = 0,
     nreads = 0, naccepts = 0, fds = tarray_new, stop = False, changes = 0, readout = False,
     pending = tarray_new, eval_mode = False, tmpls = Null_ptr, counter = 0, tty_counter = 99,
     tries = Map.empty, next_try = 0, greeters = Live_ptr \<lparr>cells = gs, blk = 1\<rparr>\<rparr>"

lemma activation_ends_witness:
  "greeter_activate (\<lambda>_ _ s. Inr s) (example_os Malformed) greeter_fuel ''seat0'' (example_greeters []) \<noteq>
   Inl Out_Of_Fuel"
  by (rule activation_ends) (simp add: example_greeters_def)

lemma greeter_given_up_witness:
  "greeter_activate (\<lambda>_ _ s. Inr s) (example_os Malformed) greeter_fuel ''seat0''
     (example_greeters [\<lparr>g_seat = ''seat0'', run_gen = 6, run_try = None, run_pid = -1, g_end = False\<rparr>]) =
   Inr (example_greeters [\<lparr>g_seat = ''seat0'', run_gen = 6, run_try = None, run_pid = -1, g_end = False\<rparr>])"
  using greeter_given_up [of "example_greeters [\<lparr>g_seat = ''seat0'', run_gen = 6, run_try = None,
      run_pid = -1, g_end = False\<rparr>]" _ "''seat0''" 0 "\<lambda>_ _ s. Inr s" "example_os Malformed" 6]
  by (simp add: example_greeters_def greeter_fuel_def FALLBACK_RUN_GENERATION_def)

end
