(* ===== verification/Ini.thy ===== *)
theory Ini
  imports Prelude
begin

section \<open>The format of ini files\<close>

text \<open>
  The database of users and the desktop entries are read by the library inih, which is not part of
  the sources. What its documentation promises of a text is stated here over documents, lists of
  sections and settings, without regard to who writes the text: \<open>ini_documented\<close> says of a parser that
  it reports every setting of a plain document under its section, in order. Plain leaves out what
  inih treats in a special way: blanks at the ends, comments, the marks of sections, empty names,
  lines that do not fit into its buffer of 200 characters and names of sections of 50 or more.
\<close>

datatype ini_line = Section string | Setting string string

fun line_text :: "ini_line \<Rightarrow> string" where
  "line_text (Section s) = ''['' @ s @ '']'' @ [CHR 0x0A]"
| "line_text (Setting n v) = n @ ''='' @ v @ [CHR 0x0A]"

type_synonym ini_event = "string \<times> string \<times> string"

fun doc_events :: "string \<Rightarrow> ini_line list \<Rightarrow> ini_event list" where
  "doc_events section [] = []"
| "doc_events section (Section s # ls) = doc_events s ls"
| "doc_events section (Setting n v # ls) = (section, n, v) # doc_events section ls"

definition blank :: "char \<Rightarrow> bool" where
  "blank c \<longleftrightarrow> c \<in> {CHR 0x20, CHR 0x09, CHR 0x0A, CHR 0x0B, CHR 0x0C, CHR 0x0D}"

definition plain_text :: "string \<Rightarrow> bool" where
  "plain_text s \<longleftrightarrow> set s \<inter> {CHR 0x00, CHR 0x0A, CHR '';''} = {} \<and> (s \<noteq> [] \<longrightarrow> \<not> blank (hd s) \<and> \<not> blank (last s))"

fun plain_line :: "ini_line \<Rightarrow> bool" where
  "plain_line (Section s) \<longleftrightarrow> plain_text s \<and> CHR '']'' \<notin> set s \<and> length s < 50"
| "plain_line (Setting n v) \<longleftrightarrow> plain_text n \<and> plain_text v \<and> n \<noteq> [] \<and> set n \<inter> {CHR ''='', CHR '':''} = {} \<and>
     hd n \<notin> {CHR ''['', CHR ''#'', CHR 0xEF} \<and> length n + length v + 2 < 200"

definition ini_documented :: "(string \<Rightarrow> ini_event list) \<Rightarrow> bool" where
  "ini_documented parse \<longleftrightarrow>
     (\<forall>doc. (\<forall>l \<in> set doc. plain_line l) \<longrightarrow> parse (concat (map line_text doc)) = doc_events [] doc)"

subsection \<open>A parser that keeps the promise\<close>

text \<open>There is one: it takes the lines one by one and reads each up to its first mark.\<close>

definition upto :: "char \<Rightarrow> string \<Rightarrow> string" where
  "upto m s = takeWhile (\<lambda>c. c \<noteq> m) s"

definition behind :: "char \<Rightarrow> string \<Rightarrow> string" where
  "behind m s = tl (dropWhile (\<lambda>c. c \<noteq> m) s)"

lemma upto_behind [simp]:
  "m \<notin> set x \<Longrightarrow> upto m (x @ m # y) = x" "m \<notin> set x \<Longrightarrow> behind m (x @ m # y) = y"
  by (induction x) (auto simp: upto_def behind_def)

function ini_lines :: "string \<Rightarrow> string list" where
  "ini_lines s = (if s = [] then [] else upto (CHR 0x0A) s # ini_lines (behind (CHR 0x0A) s))"
  by pat_completeness auto
termination
proof (relation "measure length", goal_cases)
  case (2 s)
  have "length (dropWhile P s) \<le> length s" for P by (rule length_dropWhile_le)
  with 2 show ?case by (auto simp: behind_def intro: le_less_trans diff_le_self)
     (metis One_nat_def Suc_pred diff_le_self length_0_conv length_dropWhile_le length_greater_0_conv less_Suc_eq_le order_le_less_trans order_less_le tl_Nil length_tl)
qed simp

declare ini_lines.simps [simp del]

fun lines_events :: "string \<Rightarrow> string list \<Rightarrow> ini_event list" where
  "lines_events section [] = []"
| "lines_events section (l # ls) =
     (if l \<noteq> [] \<and> hd l = CHR ''['' then lines_events (upto (CHR '']'') (tl l)) ls
      else if CHR ''='' \<in> set l then (section, upto (CHR ''='') l, behind (CHR ''='') l) # lines_events section ls
      else lines_events section ls)"

definition simple_ini :: "string \<Rightarrow> ini_event list" where
  "simple_ini text = lines_events [] (ini_lines text)"

lemma ini_lines_Cons: "CHR 0x0A \<notin> set l \<Longrightarrow> ini_lines (l @ CHR 0x0A # rest) = l # ini_lines rest"
  by (subst ini_lines.simps) simp

lemma simple_line:
  assumes "plain_line l"
  shows "lines_events sec (ini_lines (line_text l @ rest)) = (case l of
      Section s \<Rightarrow> lines_events s (ini_lines rest)
    | Setting n v \<Rightarrow> (sec, n, v) # lines_events sec (ini_lines rest))"
proof (cases l)
  case (Section s)
  then have "line_text l @ rest = (''['' @ s @ '']'') @ CHR 0x0A # rest" "CHR 0x0A \<notin> set (''['' @ s @ '']'')"
    using assms by (simp_all add: plain_text_def)
  from ini_lines_Cons [OF this(2), of rest] this(1) assms Section show ?thesis by simp
next
  case (Setting n v)
  then have "line_text l @ rest = (n @ CHR ''='' # v) @ CHR 0x0A # rest" "CHR 0x0A \<notin> set (n @ CHR ''='' # v)"
    using assms by (simp_all add: plain_text_def)
  moreover have "hd (n @ CHR ''='' # v) = hd n" using assms Setting by simp
  ultimately show ?thesis using ini_lines_Cons [of "n @ CHR ''='' # v" rest] assms Setting by simp
qed

lemma simple_ini_documented: "ini_documented simple_ini"
proof -
  have "lines_events sec (ini_lines (concat (map line_text doc))) = doc_events sec doc"
    if "\<forall>l \<in> set doc. plain_line l" for doc sec
    using that
  proof (induction doc arbitrary: sec)
    case Nil
    then show ?case by (simp add: ini_lines.simps)
  next
    case (Cons l doc)
    then show ?case using simple_line [of l sec "concat (map line_text doc)"] by (cases l) simp_all
  qed
  then show ?thesis by (simp add: ini_documented_def simple_ini_def)
qed

end
