(* ===== verification/UserDb.thy ===== *)
theory UserDb
  imports Os Ini "HOL-Library.AList"
begin

section \<open>The user database: \<open>sp-user-db/user_db.c\<close>\<close>

text \<open>
  One file per user in \<open>SP_USER_DB_DIR\<close>, and a copy of all of them in memory (\<open>Context\<close>, behind
  the global pointer \<open>ctx\<close>). The file system is the list \<open>dirents\<close> of the directory's entries
  in the order \<open>readdir\<close> gives them, with their contents; what the system calls and the ini
  parser answer is the parameter \<open>user_os\<close>. The parser (inih) is third-party code: \<open>ini_events\<close>
  is the sequence of (section, name, value) triples it reports for a text.
\<close>

record pair =
  p_name :: string
  p_value :: string

record user =
  u_name :: "string option"
  additional :: "pair list"

record db_context =
  started_uid :: int
  users :: "user list"
  loaded_from_fs :: bool
  ref_count :: int

record user_db =
  ctx :: "db_context gptr"
  dirents :: "(string \<times> string) list"

text \<open>The answers of \<open>getpwent\<close>, in order; behind them it returns NULL and no error.\<close>

datatype pwent = Pw_entry passwd | Pw_error

record user_os =
  uo_getuid :: int
  uo_getpwnam :: "string \<Rightarrow> passwd option"
  uo_getpwent :: "pwent list"
  uo_opendir :: bool
  uo_fopen_r :: "string \<Rightarrow> bool"
  uo_fopen_w :: "string \<Rightarrow> bool"
  uo_chown :: "string \<Rightarrow> bool"
  uo_chmod :: "string \<Rightarrow> bool"
  uo_dir_access :: bool
  uo_mkpath :: bool
  uo_dir_chown :: bool
  ini_events :: "string \<Rightarrow> (string \<times> string \<times> string) list"
  past_end :: "pair option"

definition new_user :: user where
  "new_user = \<lparr>u_name = None, additional = []\<rparr>"

subsection \<open>Fields of a user\<close>

definition user_pair_add :: "pair \<Rightarrow> user \<Rightarrow> user" where
  "user_pair_add p u = u\<lparr>additional := additional u @ [p]\<rparr>"

text \<open>
  The loop of \<open>_user_pair_remove\<close>: \<open>n\<close> turns are left, the next one is \<open>i\<close>. The copy in the last
  turn reads one element past the end of the block; \<open>past\<close> is what lies there, \<open>None\<close> if
  the read faults.
\<close>

fun pair_remove_loop ::
  "pair option \<Rightarrow> string \<Rightarrow> nat \<Rightarrow> nat \<Rightarrow> bool \<Rightarrow> pair list \<Rightarrow> (bool \<times> pair list) res" where
  "pair_remove_loop past name 0 i swap ps = Inr (swap, ps)"
| "pair_remove_loop past name (Suc n) i swap ps =
     (if \<not> swap then pair_remove_loop past name n (Suc i) (p_name (ps ! i) = name) ps
      else bindR (if Suc i < length ps then Inr (ps ! Suc i) else deref past Out_Of_Bounds)
             (\<lambda>p. pair_remove_loop past name n (Suc i) True (ps[i := p])))"

definition user_pair_remove :: "pair option \<Rightarrow> string \<Rightarrow> user \<Rightarrow> user res" where
  "user_pair_remove past name u =
     bindR (pair_remove_loop past name (length (additional u)) 0 False (additional u))
       (\<lambda>(swap, ps). Inr (if \<not> swap then u else u\<lparr>additional := take (length ps - 1) ps\<rparr>))"

definition user_field_get :: "user \<Rightarrow> string \<Rightarrow> nat option" where
  "user_field_get u field = find_index (\<lambda>p. p_name p = field) (additional u)"

subsection \<open>Users in memory\<close>

definition user_find :: "string \<Rightarrow> db_context \<Rightarrow> nat option" where
  "user_find name c = find_index (\<lambda>u. u_name u = Some name) (users c)"

definition user_add :: "user \<Rightarrow> db_context \<Rightarrow> db_context" where
  [simp]: "user_add u c = c\<lparr>users := users c @ [u]\<rparr>"

definition user_list_free :: "db_context \<Rightarrow> db_context" where
  "user_list_free c = c\<lparr>users := [], loaded_from_fs := False\<rparr>"

subsection \<open>Files\<close>

definition SP_USER_DB_DIR :: string where "SP_USER_DB_DIR = ''/var/lib/spawny''"

definition INI :: string where "INI = ''.ini''"

text \<open>The name in the directory of the file that \<open>_put_user\<close> opens.\<close>

definition user_file :: "string \<Rightarrow> string" where
  "user_file name =
     drop (length SP_USER_DB_DIR + 1) (snprintf 4096 (SP_USER_DB_DIR @ ''/'' @ name @ INI))"

text \<open>
  \<open>len = snprintf(buf, 4048, ...); fwrite(buf, len, 1, f)\<close>: \<open>len\<close> is the untruncated length, so
  a longer text makes \<open>fwrite\<close> read beyond the buffer.
\<close>

definition write_buffered :: "string \<Rightarrow> string res" where
  "write_buffered text =
     (if length text < 4048 then Inr text
      else if length text = 4048 then Inr (take 4047 text @ [CHR 0x00])
      else Inl Out_Of_Bounds)"

definition user_header :: "string \<Rightarrow> string" where
  "user_header name = ''[identify]'' @ [CHR 0x0A] @ ''name='' @ name @ [CHR 0x0A] @ ''[info]'' @ [CHR 0x0A]"

definition pair_line :: "pair \<Rightarrow> string" where
  "pair_line p = p_name p @ ''='' @ p_value p @ [CHR 0x0A]"

definition user_text :: "string \<Rightarrow> pair list \<Rightarrow> string res" where
  "user_text name ps =
     bindR (write_buffered (user_header name))
       (foldR (\<lambda>p text. bindR (write_buffered (pair_line p)) (\<lambda>l. Inr (text @ l))) ps)"

definition set_file :: "string \<Rightarrow> string \<Rightarrow> user_db \<Rightarrow> user_db" where
  "set_file f text db = db\<lparr>dirents := AList.update f text (dirents db)\<rparr>"

definition put_user :: "user_os \<Rightarrow> user \<Rightarrow> user_db \<Rightarrow> (bool \<times> user_db) res" where
  "put_user os u db =
     bindR (deref (u_name u) Null_Deref)
       (\<lambda>name. let file = user_file name
               in if \<not> uo_fopen_w os file then Inr (False, db)
                  else let db1 = set_file file [] db
                       in bindR (deref (uo_getpwnam os name) Null_Deref)
                            (\<lambda>pw. if \<not> uo_chown os file then Inr (False, db1)
                                  else if \<not> uo_chmod os file then Inr (False, db1)
                                  else bindR (user_text name (additional u))
                                         (\<lambda>text. Inr (True, set_file file text db1))))"

text \<open>The handler the parser calls: its return value and the user built so far.\<close>

fun load_ini_parse :: "string \<times> string \<times> string \<Rightarrow> user \<Rightarrow> int \<times> user" where
  "load_ini_parse (section, name, value) u =
     (if section = ''identify'' then
        (if name = ''name'' then (1, u\<lparr>u_name := Some value\<rparr>) else (0, u))
      else if section = ''info'' then (1, user_pair_add \<lparr>p_name = name, p_value = value\<rparr> u)
      else (0, u))"

definition parse_user :: "user_os \<Rightarrow> string \<Rightarrow> user" where
  "parse_user os text = fold (\<lambda>ev u. snd (load_ini_parse ev u)) (ini_events os text) new_user"

definition load_file :: "user_os \<Rightarrow> string \<Rightarrow> string \<Rightarrow> db_context \<Rightarrow> bool \<times> db_context" where
  "load_file os filename text c =
     (if \<not> uo_fopen_r os filename then (False, c)
      else let u = parse_user os text
           in case u_name u of
                None \<Rightarrow> (False, c)
              | Some name \<Rightarrow>
                  if uo_getpwnam os name = None then (False, c)
                  else if user_find name c \<noteq> None then (False, c)
                  else (True, user_add u c))"

text \<open>\<open>len > S_INI && !strncmp(filename + len - S_INI, INI, S_INI)\<close>\<close>

definition ini_file :: "string \<Rightarrow> bool" where
  "ini_file f \<longleftrightarrow> length f > length INI \<and> drop (length f - length INI) f = INI"

definition load_from_fs :: "user_os \<Rightarrow> user_db \<Rightarrow> db_context \<Rightarrow> bool \<times> db_context" where
  "load_from_fs os db c =
     (if \<not> uo_opendir os then (False, c)
      else let c1 = fold (\<lambda>(f, text) c. if ini_file f then snd (load_file os f text c) else c) (dirents db) c
           in (True, c1\<lparr>loaded_from_fs := True\<rparr>))"

definition prepare_db :: "user_os \<Rightarrow> bool" where
  "prepare_db os \<longleftrightarrow> uo_getpwnam os ''spawny'' \<noteq> None \<and> (uo_dir_access os \<or> uo_mkpath os) \<and> uo_dir_chown os"

subsection \<open>The interface\<close>

definition set_ctx :: "db_context \<Rightarrow> user_db \<Rightarrow> user_db" where
  "set_ctx c db = db\<lparr>ctx := Live_ptr c\<rparr>"

text \<open>Free the list and load it again, the end of every operation that wrote a file.\<close>

definition reload :: "user_os \<Rightarrow> db_context \<Rightarrow> user_db \<Rightarrow> bool \<times> user_db" where
  "reload os c db =
     (case load_from_fs os db (user_list_free c) of (ok, c1) \<Rightarrow> (ok, set_ctx c1 db))"

text \<open>\<open>_list_users\<close> copies the names of all users; an error of \<open>getpwent\<close> on the way ends it without a list.\<close>

fun list_users :: "pwent list \<Rightarrow> string list option" where
  "list_users [] = Some []"
| "list_users (Pw_entry pw # es) = map_option ((#) (pw_name pw)) (list_users es)"
| "list_users (Pw_error # es) = None"

lemma list_users_entries: "list_users es = Some names \<longleftrightarrow> (\<exists>pws. es = map Pw_entry pws \<and> names = map pw_name pws)"
proof (induction es arbitrary: names)
  case (Cons e es)
  show ?case
  proof (cases e)
    case (Pw_entry pw)
    then have "e # es = map Pw_entry pws \<longleftrightarrow> (\<exists>ps. pws = pw # ps \<and> es = map Pw_entry ps)" for pws
      by (cases pws) auto
    with Pw_entry Cons.IH show ?thesis by auto
  next
    case Pw_error
    then have "e # es \<noteq> map Pw_entry pws" for pws by (cases pws) simp_all
    with Pw_error show ?thesis by simp
  qed
qed auto

text \<open>The loop of \<open>user_db_sync\<close> over the names of the system's users.\<close>

fun sync_users :: "user_os \<Rightarrow> db_context \<Rightarrow> string list \<Rightarrow> bool \<Rightarrow> user_db \<Rightarrow> (bool \<times> user_db) res" where
  "sync_users os c [] damage db = Inr (damage, db)"
| "sync_users os c (n # names) damage db =
     (if user_find n c \<noteq> None then sync_users os c names damage db
      else bindR (put_user os \<lparr>u_name = Some n, additional = []\<rparr> db)
             (\<lambda>(_, db1). sync_users os c names True db1))"

definition user_db_sync :: "user_os \<Rightarrow> user_db \<Rightarrow> (bool \<times> user_db) res" where
  "user_db_sync os db =
     bindR (gderef (ctx db))
       (\<lambda>c. let (ok, c1) = (if \<not> loaded_from_fs c then load_from_fs os db c else (True, c));
                db1 = set_ctx c1 db
            in if \<not> ok then Inr (False, db1)
               else if started_uid c1 \<noteq> 0 then Inr (False, db1)
               else if \<not> prepare_db os then Inr (False, db1)
               else (case list_users (uo_getpwent os) of
                       None \<Rightarrow> Inr (False, db1)
                     | Some names \<Rightarrow>
                         bindR (sync_users os c1 names False db1)
                           (\<lambda>(damage, db2). Inr (if \<not> damage then (True, db2) else reload os c1 db2))))"

definition user_db_users_iterate :: "user_db \<Rightarrow> string list res" where
  "user_db_users_iterate db =
     bindR (gderef (ctx db))
       (\<lambda>c. foldR (\<lambda>u names. bindR (deref (u_name u) Null_Deref) (\<lambda>n. Inr (names @ [n]))) (users c) [])"

definition user_db_init :: "user_os \<Rightarrow> user_db \<Rightarrow> (bool \<times> user_db) res" where
  "user_db_init os db =
     (case ctx db of
        Dangling_ptr \<Rightarrow> Inl Use_After_Free
      | Live_ptr c \<Rightarrow> Inr (True, set_ctx (c\<lparr>ref_count := ref_count c + 1\<rparr>) db)
      | Null_ptr \<Rightarrow>
          let c0 = \<lparr>started_uid = uo_getuid os, users = [], loaded_from_fs = False, ref_count = 0\<rparr>;
              db0 = set_ctx c0 db
          in bindR (if started_uid c0 = 0 then bindR (user_db_sync os db0) (\<lambda>(_, d). Inr d)
                    else Inr (set_ctx (snd (load_from_fs os db0 c0)) db0))
               (\<lambda>db1. bindR (gderef (ctx db1))
                 (\<lambda>c. Inr (if users c = [] \<and> started_uid c \<noteq> 0
                          then (False, db1\<lparr>ctx := Dangling_ptr\<rparr>)
                          else (True, set_ctx (c\<lparr>ref_count := 1\<rparr>) db1)))))"

definition user_db_shutdown :: "user_db \<Rightarrow> user_db res" where
  "user_db_shutdown db =
     bindR (gderef (ctx db))
       (\<lambda>c. let c1 = c\<lparr>ref_count := ref_count c - 1\<rparr>
            in Inr (if ref_count c1 = 0 then db\<lparr>ctx := Null_ptr\<rparr> else set_ctx c1 db))"

definition user_db_user_exists :: "string option \<Rightarrow> user_db \<Rightarrow> bool res" where
  "user_db_user_exists name db =
     (case name of
        None \<Rightarrow> Inr False
      | Some nm \<Rightarrow> bindR (gderef (ctx db)) (\<lambda>c. Inr (user_find nm c \<noteq> None)))"

definition user_db_field_get :: "string option \<Rightarrow> string option \<Rightarrow> user_db \<Rightarrow> string option res" where
  "user_db_field_get name field db =
     (case (name, field) of
        (Some nm, Some fd) \<Rightarrow>
          bindR (gderef (ctx db))
            (\<lambda>c. bindR (deref (user_find nm c) Null_Deref)
              (\<lambda>i. let u = users c ! i
                   in Inr (map_option (\<lambda>j. p_value (additional u ! j)) (user_field_get u fd))))
      | _ \<Rightarrow> Inr None)"

text \<open>The change of the record in memory: an existing field gets the value, a new one is appended.\<close>

definition set_field :: "string \<Rightarrow> string \<Rightarrow> user \<Rightarrow> user" where
  "set_field field value u =
     (case user_field_get u field of
        None \<Rightarrow> user_pair_add \<lparr>p_name = field, p_value = value\<rparr> u
      | Some j \<Rightarrow> u\<lparr>additional := (additional u)[j := (additional u ! j)\<lparr>p_value := value\<rparr>]\<rparr>)"

text \<open>Write one user back and load everything again.\<close>

definition write_back :: "user_os \<Rightarrow> nat \<Rightarrow> user \<Rightarrow> db_context \<Rightarrow> user_db \<Rightarrow> (bool \<times> user_db) res" where
  "write_back os i u c db =
     (let c1 = c\<lparr>users := (users c)[i := u]\<rparr>
      in bindR (put_user os u (set_ctx c1 db))
           (\<lambda>(ok, db1). Inr (if \<not> ok then (False, db1) else reload os c1 db1)))"

definition user_db_field_set ::
  "user_os \<Rightarrow> string option \<Rightarrow> string option \<Rightarrow> string option \<Rightarrow> user_db \<Rightarrow> (bool \<times> user_db) res" where
  "user_db_field_set os name field value db =
     (case (name, field, value) of
        (Some nm, Some fd, Some v) \<Rightarrow>
          bindR (deref (uo_getpwnam os nm) Null_Deref)
            (\<lambda>pw. if pw_uid pw \<noteq> uo_getuid os then Inr (False, db)
                  else bindR (gderef (ctx db))
                         (\<lambda>c. bindR (deref (user_find nm c) Null_Deref)
                           (\<lambda>i. write_back os i (set_field fd v (users c ! i)) c db)))
      | _ \<Rightarrow> Inr (False, db))"

definition user_db_field_del ::
  "user_os \<Rightarrow> string option \<Rightarrow> string option \<Rightarrow> user_db \<Rightarrow> (bool \<times> user_db) res" where
  "user_db_field_del os name field db =
     (case (name, field) of
        (Some nm, Some fd) \<Rightarrow>
          bindR (gderef (ctx db))
            (\<lambda>c. bindR (deref (user_find nm c) Null_Deref)
              (\<lambda>i. bindR (user_pair_remove (past_end os) fd (users c ! i))
                (\<lambda>u. write_back os i u c db)))
      | _ \<Rightarrow> Inr (False, db))"

subsection \<open>Removing a field\<close>

lemma pair_remove_no_match:
  "\<forall>j. i \<le> j \<and> j < i + n \<longrightarrow> p_name (ps ! j) \<noteq> name \<Longrightarrow>
   pair_remove_loop past name n i False ps = Inr (False, ps)"
  by (induction n arbitrary: i) auto

lemma pair_remove_skip:
  "\<forall>j. i \<le> j \<and> j < i + k \<longrightarrow> p_name (ps ! j) \<noteq> name \<Longrightarrow>
   pair_remove_loop past name (k + n) i False ps = pair_remove_loop past name n (i + k) False ps"
  by (induction k arbitrary: i) auto

text \<open>Once the name is found, every further turn moves one element down.\<close>

lemma pair_remove_shift:
  "length ps = i + Suc n \<Longrightarrow>
   pair_remove_loop past name (Suc n) i True ps =
     bindR (deref past Out_Of_Bounds) (\<lambda>q. Inr (True, take i ps @ drop (Suc i) ps @ [q]))"
proof (induction n arbitrary: i ps)
  case 0
  then have "ps[i := q] = take i ps @ [q]" for q
    by (simp add: upd_conv_take_nth_drop)
  with 0 show ?case by simp
next
  case (Suc n)
  let ?ps = "ps[i := ps ! Suc i]"
  have "pair_remove_loop past name (Suc (Suc n)) i True ps =
      pair_remove_loop past name (Suc n) (Suc i) True ?ps"
    using Suc.prems by simp
  also have "\<dots> = bindR (deref past Out_Of_Bounds)
      (\<lambda>q. Inr (True, take (Suc i) ?ps @ drop (Suc (Suc i)) ?ps @ [q]))"
    by (rule Suc.IH) (use Suc.prems in simp)
  finally have step: "pair_remove_loop past name (Suc (Suc n)) i True ps =
      bindR (deref past Out_Of_Bounds)
        (\<lambda>q. Inr (True, take (Suc i) ?ps @ drop (Suc (Suc i)) ?ps @ [q]))" .
  have "take (Suc i) ?ps = take i ps @ [ps ! Suc i]"
    using Suc.prems by (simp add: take_Suc_conv_app_nth)
  moreover have "drop (Suc i) ps = ps ! Suc i # drop (Suc (Suc i)) ps"
    using Suc.prems by (simp add: Cons_nth_drop_Suc)
  ultimately show ?case unfolding step by simp
qed

lemma pair_remove_cases:
  assumes split: "additional u = xs @ p # ys" and p: "p_name p = name"
    and xs: "\<forall>x \<in> set xs. p_name x \<noteq> name"
  shows "user_pair_remove past name u =
    (if ys = [] then Inr (u\<lparr>additional := xs\<rparr>)
     else bindR (deref past Out_Of_Bounds) (\<lambda>q. Inr (u\<lparr>additional := xs @ p # tl ys\<rparr>)))"
proof -
  let ?ps = "additional u" and ?k = "length xs"
  have len: "length ?ps = ?k + Suc (length ys)" by (simp add: split)
  have "pair_remove_loop past name (length ?ps) 0 False ?ps =
      pair_remove_loop past name (Suc (length ys)) ?k False ?ps"
    unfolding len using xs
    by (subst pair_remove_skip) (auto simp: split nth_append)
  also have "\<dots> = pair_remove_loop past name (length ys) (Suc ?k) True ?ps"
    using p by (simp add: split)
  finally have loop: "pair_remove_loop past name (length ?ps) 0 False ?ps =
      pair_remove_loop past name (length ys) (Suc ?k) True ?ps" .
  show ?thesis
  proof (cases ys)
    case Nil
    with loop show ?thesis by (simp add: user_pair_remove_def split)
  next
    case (Cons y zs)
    have "pair_remove_loop past name (length ys) (Suc ?k) True ?ps =
        bindR (deref past Out_Of_Bounds) (\<lambda>q. Inr (True, xs @ p # zs @ [q]))"
      unfolding Cons by (simp only: length_Cons, subst pair_remove_shift) (simp_all add: split Cons)
    with loop show ?thesis
      by (cases past) (simp_all add: user_pair_remove_def Cons)
  qed
qed

lemma pair_remove_absent:
  "\<forall>p \<in> set (additional u). p_name p \<noteq> name \<Longrightarrow> user_pair_remove past name u = Inr u"
  by (simp add: user_pair_remove_def pair_remove_no_match)

subsection \<open>What is loaded\<close>

text \<open>\<open>candidates\<close> are the users of the directory in order; duplicates of a name are dropped.\<close>

definition readable :: "user_os \<Rightarrow> string \<times> string \<Rightarrow> user option" where
  "readable os = (\<lambda>(f, text).
     if ini_file f \<and> uo_fopen_r os f then
       (case u_name (parse_user os text) of
          None \<Rightarrow> None
        | Some n \<Rightarrow> if uo_getpwnam os n = None then None else Some (parse_user os text))
     else None)"

definition candidates :: "user_os \<Rightarrow> (string \<times> string) list \<Rightarrow> user list" where
  "candidates os ds = List.map_filter (readable os) ds"

lemma candidates_simps [simp]:
  "candidates os [] = []"
  "candidates os (d # ds) =
     (case readable os d of None \<Rightarrow> candidates os ds | Some u \<Rightarrow> u # candidates os ds)"
  by (simp_all add: candidates_def List.map_filter_simps split: option.split)

abbreviation load_step :: "user_os \<Rightarrow> string \<times> string \<Rightarrow> db_context \<Rightarrow> db_context" where
  "load_step os \<equiv> (\<lambda>(f, text) c. if ini_file f then snd (load_file os f text c) else c)"

lemma load_step_readable:
  "load_step os d c =
     (case readable os d of
        None \<Rightarrow> c
      | Some u \<Rightarrow> if user_find (the (u_name u)) c \<noteq> None then c else c\<lparr>users := users c @ [u]\<rparr>)"
  by (cases d) (auto simp: readable_def load_file_def Let_def split: option.splits)

lemma readable_name: "readable os d = Some u \<Longrightarrow> \<exists>n. u_name u = Some n \<and> uo_getpwnam os n \<noteq> None"
  by (cases d) (auto simp: readable_def split: option.splits if_splits)

lemma find_append: "find P (xs @ ys) = (case find P xs of None \<Rightarrow> find P ys | Some x \<Rightarrow> Some x)"
  by (induction xs) auto

lemma user_find_None: "user_find n c = None \<longleftrightarrow> find (\<lambda>u. u_name u = Some n) (users c) = None"
  by (simp only: user_find_def find_index_None find_None_iff Ball_def) blast

text \<open>Looking a name up in the loaded list gives the first readable file with that name.\<close>

lemma load_all_find:
  "find (\<lambda>u. u_name u = Some n) (users (fold (load_step os) ds c)) =
   find (\<lambda>u. u_name u = Some n) (users c @ candidates os ds)"
proof (induction ds arbitrary: c)
  case (Cons d ds)
  show ?case
  proof (cases "readable os d")
    case None
    then have "load_step os d c = c" by (simp add: load_step_readable)
    with Cons [of c] None show ?thesis by simp
  next
    case (Some u)
    then obtain m where m: "u_name u = Some m" using readable_name by blast
    show ?thesis
    proof (cases "user_find m c \<noteq> None")
      case True
      then have "load_step os d c = c" using Some m by (simp add: load_step_readable)
      moreover have "find (\<lambda>u. u_name u = Some m) (users c) \<noteq> None"
        using True by (simp only: user_find_None [symmetric] not_False_eq_True)
      ultimately show ?thesis using Some m Cons [of c]
        by (cases "m = n") (auto simp: find_append split: option.splits)
    next
      case False
      then have "load_step os d c = c\<lparr>users := users c @ [u]\<rparr>"
        using Some m by (simp add: load_step_readable)
      with Some Cons [of "c\<lparr>users := users c @ [u]\<rparr>"] show ?thesis by simp
    qed
  qed
qed simp

text \<open>The list in memory: every user has a name, known to the system, and no name is there twice.\<close>

definition users_ok :: "user_os \<Rightarrow> db_context \<Rightarrow> bool" where
  "users_ok os c \<longleftrightarrow> distinct (map u_name (users c)) \<and>
     (\<forall>u \<in> set (users c). \<exists>n. u_name u = Some n \<and> uo_getpwnam os n \<noteq> None)"

lemma users_ok_load:
  assumes "users_ok os c"
  shows "users_ok os (fold (load_step os) ds c)"
  using assms
proof (induction ds arbitrary: c)
  case (Cons d ds)
  have "users_ok os (load_step os d c)"
    using Cons.prems readable_name [of os d]
    by (auto simp: load_step_readable users_ok_def user_find_def image_iff split: option.splits)
  then show ?case using Cons.IH by simp
qed simp

lemma load_from_fs_ok:
  "users_ok os c \<Longrightarrow> load_from_fs os db c = (ok, c') \<Longrightarrow> users_ok os c'"
  using users_ok_load [of os c "dirents db"]
  by (auto simp: load_from_fs_def Let_def users_ok_def split: if_splits)

lemma load_from_fs_uid: "load_from_fs os db c = (ok, c') \<Longrightarrow> started_uid c' = started_uid c"
proof -
  have "started_uid (fold (load_step os) ds c) = started_uid c" for ds c
    by (induction ds arbitrary: c) (auto simp: load_step_readable split: option.split)
  then show "load_from_fs os db c = (ok, c') \<Longrightarrow> started_uid c' = started_uid c"
    by (auto simp: load_from_fs_def Let_def split: if_splits)
qed

lemma users_ok_free: "users_ok os (user_list_free c)"
  by (simp add: users_ok_def user_list_free_def)

lemma reload_ok:
  assumes "reload os c db = (ok, db')"
  shows "\<exists>c'. ctx db' = Live_ptr c' \<and> users_ok os c' \<and> started_uid c' = started_uid c"
proof -
  obtain k c1 where k: "load_from_fs os db (user_list_free c) = (k, c1)" by fastforce
  with users_ok_free have "users_ok os c1" by (rule load_from_fs_ok)
  moreover have "started_uid c1 = started_uid c" using load_from_fs_uid [OF k] by (simp add: user_list_free_def)
  ultimately show ?thesis using assms k by (auto simp: reload_def set_ctx_def)
qed

subsection \<open>Files and names\<close>

definition good_name :: "string \<Rightarrow> bool" where
  "good_name n \<longleftrightarrow> n \<noteq> [] \<and> length n < 4000"

lemma user_file_name: "good_name n \<Longrightarrow> user_file n = n @ INI"
  using snprintf_fits [of "SP_USER_DB_DIR @ ''/'' @ n @ INI" 4096]
  by (simp add: user_file_def good_name_def SP_USER_DB_DIR_def INI_def)

lemma ini_user_file: "good_name n \<Longrightarrow> ini_file (user_file n)"
  by (simp add: user_file_name) (simp add: ini_file_def good_name_def)

text \<open>Each ini file of the directory belongs to the user it is named after.\<close>

definition dir_ok :: "user_os \<Rightarrow> (string \<times> string) list \<Rightarrow> bool" where
  "dir_ok os ds \<longleftrightarrow> distinct (map fst ds) \<and>
     (\<forall>(f, text) \<in> set ds. ini_file f \<longrightarrow> uo_fopen_r os f \<and>
        (\<exists>n. good_name n \<and> f = user_file n \<and> u_name (parse_user os text) = Some n \<and>
             uo_getpwnam os n \<noteq> None))"

lemma readable_dir_ok:
  assumes "dir_ok os ds" and "(f, text) \<in> set ds"
  shows "readable os (f, text) = (if ini_file f then Some (parse_user os text) else None)"
  using assms by (fastforce simp: dir_ok_def readable_def)

lemma dir_ok_Cons: "dir_ok os (d # ds) \<Longrightarrow> dir_ok os ds"
  by (simp add: dir_ok_def)

lemma find_candidates:
  assumes "dir_ok os ds" and n: "good_name n"
  shows "find (\<lambda>u. u_name u = Some n) (candidates os ds) =
    map_option (parse_user os) (map_of ds (user_file n))"
  using assms(1)
proof (induction ds)
  case (Cons d ds)
  obtain f body where d: "d = (f, body)" by (cases d)
  note IH = Cons.IH [OF dir_ok_Cons [OF Cons.prems]]
  have r: "readable os d = (if ini_file f then Some (parse_user os body) else None)"
    using readable_dir_ok [OF Cons.prems] by (simp add: d)
  show ?case
  proof (cases "ini_file f")
    case False
    then have "f \<noteq> user_file n" using ini_user_file [OF n] by auto
    with False r IH d show ?thesis by simp
  next
    case True
    then obtain m where m: "good_name m" "f = user_file m" "u_name (parse_user os body) = Some m"
      using Cons.prems d by (auto simp: dir_ok_def)
    then have "f = user_file n \<longleftrightarrow> m = n" using n by (auto simp: user_file_name)
    with m r True IH d show ?thesis by auto
  qed
qed simp

subsection \<open>Writing a user and reading it back\<close>

definition user_events :: "string \<Rightarrow> pair list \<Rightarrow> (string \<times> string \<times> string) list" where
  "user_events name ps =
     (''identify'', ''name'', name) # map (\<lambda>p. (''info'', p_name p, p_value p)) ps"

lemma parse_info:
  "fold (\<lambda>ev u. snd (load_ini_parse ev u)) (map (\<lambda>p. (''info'', p_name p, p_value p)) ps) u =
   u\<lparr>additional := additional u @ ps\<rparr>"
  by (induction ps arbitrary: u) (simp_all add: user_pair_add_def)

lemma parse_user_events:
  "ini_events os text = user_events name ps \<Longrightarrow>
   parse_user os text = \<lparr>u_name = Some name, additional = ps\<rparr>"
  by (simp add: parse_user_def user_events_def parse_info new_user_def)

text \<open>
  What \<open>_put_user\<close> writes is a document (\<open>user_doc\<close>), as far as the lines fit into the buffer. The name and
  the fields are plain when each line is; the parser is only relied on to keep its documentation.
\<close>

definition user_doc :: "string \<Rightarrow> pair list \<Rightarrow> ini_line list" where
  "user_doc name ps = [Section ''identify'', Setting ''name'' name, Section ''info''] @ map (\<lambda>p. Setting (p_name p) (p_value p)) ps"

definition plain_pair :: "pair \<Rightarrow> bool" where
  "plain_pair p \<longleftrightarrow> plain_line (Setting (p_name p) (p_value p))"

definition plain_user :: "string \<Rightarrow> pair list \<Rightarrow> bool" where
  "plain_user name ps \<longleftrightarrow> plain_line (Setting ''name'' name) \<and> (\<forall>p \<in> set ps. plain_pair p)"

lemma plain_user_doc: "plain_user name ps \<Longrightarrow> \<forall>l \<in> set (user_doc name ps). plain_line l"
  by (auto simp: plain_user_def plain_pair_def user_doc_def plain_text_def blank_def)

lemma pairs_text:
  assumes "\<forall>p \<in> set ps. plain_pair p"
  shows "foldR (\<lambda>p tx. bindR (write_buffered (pair_line p)) (\<lambda>l. Inr (tx @ l))) ps tx =
    Inr (tx @ concat (map line_text (map (\<lambda>p. Setting (p_name p) (p_value p)) ps)))"
  using assms
proof (induction ps arbitrary: tx)
  case (Cons p ps)
  then have "write_buffered (pair_line p) = Inr (line_text (Setting (p_name p) (p_value p)))"
    by (simp add: plain_pair_def write_buffered_def pair_line_def)
  with Cons show ?case by simp
qed simp

lemma user_text_doc:
  assumes "plain_user name ps"
  shows "user_text name ps = Inr (concat (map line_text (user_doc name ps)))"
proof -
  have "write_buffered (user_header name) =
      Inr (concat (map line_text [Section ''identify'', Setting ''name'' name, Section ''info'']))"
    using assms by (simp add: plain_user_def write_buffered_def user_header_def)
  with assms pairs_text [of ps] show ?thesis by (simp add: plain_user_def user_text_def user_doc_def)
qed

lemma doc_events_user: "doc_events [] (user_doc name ps) = user_events name ps"
proof -
  have "doc_events sec (map (\<lambda>p. Setting (p_name p) (p_value p)) ps) = map (\<lambda>p. (sec, p_name p, p_value p)) ps" for sec
    by (induction ps) simp_all
  then show ?thesis by (simp add: user_doc_def user_events_def)
qed

definition may_write :: "user_os \<Rightarrow> string \<Rightarrow> bool" where
  "may_write os name \<longleftrightarrow> uo_fopen_w os (user_file name) \<and> uo_fopen_r os (user_file name) \<and>
     uo_chown os (user_file name) \<and> uo_chmod os (user_file name) \<and> uo_getpwnam os name \<noteq> None"

lemma text_reads_back:
  assumes "ini_documented (ini_events os)" and "plain_user name ps"
  obtains body where "user_text name ps = Inr body"
    and "parse_user os body = \<lparr>u_name = Some name, additional = ps\<rparr>"
proof (rule that)
  show "user_text name ps = Inr (concat (map line_text (user_doc name ps)))" by (rule user_text_doc [OF assms(2)])
  have "ini_events os (concat (map line_text (user_doc name ps))) = user_events name ps"
    using assms(1) plain_user_doc [OF assms(2)] by (simp add: ini_documented_def doc_events_user)
  then show "parse_user os (concat (map line_text (user_doc name ps))) = \<lparr>u_name = Some name, additional = ps\<rparr>"
    by (rule parse_user_events)
qed

lemma plain_set_field:
  assumes "plain_user name (additional u)" and "plain_line (Setting fd v)"
  shows "plain_user name (additional (set_field fd v u))"
proof (cases "user_field_get u fd")
  case None
  with assms show ?thesis by (simp add: set_field_def user_pair_add_def plain_user_def plain_pair_def)
next
  case (Some j)
  then have j: "j < length (additional u)" "p_name (additional u ! j) = fd"
    using find_index_SomeD unfolding user_field_get_def by fast+
  have "plain_pair ((additional u ! j)\<lparr>p_value := v\<rparr>)" using assms(2) j(2) by (simp add: plain_pair_def)
  with assms(1) Some show ?thesis
    by (auto simp: set_field_def plain_user_def dest: subsetD [OF set_update_subset_insert])
qed

lemma put_user_writes:
  assumes "u_name u = Some n" "may_write os n" "user_text n (additional u) = Inr body"
  shows "put_user os u db = Inr (True, set_file (user_file n) body (set_file (user_file n) [] db))"
  using assms by (auto simp: put_user_def may_write_def Let_def)

lemma dir_ok_map_of:
  "dir_ok os ds \<longleftrightarrow> distinct (map fst ds) \<and>
     (\<forall>f body. map_of ds f = Some body \<longrightarrow> ini_file f \<longrightarrow> uo_fopen_r os f \<and>
        (\<exists>n. good_name n \<and> f = user_file n \<and> u_name (parse_user os body) = Some n \<and>
             uo_getpwnam os n \<noteq> None))"
  by (auto simp: dir_ok_def)

lemma dir_ok_update:
  assumes ds: "dir_ok os ds" and n: "good_name n" and w: "may_write os n"
    and p: "u_name (parse_user os body) = Some n"
  shows "dir_ok os (AList.update (user_file n) body (AList.update (user_file n) b0 ds))"
proof -
  have "distinct (map fst (AList.update (user_file n) body (AList.update (user_file n) b0 ds)))"
    using ds by (intro distinct_update) (simp add: dir_ok_map_of)
  moreover have "uo_fopen_r os (user_file n)" "uo_getpwnam os n \<noteq> None"
    using w by (simp_all add: may_write_def)
  ultimately show ?thesis using ds n p unfolding dir_ok_map_of
    by (auto simp: update_conv')
qed

subsection \<open>Looking fields up\<close>

abbreviation user_named :: "string \<Rightarrow> db_context \<Rightarrow> user option" where
  "user_named n c \<equiv> find (\<lambda>u. u_name u = Some n) (users c)"

abbreviation field_value :: "string \<Rightarrow> user \<Rightarrow> string option" where
  "field_value f u \<equiv> map_option p_value (find (\<lambda>p. p_name p = f) (additional u))"

lemma find_index_value:
  "map_option (\<lambda>j. g (xs ! j)) (find_index P xs) = map_option g (find P xs)"
proof (cases "find_index P xs")
  case None
  then have "find P xs = None" by (simp add: find_None_iff)
  with None show ?thesis by simp
next
  case (Some i)
  with find_index_nth [OF Some] show ?thesis by simp
qed

lemma field_get_named:
  "ctx db = Live_ptr c \<Longrightarrow>
   user_db_field_get (Some n) (Some f) db =
     (case user_named n c of None \<Rightarrow> Inl Null_Deref | Some u \<Rightarrow> Inr (field_value f u))"
proof -
  assume c: "ctx db = Live_ptr c"
  show ?thesis
  proof (cases "user_find n c")
    case None
    then have "user_named n c = None" by (simp only: user_find_None)
    with None c show ?thesis by (simp add: user_db_field_get_def)
  next
    case (Some i)
    then have "user_named n c = Some (users c ! i)"
      by (simp add: user_find_def find_index_nth)
    with Some c show ?thesis
      by (simp add: user_db_field_get_def user_field_get_def Let_def find_index_value)
  qed
qed

lemma find_set_value:
  "find_index (\<lambda>p. p_name p = fd) ps = Some j \<Longrightarrow>
   find (\<lambda>p. p_name p = f) (ps[j := (ps ! j)\<lparr>p_value := v\<rparr>]) =
     (if f = fd then Some ((ps ! j)\<lparr>p_value := v\<rparr>) else find (\<lambda>p. p_name p = f) ps)"
  by (induction ps arbitrary: j) (auto split: if_splits option.splits nat.splits)

lemma field_value_set:
  "field_value f (set_field fd v u) = (if f = fd then Some v else field_value f u)"
proof (cases "user_field_get u fd")
  case None
  then have "find (\<lambda>p. p_name p = fd) (additional u) = None"
    by (simp add: user_field_get_def find_None_iff)
  with None show ?thesis
    by (auto simp: set_field_def user_pair_add_def find_append split: option.splits)
next
  case (Some j)
  then show ?thesis
    by (simp add: set_field_def user_field_get_def find_set_value)
qed

lemma set_field_name [simp]: "u_name (set_field fd v u) = u_name u"
  by (simp add: set_field_def user_pair_add_def split: option.split)

text \<open>Memory and directory agree on every user.\<close>

definition in_sync :: "user_os \<Rightarrow> user_db \<Rightarrow> db_context \<Rightarrow> bool" where
  "in_sync os db c \<longleftrightarrow> ctx db = Live_ptr c \<and> dir_ok os (dirents db) \<and>
     (\<forall>n. good_name n \<longrightarrow>
        user_named n c = map_option (parse_user os) (map_of (dirents db) (user_file n)))"

lemma reload_sync:
  assumes "dir_ok os (dirents db)" "uo_opendir os"
  obtains c' where "reload os c db = (True, set_ctx c' db)" "in_sync os (set_ctx c' db) c'"
proof -
  let ?c = "fold (load_step os) (dirents db) (user_list_free c)\<lparr>loaded_from_fs := True\<rparr>"
  have "user_named n ?c = find (\<lambda>u. u_name u = Some n) (candidates os (dirents db))" for n
    using load_all_find [of n os "dirents db" "user_list_free c"] by (simp add: user_list_free_def)
  then have "in_sync os (set_ctx ?c db) ?c"
    using assms find_candidates by (simp add: in_sync_def set_ctx_def)
  moreover have "reload os c db = (True, set_ctx ?c db)"
    using assms by (simp add: reload_def load_from_fs_def Let_def)
  ultimately show ?thesis using that by blast
qed

text \<open>Writing one user back replaces that user and leaves the others as they were.\<close>

lemma write_back_sync:
  assumes n: "good_name n" and u: "u_name u = Some n" and w: "may_write os n"
    and r: "ini_documented (ini_events os)" "plain_user n (additional u)"
    and s: "in_sync os db c" and o: "uo_opendir os"
  obtains db' c' where "write_back os i u c db = Inr (True, db')" "in_sync os db' c'"
    "user_named n c' = Some u"
    "\<And>m. good_name m \<Longrightarrow> m \<noteq> n \<Longrightarrow> user_named m c' = user_named m c"
proof -
  obtain body where body: "user_text n (additional u) = Inr body"
    and parse: "parse_user os body = \<lparr>u_name = Some n, additional = additional u\<rparr>"
    using r by (rule text_reads_back)
  let ?c1 = "c\<lparr>users := (users c)[i := u]\<rparr>"
  let ?db1 = "set_file (user_file n) body (set_file (user_file n) [] (set_ctx ?c1 db))"
  have put: "put_user os u (set_ctx ?c1 db) = Inr (True, ?db1)"
    using u w body by (rule put_user_writes)
  have "dir_ok os (dirents ?db1)"
    unfolding set_file_def set_ctx_def
    using s dir_ok_update [OF _ n w] parse by (simp add: in_sync_def)
  then obtain c' where c': "reload os ?c1 ?db1 = (True, set_ctx c' ?db1)"
    and sync: "in_sync os (set_ctx c' ?db1) c'"
    using o by (rule reload_sync)
  have dir: "map_of (dirents (set_ctx c' ?db1)) = (map_of (dirents db))(user_file n \<mapsto> body)"
    by (simp add: set_file_def set_ctx_def update_conv')
  show ?thesis
  proof (rule that)
    show "write_back os i u c db = Inr (True, set_ctx c' ?db1)"
      using put c' by (simp add: write_back_def)
    show "in_sync os (set_ctx c' ?db1) c'" by (fact sync)
    show "user_named n c' = Some u"
      using sync n dir parse u by (simp add: in_sync_def)
    show "user_named m c' = user_named m c" if "good_name m" "m \<noteq> n" for m
      using sync s that n dir by (simp add: in_sync_def user_file_name)
  qed
qed

text \<open>Setting a field, seen from the users that can be looked up.\<close>

lemma field_set_sync:
  assumes s: "in_sync os db c" and o: "uo_opendir os" and n: "good_name n"
    and u: "user_named n c = Some u" and pw: "uo_getpwnam os n = Some pw" "pw_uid pw = uo_getuid os"
    and w: "may_write os n" and r: "ini_documented (ini_events os)" "plain_user n (additional u)" "plain_line (Setting fd v)"
  obtains db' c' where "user_db_field_set os (Some n) (Some fd) (Some v) db = Inr (True, db')"
    "in_sync os db' c'" "user_named n c' = Some (set_field fd v u)"
    "\<And>m. good_name m \<Longrightarrow> m \<noteq> n \<Longrightarrow> user_named m c' = user_named m c"
proof -
  have c: "ctx db = Live_ptr c" using s by (simp add: in_sync_def)
  have "user_find n c \<noteq> None" using u by (simp only: user_find_None) simp
  then obtain i where i: "user_find n c = Some i" by blast
  then have ui: "users c ! i = u" using u by (simp add: user_find_def find_index_nth)
  have "u_name u = Some n" using u by (auto simp: find_Some_iff)
  then obtain db' c' where wb: "write_back os i (set_field fd v u) c db = Inr (True, db')"
    and rest: "in_sync os db' c'" "user_named n c' = Some (set_field fd v u)"
      "\<And>m. good_name m \<Longrightarrow> m \<noteq> n \<Longrightarrow> user_named m c' = user_named m c"
    using write_back_sync [OF n _ w r(1) plain_set_field [OF r(2,3)] s o] by auto
  have "user_db_field_set os (Some n) (Some fd) (Some v) db = Inr (True, db')"
    using pw c i ui wb by (simp add: user_db_field_set_def)
  from that [OF this rest] show ?thesis .
qed

lemma write_back_ref_count:
  assumes "write_back os i u c db = Inr (k, db')" and "ctx db' = Live_ptr c'"
  shows "ref_count c' = ref_count c"
proof -
  have fold: "ref_count (fold (load_step os) ds c) = ref_count c" for ds c
  proof (induction ds arbitrary: c)
    case (Cons d ds)
    have "ref_count (load_step os d c) = ref_count c"
      by (simp add: load_step_readable split: option.split)
    with Cons show ?case by (simp only: fold_simps)
  qed simp
  show ?thesis using assms
    by (auto simp: write_back_def reload_def load_from_fs_def put_user_def set_ctx_def set_file_def
        user_list_free_def fold Let_def elim!: bindR_InrE split: if_splits)
qed

lemma field_set_ref_count:
  assumes "user_db_field_set os (Some n) (Some fd) (Some v) db = Inr (k, db')"
    and "ctx db = Live_ptr c" and "ctx db' = Live_ptr c'"
  shows "ref_count c' = ref_count c"
  using assms write_back_ref_count [of os _ _ c db k db' c']
  by (auto simp: user_db_field_set_def elim!: bindR_InrE split: if_splits)

text \<open>The first initialisation by somebody else than root only loads.\<close>

lemma init_sync:
  assumes "ctx db = Null_ptr" and "uo_getuid os \<noteq> 0" and "uo_opendir os" and "dir_ok os (dirents db)"
    and "candidates os (dirents db) \<noteq> []"
  obtains c where "user_db_init os db = Inr (True, set_ctx c db)" "in_sync os (set_ctx c db) c" "ref_count c = 1"
proof -
  let ?start = "\<lparr>started_uid = uo_getuid os, users = [], loaded_from_fs = False, ref_count = 0\<rparr>"
  let ?loaded = "(fold (load_step os) (dirents db) ?start)\<lparr>loaded_from_fs := True\<rparr>"
  let ?last = "?loaded\<lparr>ref_count := 1\<rparr>"
  have named: "user_named n ?loaded = find (\<lambda>u. u_name u = Some n) (candidates os (dirents db))" for n
    using load_all_find [of n os "dirents db" ?start] by simp
  obtain u us where us: "candidates os (dirents db) = u # us" using assms(5) by (cases "candidates os (dirents db)") auto
  then have "u \<in> set (candidates os (dirents db))" by simp
  then obtain d where "readable os d = Some u" by (auto simp: candidates_def List.map_filter_def)
  then obtain n where "u_name u = Some n" using readable_name by blast
  with named [of n] us have "users ?loaded \<noteq> []" by auto
  then have "user_db_init os db = Inr (True, set_ctx ?last db)"
    using assms(1-3) by (simp add: user_db_init_def load_from_fs_def set_ctx_def Let_def)
  moreover have "in_sync os (set_ctx ?last db) ?last"
    using assms(4) named find_candidates by (simp add: in_sync_def set_ctx_def)
  ultimately show ?thesis using that by simp
qed

subsection \<open>Adding the system's users\<close>

definition can_create :: "user_os \<Rightarrow> string \<Rightarrow> bool" where
  "can_create os n \<longleftrightarrow> good_name n \<and> may_write os n \<and> plain_user n []"

lemma sync_users_writes:
  assumes "\<forall>n \<in> set names. can_create os n" "dir_ok os (dirents db)" and ini: "ini_documented (ini_events os)"
  shows "\<exists>db'. sync_users os c names damage db =
      Inr (damage \<or> (\<exists>n \<in> set names. user_find n c = None), db') \<and> ctx db' = ctx db \<and>
    dir_ok os (dirents db') \<and>
    (\<forall>m. good_name m \<longrightarrow> map_option (parse_user os) (map_of (dirents db') (user_file m)) =
       (if user_find m c = None \<and> m \<in> set names then Some \<lparr>u_name = Some m, additional = []\<rparr>
        else map_option (parse_user os) (map_of (dirents db) (user_file m))))"
  using assms(1,2)
proof (induction names arbitrary: damage db)
  case (Cons n names)
  let ?n = n
  show ?case
  proof (cases "user_find ?n c")
    case (Some i)
    have "\<forall>n \<in> set names. can_create os n" using Cons.prems(1) by simp
    from Cons.IH [OF this Cons.prems(2), of damage] Some show ?thesis by (auto split: if_splits)
  next
    case None
    have n: "good_name ?n" and w: "may_write os ?n" and r: "plain_user ?n []"
      using Cons.prems by (simp_all add: can_create_def)
    obtain body where body: "user_text ?n [] = Inr body"
      and parse: "parse_user os body = \<lparr>u_name = Some ?n, additional = []\<rparr>"
      using ini r by (rule text_reads_back)
    let ?db1 = "set_file (user_file ?n) body (set_file (user_file ?n) [] db)"
    have put: "put_user os \<lparr>u_name = Some ?n, additional = []\<rparr> db = Inr (True, ?db1)"
      by (rule put_user_writes) (simp_all add: w body)
    have dir: "dir_ok os (dirents ?db1)"
      unfolding set_file_def using dir_ok_update [OF Cons.prems(2) n w] parse by simp
    have files: "map_option (parse_user os) (map_of (dirents ?db1) (user_file m)) =
        (if m = ?n then Some \<lparr>u_name = Some m, additional = []\<rparr>
         else map_option (parse_user os) (map_of (dirents db) (user_file m)))" if "good_name m" for m
      using that n parse by (simp add: set_file_def update_conv' user_file_name)
    have step: "sync_users os c (n # names) damage db = sync_users os c names True ?db1"
      using None put by simp
    have "\<forall>n \<in> set names. can_create os n" using Cons.prems(1) by simp
    from Cons.IH [OF this dir, of True] obtain db' where db':
      "sync_users os c names True ?db1 = Inr (True, db')" "ctx db' = ctx ?db1" "dir_ok os (dirents db')"
      and all: "\<And>m. good_name m \<Longrightarrow> map_option (parse_user os) (map_of (dirents db') (user_file m)) =
         (if user_find m c = None \<and> m \<in> set names then Some \<lparr>u_name = Some m, additional = []\<rparr>
          else map_option (parse_user os) (map_of (dirents ?db1) (user_file m)))"
      by auto
    show ?thesis
    proof (intro exI conjI allI impI)
      show "sync_users os c (n # names) damage db =
          Inr (damage \<or> (\<exists>n \<in> set (n # names). user_find n c = None), db')"
        using step db' None by simp
      show "ctx db' = ctx db" using db'(2) by (simp add: set_file_def)
      show "dir_ok os (dirents db')" by (fact db'(3))
      show "map_option (parse_user os) (map_of (dirents db') (user_file m)) =
         (if user_find m c = None \<and> m \<in> set (n # names)
          then Some \<lparr>u_name = Some m, additional = []\<rparr>
          else map_option (parse_user os) (map_of (dirents db) (user_file m)))" if "good_name m" for m
        using all [OF that] files [OF that] None by auto
    qed
  qed
qed simp

lemma put_user_ctx: "put_user os u db = Inr (k, db') \<Longrightarrow> ctx db' = ctx db"
  by (auto simp: put_user_def Let_def set_file_def elim!: bindR_InrE split: if_splits)

lemma sync_users_ctx: "sync_users os c names d db = Inr (d', db') \<Longrightarrow> ctx db' = ctx db"
  by (induction os c names d db rule: sync_users.induct)
    (auto elim!: bindR_InrE dest: put_user_ctx split: if_splits)

lemma user_db_sync_ok:
  assumes "ctx db = Live_ptr c" "users_ok os c" "user_db_sync os db = Inr (k, db')"
  shows "\<exists>c'. ctx db' = Live_ptr c' \<and> users_ok os c' \<and> started_uid c' = started_uid c"
proof -
  let ?p = "if \<not> loaded_from_fs c then load_from_fs os db c else (True, c)"
  obtain ok c1 where c1: "?p = (ok, c1)" by fastforce
  have u1: "users_ok os c1" "started_uid c1 = started_uid c"
    using c1 assms(2) load_from_fs_ok [of os c db ok c1] load_from_fs_uid [of os db c ok c1] by (simp_all split: if_splits)
  have same: "ctx (set_ctx c1 db) = Live_ptr c1" by (simp add: set_ctx_def)
  from assms(1,3) c1 consider "db' = set_ctx c1 db"
    | names d db2 where "sync_users os c1 names False (set_ctx c1 db) = Inr (d, db2)"
        "(k, db') = (if \<not> d then (True, db2) else reload os c1 db2)"
    by (auto simp: user_db_sync_def Let_def elim!: bindR_InrE split: if_splits option.splits)
  then show ?thesis
  proof cases
    case 1
    with same u1 show ?thesis by simp
  next
    case (2 names d db2)
    have "ctx db2 = Live_ptr c1" using sync_users_ctx [OF 2(1)] same by simp
    with 2(2) u1 reload_ok [of os c1 db2 k db'] show ?thesis by (cases d) auto
  qed
qed

subsection \<open>A concrete system for the witnesses\<close>

definition bob_text :: "pair list \<Rightarrow> string" where
  "bob_text ps = user_header ''bob'' @ concat (map pair_line ps)"

definition cat_icon :: "pair list" where
  "cat_icon = [\<lparr>p_name = ''icon'', p_value = ''cat''\<rparr>]"

definition bob_os :: "int \<Rightarrow> user_os" where
  "bob_os uid = \<lparr>uo_getuid = uid,
     uo_getpwnam = (\<lambda>n. if n = ''bob'' then Some bob else if n = ''spawny'' then Some bob else None),
     uo_getpwent = [Pw_entry bob], uo_opendir = True, uo_fopen_r = (\<lambda>_. True), uo_fopen_w = (\<lambda>_. True),
     uo_chown = (\<lambda>_. True), uo_chmod = (\<lambda>_. True), uo_dir_access = True, uo_mkpath = True,
     uo_dir_chown = True,
     ini_events = simple_ini, past_end = None\<rparr>"

definition bob_db :: user_db where
  "bob_db = \<lparr>ctx = Live_ptr \<lparr>started_uid = 1000, users = [\<lparr>u_name = Some ''bob'', additional = []\<rparr>],
       loaded_from_fs = True, ref_count = 1\<rparr>, dirents = [(''bob.ini'', bob_text [])]\<rparr>"

definition empty_db :: user_db where
  "empty_db = \<lparr>ctx = Live_ptr \<lparr>started_uid = 0, users = [], loaded_from_fs = True, ref_count = 1\<rparr>,
     dirents = []\<rparr>"

lemma bob_good: "good_name ''bob''" by (simp add: good_name_def)

lemma bob_file: "user_file ''bob'' = ''bob.ini''"
  by (simp add: user_file_name bob_good INI_def)

lemma bob_may_write: "may_write (bob_os uid) ''bob''"
  by (simp add: may_write_def bob_os_def)

lemma bob_plain: "plain_user ''bob'' []" "plain_line (Setting ''icon'' ''cat'')"
  by (simp_all add: plain_user_def plain_text_def blank_def)

lemma bob_ini: "ini_documented (ini_events (bob_os uid))"
  by (simp add: bob_os_def simple_ini_documented)

lemma bob_parse: "parse_user (bob_os uid) (bob_text []) = \<lparr>u_name = Some ''bob'', additional = []\<rparr>"
proof -
  have "user_text ''bob'' [] = Inr (bob_text [])" by (simp add: user_text_def bob_text_def write_buffered_def user_header_def)
  with text_reads_back [OF bob_ini [of uid] bob_plain(1)] show ?thesis by (metis sum.inject(2))
qed

lemma bob_in_sync:
  "in_sync (bob_os uid) bob_db \<lparr>started_uid = 1000, users = [\<lparr>u_name = Some ''bob'', additional = []\<rparr>],
     loaded_from_fs = True, ref_count = 1\<rparr>"
proof -
  have "user_file n = ''bob.ini'' \<longleftrightarrow> n = ''bob''" if "good_name n" for n
    using that bob_file bob_good by (metis append_same_eq user_file_name)
  then show ?thesis using bob_good bob_file [symmetric] bob_parse
    by (auto simp: in_sync_def bob_db_def dir_ok_def bob_os_def)
qed

lemma empty_in_sync:
  "in_sync os empty_db \<lparr>started_uid = 0, users = [], loaded_from_fs = True, ref_count = 1\<rparr>"
  by (simp add: in_sync_def empty_db_def dir_ok_def)

subsection \<open>Properties\<close>

text \<open>C13: Setting a field of a user succeeds, and afterwards the field of that user reads as the
  new value, every other field of the user and every other user read as before, and memory and
  directory agree again: the value has gone through the file, its text and the parser.\<close>

theorem field_set_get:
  assumes s: "in_sync os db c" and o: "uo_opendir os" and n: "good_name n"
    and u: "user_named n c = Some u" and pw: "uo_getpwnam os n = Some pw" "pw_uid pw = uo_getuid os"
    and w: "may_write os n" and r: "ini_documented (ini_events os)" "plain_user n (additional u)" "plain_line (Setting fd v)"
  shows "\<exists>db' c'. user_db_field_set os (Some n) (Some fd) (Some v) db = Inr (True, db') \<and>
    in_sync os db' c' \<and>
    user_db_field_get (Some n) (Some fd) db' = Inr (Some v) \<and>
    (\<forall>f. f \<noteq> fd \<longrightarrow> user_db_field_get (Some n) (Some f) db' = user_db_field_get (Some n) (Some f) db) \<and>
    (\<forall>m f. good_name m \<longrightarrow> m \<noteq> n \<longrightarrow>
       user_db_field_get (Some m) (Some f) db' = user_db_field_get (Some m) (Some f) db)"
proof -
  obtain db' c' where set: "user_db_field_set os (Some n) (Some fd) (Some v) db = Inr (True, db')"
    and s': "in_sync os db' c'" and same: "user_named n c' = Some (set_field fd v u)"
    and other: "\<And>m. good_name m \<Longrightarrow> m \<noteq> n \<Longrightarrow> user_named m c' = user_named m c"
    using field_set_sync [OF assms] by blast
  have c: "ctx db = Live_ptr c" using s by (simp add: in_sync_def)
  have c': "ctx db' = Live_ptr c'" using s' by (simp add: in_sync_def)
  show ?thesis
    using set s' same other u
    by (intro exI [of _ db'] exI [of _ c']) (simp add: field_get_named [OF c] field_get_named [OF c'] field_value_set)
qed

lemma field_set_get_witness:
  "\<exists>db' c'. user_db_field_set (bob_os 1000) (Some ''bob'') (Some ''icon'') (Some ''cat'') bob_db = Inr (True, db') \<and>
     user_db_field_get (Some ''bob'') (Some ''icon'') db' = Inr (Some ''cat'')"
proof -
  have "user_named ''bob'' \<lparr>started_uid = 1000, users = [\<lparr>u_name = Some ''bob'', additional = []\<rparr>],
     loaded_from_fs = True, ref_count = 1\<rparr> = Some \<lparr>u_name = Some ''bob'', additional = []\<rparr>" by simp
  from field_set_get [OF bob_in_sync _ bob_good this _ _ bob_may_write bob_ini _ bob_plain(2)] bob_plain(1)
  show ?thesis by (auto simp: bob_os_def bob_def)
qed

lemma load_sync:
  assumes "dir_ok os (dirents db)" "uo_opendir os" "users c = []"
  obtains c' where "load_from_fs os db c = (True, c')" "in_sync os (set_ctx c' db) c'" "started_uid c' = started_uid c"
proof -
  let ?c = "fold (load_step os) (dirents db) c\<lparr>loaded_from_fs := True\<rparr>"
  have "user_named n ?c = find (\<lambda>u. u_name u = Some n) (candidates os (dirents db))" for n
    using load_all_find [of n os "dirents db" c] assms(3) by simp
  then have "in_sync os (set_ctx ?c db) ?c" using assms(1) find_candidates by (simp add: in_sync_def set_ctx_def)
  moreover have load: "load_from_fs os db c = (True, ?c)" using assms(2) by (simp add: load_from_fs_def Let_def)
  ultimately show ?thesis using that load_from_fs_uid [OF load] by blast
qed

text \<open>A synchronisation, whether the directory has been read before or not.\<close>

lemma sync_adds_names:
  assumes c: "ctx db = Live_ptr c" "started_uid c = 0" and d: "dir_ok os (dirents db)"
    and mem: "if loaded_from_fs c then in_sync os db c else users c = []"
    and prep: "prepare_db os" and o: "uo_opendir os" and names: "list_users (uo_getpwent os) = Some names"
    and ini: "ini_documented (ini_events os)" and can: "\<forall>n \<in> set names. can_create os n"
  shows "\<exists>db' c'. user_db_sync os db = Inr (True, db') \<and> in_sync os db' c' \<and>
    (\<forall>m. good_name m \<longrightarrow> map_option (parse_user os) (map_of (dirents db') (user_file m)) =
       (case map_of (dirents db) (user_file m) of
          Some body \<Rightarrow> Some (parse_user os body)
        | None \<Rightarrow> if m \<in> set names then Some \<lparr>u_name = Some m, additional = []\<rparr> else None))"
proof -
  obtain c1 where first: "(if \<not> loaded_from_fs c then load_from_fs os db c else (True, c)) = (True, c1)"
    and s: "in_sync os (set_ctx c1 db) c1" and uid: "started_uid c1 = 0"
  proof (cases "loaded_from_fs c")
    case True
    have "set_ctx c db = db" using c by (simp add: set_ctx_def)
    with True mem c(2) show ?thesis by (intro that [of c]) simp_all
  next
    case False
    with mem have "users c = []" by simp
    from load_sync [OF d o this] False c(2) that show ?thesis by metis
  qed
  let ?db = "set_ctx c1 db"
  have head: "user_db_sync os db = bindR (sync_users os c1 names False ?db)
      (\<lambda>(damage, db2). Inr (if \<not> damage then (True, db2) else reload os c1 db2))"
    using c(1) first uid prep names by (simp add: user_db_sync_def Let_def)
  have same: "dirents ?db = dirents db" by (simp add: set_ctx_def)
  obtain db1 where run: "sync_users os c1 names False ?db = Inr (\<exists>n \<in> set names. user_find n c1 = None, db1)"
    and ctx1: "ctx db1 = ctx ?db" and dir1: "dir_ok os (dirents db1)"
    and files: "\<And>m. good_name m \<Longrightarrow> map_option (parse_user os) (map_of (dirents db1) (user_file m)) =
       (if user_find m c1 = None \<and> m \<in> set names then Some \<lparr>u_name = Some m, additional = []\<rparr>
        else map_option (parse_user os) (map_of (dirents db) (user_file m)))"
    using sync_users_writes [OF can _ ini, of ?db c1 False] d same by auto
  have known: "user_find m c1 = None \<longleftrightarrow> map_of (dirents db) (user_file m) = None" if "good_name m" for m
    using s that same by (simp add: in_sync_def user_find_None)
  have view: "map_option (parse_user os) (map_of (dirents db1) (user_file m)) =
      (case map_of (dirents db) (user_file m) of
          Some body \<Rightarrow> Some (parse_user os body)
        | None \<Rightarrow> if m \<in> set names then Some \<lparr>u_name = Some m, additional = []\<rparr> else None)" if "good_name m" for m
    using files [OF that] known [OF that] by (simp split: option.split)
  show ?thesis
  proof (cases "\<exists>n \<in> set names. user_find n c1 = None")
    case True
    obtain c' where c': "reload os c1 db1 = (True, set_ctx c' db1)" "in_sync os (set_ctx c' db1) c'"
      using dir1 o by (rule reload_sync)
    then show ?thesis using head run True view
      by (intro exI [of _ "set_ctx c' db1"] exI [of _ c']) (simp add: set_ctx_def)
  next
    case False
    have "in_sync os db1 c1"
      unfolding in_sync_def
    proof (intro conjI allI impI)
      show "ctx db1 = Live_ptr c1" using ctx1 by (simp add: set_ctx_def)
      show "user_named n c1 = map_option (parse_user os) (map_of (dirents db1) (user_file n))" if "good_name n" for n
        using s that False files [OF that] same by (auto simp: in_sync_def)
    qed (rule dir1)
    moreover have "user_db_sync os db = Inr (True, db1)" using head run False by simp
    ultimately show ?thesis using view by blast
  qed
qed

text \<open>C16: When the daemon opens the database, as root and for the first time, every user of the system gets a
  record: the files that were in the directory are read, a user without one gets an empty file with
  the name in it, written as text and read back by the parser, and no other user appears. Memory and
  directory then agree.\<close>

theorem sync_adds_users:
  assumes first: "ctx db = Null_ptr" and root: "uo_getuid os = 0" and d: "dir_ok os (dirents db)"
    and prep: "prepare_db os" and o: "uo_opendir os" and pws: "uo_getpwent os = map Pw_entry pws"
    and ini: "ini_documented (ini_events os)" and can: "\<forall>n \<in> pw_name ` set pws. can_create os n"
  shows "\<exists>db' c'. user_db_init os db = Inr (True, db') \<and> in_sync os db' c' \<and> ref_count c' = 1 \<and>
    (\<forall>m. good_name m \<longrightarrow> user_named m c' =
       (case map_of (dirents db) (user_file m) of
          Some body \<Rightarrow> Some (parse_user os body)
        | None \<Rightarrow> if m \<in> pw_name ` set pws then Some \<lparr>u_name = Some m, additional = []\<rparr> else None))"
proof -
  let ?c0 = "\<lparr>started_uid = uo_getuid os, users = [], loaded_from_fs = False, ref_count = 0\<rparr>"
  let ?db0 = "set_ctx ?c0 db"
  have names: "list_users (uo_getpwent os) = Some (map pw_name pws)" using pws list_users_entries by blast
  have start: "ctx ?db0 = Live_ptr ?c0" "dirents ?db0 = dirents db" by (simp_all add: set_ctx_def)
  obtain db1 c1 where sync: "user_db_sync os ?db0 = Inr (True, db1)" "in_sync os db1 c1"
    and files: "\<And>m. good_name m \<Longrightarrow> map_option (parse_user os) (map_of (dirents db1) (user_file m)) =
       (case map_of (dirents db) (user_file m) of
          Some body \<Rightarrow> Some (parse_user os body)
        | None \<Rightarrow> if m \<in> pw_name ` set pws then Some \<lparr>u_name = Some m, additional = []\<rparr> else None)"
    using sync_adds_names [OF start(1) _ _ _ prep o names ini] root d can start(2) by auto
  have ctx1: "ctx db1 = Live_ptr c1" using sync(2) by (simp add: in_sync_def)
  have "started_uid c1 = 0"
    using user_db_sync_ok [OF start(1) _ sync(1)] ctx1 root by (auto simp: users_ok_def)
  then have "user_db_init os db = Inr (True, set_ctx (c1\<lparr>ref_count := 1\<rparr>) db1)"
    using first root sync(1) ctx1 by (simp add: user_db_init_def Let_def)
  moreover have "in_sync os (set_ctx (c1\<lparr>ref_count := 1\<rparr>) db1) (c1\<lparr>ref_count := 1\<rparr>)"
    using sync(2) by (simp add: in_sync_def set_ctx_def)
  ultimately show ?thesis using files sync(2)
    by (intro exI [of _ "set_ctx (c1\<lparr>ref_count := 1\<rparr>) db1"] exI [of _ "c1\<lparr>ref_count := 1\<rparr>"])
       (simp add: in_sync_def)
qed

lemma sync_adds_users_witness:
  "\<exists>db' c'. user_db_init (bob_os 0) \<lparr>ctx = Null_ptr, dirents = []\<rparr> = Inr (True, db') \<and> in_sync (bob_os 0) db' c' \<and>
     user_named ''bob'' c' = Some \<lparr>u_name = Some ''bob'', additional = []\<rparr>"
proof -
  have can: "\<forall>n \<in> pw_name ` set [bob]. can_create (bob_os 0) n"
    using bob_good bob_may_write bob_plain(1) by (simp add: can_create_def bob_def)
  have os: "uo_getuid (bob_os 0) = 0" "prepare_db (bob_os 0)" "uo_opendir (bob_os 0)" "uo_getpwent (bob_os 0) = map Pw_entry [bob]"
    by (simp_all add: prepare_db_def bob_os_def)
  have "dir_ok (bob_os 0) (dirents \<lparr>ctx = Null_ptr, dirents = []\<rparr>)" by (simp add: dir_ok_def)
  from sync_adds_users [OF _ os(1) this os(2-4) bob_ini can] bob_good show ?thesis
    by (fastforce simp: bob_def)
qed

text \<open>C33: Removing a field, on every branch. A field that is not there: nothing happens. The last
  field: it is removed. Any other: the field stays, the one after it is lost, and the loop reads
  the element past the end of the block.\<close>

theorem user_pair_remove_branches:
  "user_pair_remove past name u =
     (case find_index (\<lambda>p. p_name p = name) (additional u) of
        None \<Rightarrow> Inr u
      | Some i \<Rightarrow>
          if Suc i = length (additional u) then Inr (u\<lparr>additional := butlast (additional u)\<rparr>)
          else bindR (deref past Out_Of_Bounds)
                 (\<lambda>_. Inr (u\<lparr>additional := take (Suc i) (additional u) @ drop (i + 2) (additional u)\<rparr>)))"
proof (cases "find_index (\<lambda>p. p_name p = name) (additional u)")
  case None
  then have "user_pair_remove past name u = Inr u" by (simp add: pair_remove_absent)
  then show ?thesis unfolding None by simp
next
  case (Some i)
  let ?ps = "additional u"
  from Some have i: "i < length ?ps" "p_name (?ps ! i) = name" "\<forall>j < i. p_name (?ps ! j) \<noteq> name"
    by (auto dest: find_index_SomeD)
  have split: "?ps = take i ?ps @ ?ps ! i # drop (Suc i) ?ps"
    using i(1) by (simp add: id_take_nth_drop [symmetric])
  have "\<forall>x \<in> set (take i ?ps). p_name x \<noteq> name"
    using i by (auto simp: in_set_conv_nth)
  note cases = pair_remove_cases [OF split i(2) this, of past]
  have "take i ?ps @ ?ps ! i # tl (drop (Suc i) ?ps) = take (Suc i) ?ps @ drop (i + 2) ?ps"
    using i(1) by (simp add: take_Suc_conv_app_nth tl_drop drop_Suc)
  moreover have "butlast ?ps = take i ?ps" if "Suc i = length ?ps"
    using that by (simp add: butlast_conv_take flip: that)
  ultimately show ?thesis using Some i(1) by (simp add: cases)
qed

text \<open>The first initialisation, when it succeeds, leaves a good list behind one reference.\<close>

lemma first_init:
  assumes "ctx db = Null_ptr" and "user_db_init os db = Inr (True, db')"
  shows "\<exists>c. ctx db' = Live_ptr c \<and> users_ok os c \<and> ref_count c = 1"
proof -
  let ?c0 = "\<lparr>started_uid = uo_getuid os, users = [], loaded_from_fs = False, ref_count = 0\<rparr>"
  let ?db0 = "set_ctx ?c0 db"
  have ok0: "users_ok os ?c0" by (simp add: users_ok_def)
  obtain db1 c1 where first: "(if uo_getuid os = 0 then bindR (user_db_sync os ?db0) (\<lambda>(_, d). Inr d)
        else Inr (set_ctx (snd (load_from_fs os ?db0 ?c0)) ?db0)) = Inr db1"
    and c1: "ctx db1 = Live_ptr c1" and last: "db' = set_ctx (c1\<lparr>ref_count := 1\<rparr>) db1"
    using assms by (auto simp: user_db_init_def Let_def gderef_eq_Inr elim!: bindR_InrE split: if_splits)
  have "users_ok os c1"
  proof (cases "uo_getuid os = 0")
    case True
    with first obtain k where "user_db_sync os ?db0 = Inr (k, db1)" by (auto elim!: bindR_InrE)
    with ok0 c1 show ?thesis using user_db_sync_ok [of ?db0 ?c0 os k db1] by (auto simp: set_ctx_def)
  next
    case False
    with first c1 load_from_fs_ok [OF ok0] show ?thesis
      by (cases "load_from_fs os ?db0 ?c0") (auto simp: set_ctx_def)
  qed
  then show ?thesis using last by (simp add: set_ctx_def users_ok_def)
qed

text \<open>As root it cannot fail, whatever the files.\<close>

lemma root_init:
  assumes "ctx db = Null_ptr" and "user_db_init os db = Inr (k, db')" and "uo_getuid os = 0"
  shows "\<exists>c. ctx db' = Live_ptr c \<and> users_ok os c"
proof -
  let ?c0 = "\<lparr>started_uid = uo_getuid os, users = [], loaded_from_fs = False, ref_count = 0\<rparr>"
  have start: "ctx (set_ctx ?c0 db) = Live_ptr ?c0" "users_ok os ?c0" by (simp_all add: set_ctx_def users_ok_def)
  from assms obtain j db1 c1 where "user_db_sync os (set_ctx ?c0 db) = Inr (j, db1)"
    and c1: "ctx db1 = Live_ptr c1" and k: "k = (\<not> (users c1 = [] \<and> started_uid c1 \<noteq> 0))"
    by (auto simp: user_db_init_def Let_def gderef_eq_Inr elim!: bindR_InrE split: if_splits)
  with user_db_sync_ok [OF start] assms(3) have "started_uid c1 = 0" by fastforce
  with k assms(2) have "user_db_init os db = Inr (True, db')" by simp
  from first_init [OF assms(1) this] show ?thesis by blast
qed

text \<open>C30: Initialising the library loads a list in which every user has a name the system knows and
  no name appears twice; the reference counter is one, and a matching shutdown releases it.\<close>

theorem init_users_ok:
  assumes "ctx db = Null_ptr" and "user_db_init os db = Inr (True, db')"
  shows "\<exists>c. ctx db' = Live_ptr c \<and> users_ok os c \<and> ref_count c = 1 \<and>
    user_db_shutdown db' = Inr (db'\<lparr>ctx := Null_ptr\<rparr>)"
  using first_init [OF assms] by (auto simp: user_db_shutdown_def)

lemma init_users_ok_witness:
  "\<exists>c. ctx (snd (projr (user_db_init (bob_os 1000) (bob_db\<lparr>ctx := Null_ptr\<rparr>)))) = Live_ptr c \<and>
     users_ok (bob_os 1000) c \<and> ref_count c = 1"
proof -
  have a: "ini_file ''bob.ini''" by (simp add: ini_file_def INI_def)
  have "\<exists>d. user_db_init (bob_os 1000) (bob_db\<lparr>ctx := Null_ptr\<rparr>) = Inr (True, d)"
    using bob_parse [of 1000] a
    by (simp add: user_db_init_def bob_db_def set_ctx_def load_from_fs_def load_file_def Let_def
        user_find_def) (simp add: bob_os_def)
  then obtain d where d: "user_db_init (bob_os 1000) (bob_db\<lparr>ctx := Null_ptr\<rparr>) = Inr (True, d)" ..
  from init_users_ok [OF _ d] show ?thesis by (auto simp: d)
qed

text \<open>When the first initialisation fails, the freed context stays reachable through the global
  pointer, and every later operation of the library dereferences it.\<close>

theorem init_failure_dangles:
  assumes "user_db_init os db = Inr (False, db')"
  shows "ctx db' = Dangling_ptr \<and> user_db_init os db' = Inl Use_After_Free \<and>
    user_db_shutdown db' = Inl Use_After_Free \<and> user_db_users_iterate db' = Inl Use_After_Free \<and>
    user_db_user_exists (Some n) db' = Inl Use_After_Free"
  using assms
  by (auto simp: user_db_init_def set_ctx_def user_db_shutdown_def user_db_users_iterate_def
      user_db_user_exists_def Let_def elim!: bindR_InrE split: gptr.splits if_splits prod.splits)

lemma init_failure_dangles_witness:
  "user_db_init (bob_os 1000) (snd (projr (user_db_init (bob_os 1000) \<lparr>ctx = Null_ptr, dirents = []\<rparr>))) =
   Inl Use_After_Free"
proof -
  have "user_db_init (bob_os 1000) \<lparr>ctx = Null_ptr, dirents = []\<rparr> =
      Inr (False, \<lparr>ctx = Dangling_ptr, dirents = []\<rparr>)"
    by (simp add: user_db_init_def set_ctx_def load_from_fs_def bob_os_def Let_def)
  from init_failure_dangles [OF this] this show ?thesis by simp
qed

end
