(* ===== verification/Sockets.thy ===== *)
theory Sockets
  imports Types
begin

section \<open>The service socket: \<open>sp-protocol/socket_creation.c\<close>, \<open>util/mkpath.c\<close>\<close>

text \<open>
  Both ends of the connection: where the socket is, how it is made and how a client connects to
  it; and the recursive creation of the directory it lies in. The answers of the system calls
  are the record \<open>socket_os\<close>; a call that can be made more than once is given the trace of
  what was done before it, so its answer may change.
\<close>

record socket_os =
  so_listen_fds :: int
  so_socket :: int
  so_bind :: bool
  so_listen :: bool
  so_chmod :: bool
  so_connect :: "string \<Rightarrow> bool"
  so_readable :: "effect list \<Rightarrow> string \<Rightarrow> bool"
  so_mkdir :: "effect list \<Rightarrow> string \<Rightarrow> bool"

abbreviation emit_sys :: "sys_op \<Rightarrow> 'a world_scheme \<Rightarrow> 'a world_scheme" where
  "emit_sys p \<equiv> emit (Sys p)"

subsection \<open>\<open>mkpath\<close>\<close>

text \<open>
  \<open>access\<close> changes nothing, so a path that is its own parent and not readable makes the function
  call itself with the same argument in the same state, for ever.
\<close>

definition mkdir_last :: "'b socket_os_scheme \<Rightarrow> string \<Rightarrow> 'a world_scheme \<Rightarrow> int \<times> 'a world_scheme" where
  "mkdir_last so path s =
     (if so_mkdir so (trace s) path then (0, emit_sys (Made_dir path) s) else (-1, s))"

function mkpath :: "'b socket_os_scheme \<Rightarrow> string \<Rightarrow> 'a world_scheme \<Rightarrow> (int \<times> 'a world_scheme) res" where
  "mkpath so path s =
     (let dir = c_dirname path
      in if so_readable so (trace s) dir then Inr (mkdir_last so path s)
         else if dir = path then Inl Stack_Overflow
         else bindR (mkpath so dir s)
                (\<lambda>(ret, s1). if ret = -1 then Inr (-1, s1) else Inr (mkdir_last so path s1)))"
  by pat_completeness auto
termination
proof (relation "measure (\<lambda>(so, path, s). if path = ''.'' then 0 else if path = ''/'' then 1 else length path + 2)",
    goal_cases)
  case (2 so path s dir)
  then have "path \<noteq> ''.''" "path \<noteq> ''/''" by (auto simp: c_dirname_roots)
  with 2 c_dirname_cases [of path] show ?case by auto
qed simp

declare mkpath.simps [simp del]

subsection \<open>Addresses\<close>

definition SP_SERVER_SOCKET :: string where
  "SP_SERVER_SOCKET = ''/run/spawny/spawny.service''"
definition SP_SERVER_DEBUG_SOCKET :: string where
  "SP_SERVER_DEBUG_SOCKET = ''/run/spawny/spawny-debug.service''"

definition sp_service_path_get :: "bool \<Rightarrow> string" where
  "sp_service_path_get dbg = (if dbg then SP_SERVER_DEBUG_SOCKET else SP_SERVER_SOCKET)"

record sockaddr_un =
  sun_family :: int
  sun_path :: string

definition AF_UNIX :: int where "AF_UNIX = 1"

definition sp_service_address_setup :: "bool \<Rightarrow> sockaddr_un" where
  "sp_service_address_setup dbg =
     \<lparr>sun_family = AF_UNIX, sun_path = snprintf 108 (sp_service_path_get dbg)\<rparr>"

definition sp_service_socket_create :: "'b socket_os_scheme \<Rightarrow> int" where
  "sp_service_socket_create so = (if so_socket so < 0 then -1 else so_socket so)"

definition sp_service_connect ::
  "'b socket_os_scheme \<Rightarrow> bool \<Rightarrow> 'a world_scheme \<Rightarrow> int \<times> 'a world_scheme" where
  "sp_service_connect so dbg s =
     (let fd = sp_service_socket_create so
      in if fd < 0 then (-1, s)
         else if \<not> so_connect so (sun_path (sp_service_address_setup dbg))
         then (-1, emit (Closed fd) s)
         else (fd, s))"

lemma address_is_path: "sun_path (sp_service_address_setup dbg) = sp_service_path_get dbg"
  by (simp add: sp_service_address_setup_def sp_service_path_get_def SP_SERVER_SOCKET_def
      SP_SERVER_DEBUG_SOCKET_def snprintf_def)

lemma mkpath_ret: "mkpath so path s = Inr (ret, u) \<Longrightarrow> ret = 0 \<or> ret = -1"
  by (subst (asm) mkpath.simps)
     (auto simp: Let_def mkdir_last_def elim!: bindR_InrE split: if_splits)

subsection \<open>A file system under \<open>mkpath\<close>\<close>

text \<open>
  An absolute path in normal form is the list of its components. \<open>dirs\<close> are the directories that exist
  after some effects, when \<open>fs\<close> was there at the start. \<open>files_ok\<close> is what POSIX says of \<open>access\<close> and \<open>mkdir\<close>
  for a caller who may do everything: a directory is readable if it exists, and can be made if its
  parent exists and it does not.
\<close>

definition component :: "string \<Rightarrow> bool" where
  "component c \<longleftrightarrow> c \<noteq> [] \<and> CHR ''/'' \<notin> set c \<and> c \<noteq> ''.'' \<and> c \<noteq> ''..''"

definition abs_path :: "string list \<Rightarrow> string" where
  "abs_path cs = (if cs = [] then ''/'' else concat (map ((#) (CHR ''/'')) cs))"

definition dir_effect :: "effect \<Rightarrow> string set \<Rightarrow> string set" where
  "dir_effect e D = (case e of Sys (Made_dir d) \<Rightarrow> insert d D | Sys (Removed_dir d) \<Rightarrow> D - {d} | _ \<Rightarrow> D)"

definition dirs :: "string set \<Rightarrow> effect list \<Rightarrow> string set" where
  "dirs fs tr = fold dir_effect tr fs"

definition files_ok :: "'b socket_os_scheme \<Rightarrow> string set \<Rightarrow> bool" where
  "files_ok so fs \<longleftrightarrow> (\<forall>tr cs. (\<forall>c \<in> set cs. component c) \<longrightarrow>
     (so_readable so tr (abs_path cs) \<longleftrightarrow> abs_path cs \<in> dirs fs tr) \<and>
     (cs \<noteq> [] \<longrightarrow> (so_mkdir so tr (abs_path cs) \<longleftrightarrow> abs_path (butlast cs) \<in> dirs fs tr \<and> abs_path cs \<notin> dirs fs tr)))"

definition tree :: "string set \<Rightarrow> bool" where
  "tree D \<longleftrightarrow> ''/'' \<in> D \<and>
     (\<forall>cs c. (\<forall>x \<in> set (cs @ [c]). component x) \<longrightarrow> abs_path (cs @ [c]) \<in> D \<longrightarrow> abs_path cs \<in> D)"

text \<open>The parts of a path, from the outermost directory to the path itself, and those that are missing.\<close>

definition parts :: "string list \<Rightarrow> string list" where
  "parts cs = map (\<lambda>i. abs_path (take i cs)) [1..<Suc (length cs)]"

definition missing :: "string set \<Rightarrow> string list \<Rightarrow> string list" where
  "missing D cs = filter (\<lambda>d. d \<notin> D) (parts cs)"

lemma strip_slashes_snoc:
  "strip_slashes (x @ ''/'') = strip_slashes x" "c \<noteq> CHR ''/'' \<Longrightarrow> strip_slashes (x @ [c]) = x @ [c]"
  by (simp_all add: strip_slashes_def)

lemma strip_slashes_component:
  assumes "component c"
  shows "strip_slashes (x @ c) = x @ c"
proof -
  obtain y a where y: "c = y @ [a]" using assms by (cases c rule: rev_cases) (auto simp: component_def)
  then have "a \<noteq> CHR ''/''" using assms by (auto simp: component_def)
  with strip_slashes_snoc(2) [of a "x @ y"] y show ?thesis by simp
qed

lemma abs_path_snoc: "abs_path (cs @ [c]) = (if cs = [] then [] else abs_path cs) @ ''/'' @ c"
  by (simp add: abs_path_def)

lemma abs_path_strip: "\<forall>c \<in> set cs. component c \<Longrightarrow> cs \<noteq> [] \<Longrightarrow> strip_slashes (abs_path cs) = abs_path cs"
  using append_butlast_last_id [of cs] strip_slashes_component [of "last cs" "_ @ ''/''"] abs_path_snoc [of "butlast cs" "last cs"]
  by (metis append.assoc last_in_set)

lemma dirname_abs:
  assumes "\<forall>c \<in> set cs. component c" "component c"
  shows "c_dirname (abs_path (cs @ [c])) = abs_path cs"
proof -
  let ?x = "if cs = [] then [] else abs_path cs"
  have p: "abs_path (cs @ [c]) = (?x @ ''/'') @ c" by (simp add: abs_path_snoc)
  have b: "rev (dropWhile (\<lambda>c. c \<noteq> CHR ''/'') (rev ((?x @ ''/'') @ c))) = ?x @ ''/''"
    using assms(2) by (subst rev_append, subst dropWhile_append2) (auto simp: component_def)
  have x: "strip_slashes (?x @ ''/'') = ?x"
    unfolding strip_slashes_snoc(1) using abs_path_strip [OF assms(1)] by (simp add: strip_slashes_def)
  show ?thesis
    unfolding c_dirname_def Let_def p strip_slashes_component [OF assms(2)] b x by (auto simp: abs_path_def neq_Nil_conv)
qed

lemma parts_snoc: "parts (cs @ [c]) = parts cs @ [abs_path (cs @ [c])]"
proof -
  have "map (\<lambda>i. abs_path (take i (cs @ [c]))) [1..<Suc (length cs)] = parts cs"
    unfolding parts_def by (intro map_cong) auto
  then show ?thesis by (simp add: parts_def)
qed

lemma abs_path_shorter:
  assumes "x \<in> set (parts cs)" "component c"
  shows "length x < length (abs_path (cs @ [c]))"
  using assms
proof (induction cs arbitrary: c rule: rev_induct)
  case Nil
  then show ?case by (simp add: parts_def)
next
  case (snoc d cs)
  have "length (abs_path (cs @ [d])) < length (abs_path ((cs @ [d]) @ [c]))"
    by (subst (2) abs_path_snoc) simp
  moreover have "length x \<le> length (abs_path (cs @ [d]))"
  proof (cases "x = abs_path (cs @ [d])")
    case False
    then have "x \<in> set (parts cs)" using snoc.prems(1) by (simp add: parts_snoc)
    from snoc.IH [OF this, of "''a''"] show ?thesis by (simp add: component_def abs_path_snoc)
  qed simp
  ultimately show ?case by simp
qed

lemma dirs_made: "dirs fs (tr @ map (\<lambda>d. Sys (Made_dir d)) ds) = dirs fs tr \<union> set ds"
proof (induction ds rule: rev_induct)
  case (snoc d ds)
  then show ?case by (simp add: dirs_def dir_effect_def flip: append_assoc)
qed (simp add: dirs_def)

lemma tree_parts: "tree D \<Longrightarrow> \<forall>c \<in> set cs. component c \<Longrightarrow> abs_path cs \<in> D \<Longrightarrow> missing D cs = []"
proof (induction cs rule: rev_induct)
  case (snoc c cs)
  then have "abs_path cs \<in> D" unfolding tree_def by blast
  with snoc show ?case by (simp add: missing_def parts_snoc)
qed (simp add: missing_def parts_def)

lemma abs_path_not_root: "cs \<noteq> [] \<Longrightarrow> \<forall>c \<in> set cs. component c \<Longrightarrow> abs_path cs \<noteq> ''/''"
proof (induction cs rule: rev_induct)
  case (snoc c cs)
  then have "component c" by simp
  show ?case
  proof
    assume "abs_path (cs @ [c]) = ''/''"
    then have "length (abs_path (cs @ [c])) = 1" by simp
    with \<open>component c\<close> show False unfolding abs_path_snoc by (simp add: component_def)
  qed
qed simp

text \<open>The induction from the outermost directory inwards.\<close>

lemma mkpath_made:
  assumes "files_ok so fs" and "tree (dirs fs (trace s))" and "cs \<noteq> []" "\<forall>c \<in> set cs. component c"
  shows "\<exists>u. mkpath so (abs_path cs) s = Inr (if abs_path cs \<in> dirs fs (trace s) then -1 else 0, u) \<and>
    trace u = trace s @ map (\<lambda>d. Sys (Made_dir d)) (missing (dirs fs (trace s)) cs) \<and>
    set (parts cs) \<subseteq> dirs fs (trace u)"
  using assms(3,4)
proof (induction cs rule: rev_induct)
  case (snoc c cs)
  let ?D = "dirs fs (trace s)" and ?p = "abs_path (cs @ [c])"
  have cs: "\<forall>c \<in> set cs. component c" "component c" using snoc.prems by simp_all
  note dir = dirname_abs [OF cs]
  have readable: "so_readable so (trace s) (abs_path cs) \<longleftrightarrow> abs_path cs \<in> ?D"
    using assms(1) cs(1) by (simp add: files_ok_def)
  have able: "so_mkdir so tr ?p \<longleftrightarrow> abs_path cs \<in> dirs fs tr \<and> ?p \<notin> dirs fs tr" for tr
  proof -
    have "\<forall>d \<in> set (cs @ [c]). component d" "cs @ [c] \<noteq> []" using snoc.prems by simp_all
    with assms(1) have "so_mkdir so tr ?p \<longleftrightarrow> abs_path (butlast (cs @ [c])) \<in> dirs fs tr \<and> ?p \<notin> dirs fs tr"
      unfolding files_ok_def by blast
    then show ?thesis by simp
  qed
  have below: "set (parts (cs @ [c])) \<subseteq> ?D \<union> set (missing ?D (cs @ [c]))" by (auto simp: missing_def)
  show ?case
  proof (cases "abs_path cs \<in> ?D")
    case True
    have m: "missing ?D (cs @ [c]) = (if ?p \<in> ?D then [] else [?p])"
      using tree_parts [OF assms(2) cs(1) True] by (simp add: missing_def parts_snoc)
    have "mkpath so ?p s = Inr (mkdir_last so ?p s)"
      using True readable dir by (simp add: mkpath.simps [of so ?p s])
    moreover have "mkdir_last so ?p s = (if ?p \<in> ?D then (-1, s) else (0, emit_sys (Made_dir ?p) s))"
      using able [of "trace s"] True by (simp add: mkdir_last_def)
    ultimately show ?thesis using m below dirs_made [of fs "trace s" "missing ?D (cs @ [c])"] by auto
  next
    case False
    then have ne: "cs \<noteq> []" using assms(2) by (auto simp: tree_def abs_path_def)
    have new: "?p \<notin> ?D" using False assms(2) snoc.prems(2) unfolding tree_def by blast
    obtain u where u: "mkpath so (abs_path cs) s = Inr (0, u)"
      "trace u = trace s @ map (\<lambda>d. Sys (Made_dir d)) (missing ?D cs)"
      "set (parts cs) \<subseteq> dirs fs (trace u)"
      using snoc.IH [OF ne cs(1)] False by auto
    have m: "missing ?D (cs @ [c]) = missing ?D cs @ [?p]" using new by (simp add: missing_def parts_snoc)
    have "abs_path cs \<in> set (parts cs)" using parts_snoc [of "butlast cs" "last cs"] ne by simp
    moreover have "?p \<notin> dirs fs (trace u)"
      using abs_path_shorter [OF _ cs(2), of ?p cs] new unfolding u(2) dirs_made by (auto simp: missing_def)
    ultimately have "mkdir_last so ?p u = (0, emit_sys (Made_dir ?p) u)" using able [of "trace u"] u(3) by (auto simp: mkdir_last_def)
    moreover have "abs_path cs \<noteq> ?p" using ne by (simp add: abs_path_snoc)
    ultimately have run: "mkpath so ?p s = Inr (0, emit_sys (Made_dir ?p) u)"
      using False readable dir u(1) by (simp add: mkpath.simps [of so ?p s])
    have "trace (emit_sys (Made_dir ?p) u) = trace s @ map (\<lambda>d. Sys (Made_dir d)) (missing ?D (cs @ [c]))"
      using u(2) m by simp
    with run new below show ?thesis
      using dirs_made [of fs "trace s" "missing ?D (cs @ [c])"] by (intro exI [of _ "emit_sys (Made_dir ?p) u"]) simp
  qed
qed simp

subsection \<open>Properties\<close>

text \<open>C31: On a file system on which the caller may do everything, \<open>mkpath\<close> comes to an end and makes exactly
  those directories of the path that were missing, the path itself as the last, each after the one it
  lies in; afterwards every one of them exists. It reports success, unless the path was there
  before: then it makes nothing and reports a failure.\<close>

theorem mkpath_makes_the_path:
  assumes "files_ok so fs" and "tree (dirs fs (trace s))" and "cs \<noteq> []" "\<forall>c \<in> set cs. component c"
  shows "\<exists>u. mkpath so (abs_path cs) s = Inr (if abs_path cs \<in> dirs fs (trace s) then -1 else 0, u) \<and>
    trace u = trace s @ map (\<lambda>d. Sys (Made_dir d)) (missing (dirs fs (trace s)) cs) \<and>
    set (parts cs) \<subseteq> dirs fs (trace u)"
  using mkpath_made [OF assms] .

definition example_socket :: socket_os where
  "example_socket = \<lparr>so_listen_fds = 0, so_socket = 3, so_bind = True, so_listen = True, so_chmod = True,
     so_connect = (\<lambda>_. True), so_readable = (\<lambda>tr d. d \<in> dirs {''/''} tr),
     so_mkdir = (\<lambda>tr d. c_dirname d \<in> dirs {''/''} tr \<and> d \<notin> dirs {''/''} tr)\<rparr>"

lemma example_files: "files_ok example_socket {''/''}"
proof -
  have "c_dirname (abs_path cs) = abs_path (butlast cs)" if "\<forall>c \<in> set cs. component c" "cs \<noteq> []" for cs
    using that dirname_abs [of "butlast cs" "last cs"] by (metis append_butlast_last_id in_set_butlastD last_in_set)
  then show ?thesis by (simp add: files_ok_def example_socket_def)
qed

lemma example_tree: "tree {''/''}"
  using abs_path_not_root [of "_ @ [_]"] by (force simp: tree_def)

definition example_world :: world where
  "example_world = \<lparr>debug = False, no_greeter_restart = False, trace = [], nforks = 0, npipes = 0,
     nreads = 0, naccepts = 0\<rparr>"

lemma mkpath_makes_the_path_witness:
  "\<exists>u. mkpath example_socket ''/run/spawny'' example_world = Inr (0, u) \<and>
     trace u = [Sys (Made_dir ''/run''), Sys (Made_dir ''/run/spawny'')]"
proof -
  have cs: "\<forall>c \<in> set [''run'', ''spawny'']. component c" by (simp add: component_def)
  have p: "abs_path [''run'', ''spawny''] = ''/run/spawny''" by (simp add: abs_path_def)
  have start: "dirs {''/''} (trace example_world) = {''/''}" by (simp add: example_world_def dirs_def)
  have "missing {''/''} [''run'', ''spawny''] = [''/run'', ''/run/spawny'']"
    by (simp add: missing_def parts_def abs_path_def upt_rec)
  with mkpath_makes_the_path [OF example_files _ _ cs, of example_world] example_tree start p show ?thesis
    by (auto simp: example_world_def)
qed

end
