(* ===== verification/Server.thy ===== *)
theory Server
  imports Greeter UserDb Sockets
begin

section \<open>Clients and their requests: \<open>sp-daemon/server.c\<close>\<close>

text \<open>
  The state of the whole daemon. A \<open>Client\<close> lives on the heap \<open>clients\<close> from \<open>client_connect\<close>
  to \<open>client_free\<close>; addresses are not reused, so touching a freed one is \<open>Use_After_Free\<close>.

  What a client may ask is decided by \<open>client_is_greeter\<close>: \<open>HELLO\<close>, \<open>SESSION_ACTIVATION\<close> and
  \<open>LOGIN_TRY\<close> are for greeters (or anybody in debug mode), \<open>GREETER_START\<close> for every process
  that is alive.
\<close>

record client =
  cl_fd :: int
  cl_pid :: int
  cl_try :: "nat option"

record daemon = greeter_state +
  clients :: "nat \<Rightarrow> client option"
  next_client :: nat
  server_sock :: int
  udb :: user_db

definition FALLBACK_SEAT :: string where "FALLBACK_SEAT = ''seat0''"

subsection \<open>Answers\<close>

definition send_message ::
  "server_message_type \<Rightarrow> request_feedback option \<Rightarrow> server_data option \<Rightarrow> int \<Rightarrow>
    'a world_scheme \<Rightarrow> 'a world_scheme" where
  "send_message ty fb data fd = emit (Sent fd \<lparr>sm_type = ty, sm_feedback = fb, sm_data = data\<rparr>)"

definition server_spawnservice_feedback ::
  "bool \<Rightarrow> string option \<Rightarrow> int \<Rightarrow> 'a world_scheme \<Rightarrow> 'a world_scheme" where
  "server_spawnservice_feedback success message fd =
     send_message LOGIN_FEEDBACK (Some \<lparr>fb_success = success, fb_msg = message\<rparr>) None fd"

definition upd_client :: "nat \<Rightarrow> (client \<Rightarrow> client) \<Rightarrow> 'a daemon_scheme \<Rightarrow> 'a daemon_scheme" where
  "upd_client c f s = s\<lparr>clients := (clients s)(c := map_option f (clients s c))\<rparr>"

definition get_client :: "nat \<Rightarrow> 'a daemon_scheme \<Rightarrow> client res" where
  "get_client c s = deref (clients s c) Use_After_Free"

definition client_free :: "nat \<Rightarrow> 'a daemon_scheme \<Rightarrow> 'a daemon_scheme res" where
  "client_free c s =
     bindR (get_client c s)
       (\<lambda>cl. let s1 = emit (Closed (cl_fd cl)) (manager_unregister_fd (cl_fd cl) s)
             in Inr (s1\<lparr>clients := (clients s1)(c := None)\<rparr>))"

definition client_goodbye :: "nat \<Rightarrow> 'a daemon_scheme \<Rightarrow> 'a daemon_scheme res" where
  "client_goodbye c s =
     bindR (get_client c s) (\<lambda>cl. client_free c (send_message LEAVE None None (cl_fd cl) s))"

definition session_done :: "os \<Rightarrow> ref \<Rightarrow> spawn_end \<Rightarrow> 'a daemon_scheme \<Rightarrow> 'a daemon_scheme res" where
  "session_done os data end s =
     (case data of
        Client_ref c \<Rightarrow>
          bindR (get_client c s)
            (\<lambda>cl. if end_success end = SPAWN_SERVICE_ERROR then
                    Inr (upd_client c (\<lambda>x. x\<lparr>cl_try := None\<rparr>)
                          (server_spawnservice_feedback False (end_message end) (cl_fd cl) s))
                  else
                    bindR (greeter_lockout (seat_get os (cl_pid cl)) s)
                      (\<lambda>s1. client_goodbye c
                        (upd_client c (\<lambda>x. x\<lparr>cl_try := None\<rparr>)
                          (server_spawnservice_feedback True (Some ''You are logged in!'') (cl_fd cl) s1))))
      | _ \<Rightarrow> Inl Null_Deref)"

text \<open>The two callbacks that a try can have, and \<open>greeter_activate\<close> with both of them tied in.\<close>

definition activate_greeter :: "os \<Rightarrow> string \<Rightarrow> 'a daemon_scheme \<Rightarrow> 'a daemon_scheme res" where
  "activate_greeter os = greeter_activate (session_done os) os greeter_fuel"

definition try_done ::
  "os \<Rightarrow> done_fn \<Rightarrow> ref \<Rightarrow> spawn_end \<Rightarrow> 'a daemon_scheme \<Rightarrow> 'a daemon_scheme res" where
  "try_done os cb d e =
     (case cb of
        Greeter_start_done \<Rightarrow> greeter_start_done_with (activate_greeter os) d e
      | Session_done \<Rightarrow> session_done os d e)"

definition client_is_greeter :: "os \<Rightarrow> client \<Rightarrow> 'a daemon_scheme \<Rightarrow> bool res" where
  "client_is_greeter os cl s =
     (if debug s then Inr True else greeter_exists_sid os (getsid os (cl_pid cl)) s)"

subsection \<open>The data sent to a greeter\<close>

text \<open>
  The loop of \<open>_load_sessions\<close>: \<open>i\<close> is the index into the raw list, \<open>offset\<close> the number of
  sessions dropped so far, \<open>slots\<close> the array of pointers (shrunk by \<open>realloc\<close> when a session has
  no details, with NULL where nothing was stored).
\<close>

definition new_session :: server_session where
  "new_session = \<lparr>ses_id = None, ses_user = None, ses_name = None, ses_icon = None\<rparr>"

fun load_sessions_loop ::
  "os \<Rightarrow> nat \<Rightarrow> string list \<Rightarrow> nat \<Rightarrow> nat \<Rightarrow> server_session option list \<Rightarrow>
    (nat \<times> server_session option list) res" where
  "load_sessions_loop os number [] i offset slots = Inr (offset, slots)"
| "load_sessions_loop os number (raw # raws) i offset slots =
     (if \<not> i - offset < length slots then Inl Out_Of_Bounds
      else let slots1 = slots[i - offset := Some new_session]
           in bindR (session_details os (Some raw) True True)
                (\<lambda>d. if \<not> det_ok d then
                       load_sessions_loop os number raws (Suc i) (Suc offset)
                         (take (number - Suc offset) (slots1[i - offset := None]))
                     else bindR (read_cell (det_uid d))
                       (\<lambda>uid. bindR (deref (getpwnam os SP_USER) Null_Deref)
                         (\<lambda>start_user.
                            if uid = pw_uid start_user then
                              load_sessions_loop os number raws (Suc i) (Suc offset) slots1
                            else bindR (deref (getpwuid os uid) Null_Deref)
                              (\<lambda>user. load_sessions_loop os number raws (Suc i) offset
                                 (slots1[i - offset := Some \<lparr>ses_id = Some raw,
                                    ses_user = Some (pw_name user), ses_name = det_name d,
                                    ses_icon = None\<rparr>]))))))"

definition load_sessions :: "os \<Rightarrow> string option \<Rightarrow> server_session option list res" where
  "load_sessions os seat =
     (let raws = session_enumerate os seat; number = length raws
      in bindR (load_sessions_loop os number raws 0 0 (replicate number None))
           (\<lambda>(offset, slots). Inr (take (number - offset) slots)))"

definition load_user :: "os \<Rightarrow> user_db \<Rightarrow> string \<Rightarrow> server_user res" where
  "load_user os db name =
     bindR (user_db_field_get (Some name) (Some ''icon'') db)
       (\<lambda>icon. bindR (deref (getpwnam os name) Null_Deref)
         (\<lambda>pass. bindR (user_db_field_get (Some name) (Some ''prefered-session'') db)
           (\<lambda>pref. Inr \<lparr>usr_uid = pw_uid pass, usr_name = Some (pw_name pass), usr_icon = icon,
                        usr_prefered_session = pref\<rparr>)))"

definition load_users :: "os \<Rightarrow> user_db \<Rightarrow> server_user list res" where
  "load_users os db =
     bindR (user_db_users_iterate db)
       (\<lambda>names. foldR (\<lambda>n us. bindR (load_user os db n) (\<lambda>u. Inr (us @ [u]))) names [])"

definition load_templates :: "'a templates_scheme \<Rightarrow> server_template list res" where
  "load_templates s =
     bindR (template_get s)
       (\<lambda>ids. foldR (\<lambda>tid ts. bindR (template_details_get tid s)
                 (\<lambda>r. Inr (ts @ [case r of
                        None \<Rightarrow> \<lparr>tmpl_id = Some tid, tmpl_name = None, tmpl_icon = None\<rparr>
                      | Some (name, icon, _) \<Rightarrow>
                          \<lparr>tmpl_id = Some tid, tmpl_name = Some name, tmpl_icon = icon\<rparr>]))) ids [])"

text \<open>Packing the answer dereferences every session.\<close>

definition load_data :: "os \<Rightarrow> string option \<Rightarrow> 'a daemon_scheme \<Rightarrow> server_data res" where
  "load_data os seat s =
     bindR (load_templates s)
       (\<lambda>ts. bindR (load_users os (udb s))
         (\<lambda>us. bindR (load_sessions os seat)
           (\<lambda>slots. bindR (foldR (\<lambda>x xs. bindR (deref x Null_Deref) (\<lambda>y. Inr (xs @ [y]))) slots [])
             (\<lambda>ss. Inr \<lparr>data_templates = ts, data_sessions = ss, data_users = us\<rparr>))))"

subsection \<open>Requests\<close>

text \<open>The macro \<open>SAFE_CALL\<close>: whoever is not a greeter is dropped.\<close>

definition SAFE_CALL ::
  "os \<Rightarrow> nat \<Rightarrow> ('a daemon_scheme \<Rightarrow> 'a daemon_scheme res) \<Rightarrow> 'a daemon_scheme \<Rightarrow> 'a daemon_scheme res" where
  "SAFE_CALL os c body s =
     bindR (get_client c s)
       (\<lambda>cl. bindR (client_is_greeter os cl s)
         (\<lambda>ok. if \<not> ok then client_free c s else body s))"

definition handle_hello :: "os \<Rightarrow> string option \<Rightarrow> int \<Rightarrow> 'a daemon_scheme \<Rightarrow> 'a daemon_scheme res" where
  "handle_hello os seat fd s =
     bindR (load_data os seat s)
       (\<lambda>system_data. Inr (send_message DATA_UPDATE None (Some system_data) fd s))"

definition handle_activation ::
  "os \<Rightarrow> nat \<Rightarrow> string option \<Rightarrow> string option \<Rightarrow> int \<Rightarrow> 'a daemon_scheme \<Rightarrow> 'a daemon_scheme res" where
  "handle_activation os c session seat fd s =
     bindR (session_details os session False False)
       (\<lambda>d. if \<not> det_ok d then
              Inr (server_spawnservice_feedback False (Some ''Session not found'') fd s)
            else
              bindR (greeter_lockout seat
                       (server_spawnservice_feedback False
                         (Some ''Activation is called on this session'') fd
                         (session_activate session s)))
                (client_goodbye c))"

text \<open>When the template is unknown, its two fields of \<open>settings\<close> are left as they were on the stack.\<close>

definition login_settings :: "(string \<times> string option \<times> string) option \<Rightarrow> string option \<Rightarrow> xdg_settings" where
  "login_settings details seat =
     (case details of
        None \<Rightarrow> \<lparr>session_type = Indet, session_desktop = Indet, session_seat = Val seat\<rparr>
      | Some (name, _, type) \<Rightarrow>
          \<lparr>session_type = Val (Some type), session_desktop = Val (Some name), session_seat = Val seat\<rparr>)"

definition handle_login ::
  "os \<Rightarrow> nat \<Rightarrow> greeter_login option \<Rightarrow> string option \<Rightarrow> int \<Rightarrow> 'a daemon_scheme \<Rightarrow> 'a daemon_scheme res" where
  "handle_login os c login seat fd s =
     bindR (get_client c s)
       (\<lambda>cl. if cl_try cl \<noteq> None then
               Inr (server_spawnservice_feedback False (Some ''There is already a login try!'') fd s)
             else
               bindR (deref login Null_Deref)
                 (\<lambda>l. bindR (template_details_get (login_template_id l) s)
                   (\<lambda>details. bindR (spawnservice_spawn os (try_done os) Session_done (Client_ref c)
                        (Session_job (login_template_id l)) (Some Reexecute_greeter) SP_PAM_SERVICE
                        (login_user l) (Some (login_password l)) (Some (login_settings details seat)) s)
                     (\<lambda>(t, s1). bindR (get_client c s1)
                       (\<lambda>_. let s2 = upd_client c (\<lambda>x. x\<lparr>cl_try := t\<rparr>) s1
                            in Inr (if t = None
                                    then server_spawnservice_feedback False (Some ''spawn failed.'') fd s2
                                    else s2))))))"

definition handle_start ::
  "os \<Rightarrow> nat \<Rightarrow> string option \<Rightarrow> 'a daemon_scheme \<Rightarrow> 'a daemon_scheme res" where
  "handle_start os c seat s =
     bindR (get_client c s)
       (\<lambda>cl. if kill_probe os (cl_pid cl) = -1 then client_free c s
             else bindR (activate_greeter os (case seat of None \<Rightarrow> FALLBACK_SEAT | Some st \<Rightarrow> st) s)
                    (client_goodbye c))"

text \<open>One request: the \<open>switch\<close>, and the \<open>free\<close> of a string literal after it.\<close>

definition handle_message ::
  "os \<Rightarrow> nat \<Rightarrow> greeter_message \<Rightarrow> int \<Rightarrow> 'a daemon_scheme \<Rightarrow> 'a daemon_scheme res" where
  "handle_message os c msg fd s =
     bindR (get_client c s)
       (\<lambda>cl. let own = seat_get os (cl_pid cl);
                 fallback_seat = (own = None \<and> debug s);
                 seat = (if fallback_seat then Some FALLBACK_SEAT else own)
             in bindR (case gm_type msg of
                         HELLO \<Rightarrow> SAFE_CALL os c (handle_hello os seat fd) s
                       | SESSION_ACTIVATION \<Rightarrow>
                           SAFE_CALL os c (handle_activation os c (gm_session msg) seat fd) s
                       | LOGIN_TRY \<Rightarrow> SAFE_CALL os c (handle_login os c (gm_login msg) seat fd) s
                       | GREETER_START \<Rightarrow> handle_start os c seat s
                       | Unknown_Greeter_Type _ \<Rightarrow> Inr s)
                  (\<lambda>t. if fallback_seat then Inl Bad_Free else Inr t))"

definition client_data :: "os \<Rightarrow> ref \<Rightarrow> int \<Rightarrow> 'a daemon_scheme \<Rightarrow> 'a daemon_scheme res" where
  "client_data os data fd s =
     (case data of
        Client_ref c \<Rightarrow>
          (let inp = recv_client os (nreads s); s1 = s\<lparr>nreads := Suc (nreads s)\<rparr>
           in case inp of
                Closed_by_peer \<Rightarrow> client_free c (manager_unregister_fd fd s1)
              | Read_error \<Rightarrow> Inl Out_Of_Bounds
              | Malformed \<Rightarrow> client_free c (manager_unregister_fd fd s1)
              | Message msg \<Rightarrow> handle_message os c msg fd s1)
      | _ \<Rightarrow> Inl Null_Deref)"

subsection \<open>New clients, start and end of the server\<close>

definition client_connect :: "os \<Rightarrow> int \<Rightarrow> 'a daemon_scheme \<Rightarrow> nat option \<times> 'a daemon_scheme" where
  "client_connect os fd s =
     (case so_peercred os fd of
        None \<Rightarrow> (None, s)
      | Some pid \<Rightarrow>
          (let c = next_client s
           in (Some c, s\<lparr>clients := (clients s)(c := Some \<lparr>cl_fd = fd, cl_pid = pid, cl_try = None\<rparr>),
                        next_client := Suc c\<rparr>)))"

definition accept_ready :: "os \<Rightarrow> int \<Rightarrow> 'a daemon_scheme \<Rightarrow> 'a daemon_scheme" where
  "accept_ready os fd s =
     (let client = os_accept os (naccepts s) (watched s); s1 = s\<lparr>naccepts := Suc (naccepts s)\<rparr>
      in case client_connect os client s1 of
           (None, s2) \<Rightarrow> s2
         | (Some c, s2) \<Rightarrow> manager_register_fd client (Some Client_data) (Client_ref c) s2)"

text \<open>\<open>server_systemd.c\<close>: the socket systemd passes is descriptor 3; 0 stands for none.\<close>

definition SD_LISTEN_FDS_START :: int where "SD_LISTEN_FDS_START = 3"

definition prefetch_server_socket :: "'b socket_os_scheme \<Rightarrow> int" where
  "prefetch_server_socket so =
     (if so_listen_fds so = 0 then 0
      else if so_listen_fds so \<noteq> 1 then 0 else SD_LISTEN_FDS_START + 0)"

definition mkdirpath :: "'b socket_os_scheme \<Rightarrow> string \<Rightarrow> 'a world_scheme \<Rightarrow> 'a world_scheme res" where
  "mkdirpath so path s = bindR (mkpath so (c_dirname path) s) (\<lambda>(_, s1). Inr s1)"

text \<open>The mode \<open>0777\<close> is 511. A \<open>chmod\<close> that fails is only reported.\<close>

definition socket_setup ::
  "'b socket_os_scheme \<Rightarrow> 'a daemon_scheme \<Rightarrow> (bool \<times> 'a daemon_scheme) res" where
  "socket_setup so s =
     (let s1 = s\<lparr>server_sock := prefetch_server_socket so\<rparr>
      in if server_sock s1 \<noteq> 0 then Inr (True, s1)
         else let path = sp_service_path_get (debug s1)
              in bindR (mkdirpath so path s1)
                   (\<lambda>s2. let s3 = s2\<lparr>server_sock := sp_service_socket_create so\<rparr>;
                             address = sp_service_address_setup (debug s3);
                             s4 = emit_sys (Unlinked path) s3
                         in if \<not> so_bind so then Inr (False, s4)
                            else let s5 = emit_sys (Bound (server_sock s4) (sun_path address)) s4
                                 in if \<not> so_listen so then Inr (False, s5)
                                    else Inr (True, if so_chmod so then emit_sys (Chmod path 511) s5 else s5)))"

definition server_init ::
  "'b socket_os_scheme \<Rightarrow> user_os \<Rightarrow> 'a daemon_scheme \<Rightarrow> (bool \<times> 'a daemon_scheme) res" where
  "server_init so uos s =
     bindR (socket_setup so s)
       (\<lambda>(ok, s1).
          if \<not> ok then Inr (False, s1)
          else bindR (user_db_init uos (udb s1))
                 (\<lambda>(_, db). Inr (True, manager_register_fd (server_sock s1) (Some Accept_ready) Null_ref
                    (s1\<lparr>udb := db\<rparr>))))"

definition server_shutdown :: "'a daemon_scheme \<Rightarrow> 'a daemon_scheme res" where
  "server_shutdown s =
     bindR (user_db_shutdown (udb s))
       (\<lambda>db. Inr (emit_sys (Unlinked (sp_service_path_get (debug s)))
                   (emit (Closed (server_sock s)) (s\<lparr>udb := db\<rparr>))))"

subsection \<open>The globals at program start, and a small concrete system for the witnesses\<close>

definition globals :: "(string \<times> string) list \<Rightarrow> daemon" where
  "globals files =
     \<lparr>debug = False, no_greeter_restart = False, trace = [], nforks = 0, npipes = 0, nreads = 0,
      naccepts = 0, fds = tarray_new, stop = False, changes = 0, readout = False,
      pending = tarray_new, eval_mode = False, tmpls = Null_ptr, counter = 0,
      tty_counter = FIRST_TTY, tries = Map.empty, next_try = 0, greeters = Null_ptr,
      clients = Map.empty, next_client = 0, server_sock = 0,
      udb = \<lparr>ctx = Null_ptr, dirents = files\<rparr>\<rparr>"

definition one_client :: daemon where
  "one_client = (globals [])\<lparr>clients := [0 \<mapsto> \<lparr>cl_fd = 5, cl_pid = 50, cl_try = Some 0\<rparr>,
     1 \<mapsto> \<lparr>cl_fd = 6, cl_pid = 60, cl_try = None\<rparr>], next_client := 2, greeters := Live_ptr tarray_new,
     tries := [0 \<mapsto> \<lparr>com_read = 7, com_write = 8, job = Session_job ''t0'',
        session_ended = Some Reexecute_greeter, done_cb = Some Session_done, done_data = Client_ref 0,
        service = SP_PAM_SERVICE, usr = ''bob'', pw = Some ''secret'', st_session = None, error_msg = None,
        exit_success = SPAWN_SERVICE_ERROR, try_pid = 70, settings = no_settings\<rparr>], next_try := 1\<rparr>"

subsection \<open>Who may ask for what\<close>

lemma client_free_effect:
  assumes "clients s c = Some cl"
  shows "\<exists>t. client_free c s = Inr t \<and> clients t = (clients s)(c := None) \<and> trace t = trace s @ [Closed (cl_fd cl)] \<and>
    tries t = tries s \<and> greeters t = greeters s \<and> udb t = udb s \<and> tmpls t = tmpls s \<and>
    live t = filter (\<lambda>l. fst l \<noteq> cl_fd cl) (live s)"
proof -
  let ?m = "manager_unregister_fd (cl_fd cl) s"
  let ?u = "emit (Closed (cl_fd cl)) ?m\<lparr>clients := (clients s)(c := None)\<rparr>"
  have "live ?u = live ?m" by (simp add: live_def emit_def)
  moreover have "clients ?m = clients s" "trace ?m = trace s" "tries ?m = tries s" "greeters ?m = greeters s"
    "udb ?m = udb s" "tmpls ?m = tmpls s"
    by (simp_all add: manager_unregister_fd_def Let_def clear_objects_def split: option.split)
  ultimately show ?thesis using assms
    by (auto simp: client_free_def get_client_def Let_def live_unregister emit_def)
qed

text \<open>C7: A client that is no greeter (and the daemon is not in debug mode) gets nothing for \<open>HELLO\<close>,
  \<open>SESSION_ACTIVATION\<close> and \<open>LOGIN_TRY\<close>: nothing is sent to it, no session is activated, no process
  started and no other client touched; its connection is closed and its registration removed.\<close>

theorem unauthorised_is_dropped:
  assumes "recv_client os (nreads s) = Message msg"
    and "gm_type msg \<in> {HELLO, SESSION_ACTIVATION, LOGIN_TRY}"
    and "\<not> debug s" and c: "clients s c = Some cl"
    and "greeter_exists_sid os (getsid os (cl_pid cl)) (s\<lparr>nreads := Suc (nreads s)\<rparr>) = Inr False"
  shows "\<exists>t. client_data os (Client_ref c) fd s = Inr t \<and>
    trace t = trace s @ [Closed (cl_fd cl)] \<and> clients t = (clients s)(c := None) \<and>
    tries t = tries s \<and> greeters t = greeters s \<and> udb t = udb s \<and> tmpls t = tmpls s \<and>
    live t = filter (\<lambda>l. fst l \<noteq> cl_fd cl) (live s)"
proof -
  let ?s1 = "s\<lparr>nreads := Suc (nreads s)\<rparr>"
  have safe: "SAFE_CALL os c body ?s1 = client_free c ?s1" for body
    using assms by (simp add: SAFE_CALL_def get_client_def client_is_greeter_def)
  have "client_data os (Client_ref c) fd s = client_free c ?s1"
    using assms(1-3) c safe
    by (auto simp: client_data_def handle_message_def Let_def get_client_def intro: bindR_Inr_id
        split: greeter_message_type.splits)
  moreover have "live ?s1 = live s" by (simp add: live_def)
  ultimately show ?thesis using client_free_effect [of ?s1 c cl] c by auto
qed

definition hello :: greeter_message where
  "hello = \<lparr>gm_type = HELLO, gm_login = None, gm_session = None\<rparr>"

lemma unauthorised_is_dropped_witness:
  "\<exists>t. client_data (example_os (Message hello)) (Client_ref 0) 5 one_client = Inr t \<and>
     trace t = [Closed 5] \<and> clients t 0 = None"
proof -
  have "recv_client (example_os (Message hello)) (nreads one_client) = Message hello"
    "gm_type hello \<in> {HELLO, SESSION_ACTIVATION, LOGIN_TRY}" "\<not> debug one_client"
    "clients one_client 0 = Some \<lparr>cl_fd = 5, cl_pid = 50, cl_try = Some 0\<rparr>"
    "trace one_client = []"
    "greeter_exists_sid (example_os (Message hello)) x (one_client\<lparr>nreads := y\<rparr>) = Inr False" for x y
    by (simp_all add: example_os_def hello_def one_client_def globals_def greeter_exists_sid_def tarray_new_def)
  then show ?thesis using unauthorised_is_dropped [of "example_os (Message hello)" one_client hello 0] by fastforce
qed

subsection \<open>The sessions a greeter is shown\<close>

text \<open>What becomes of one session of the seat: shown, or left out (it has no details, or it is the
  greeter's own user's).\<close>

definition session_entry :: "os \<Rightarrow> int \<Rightarrow> string \<Rightarrow> server_session option" where
  "session_entry os me raw =
     (case session_details os (Some raw) True True of
        Inl _ \<Rightarrow> None
      | Inr d \<Rightarrow>
          if \<not> det_ok d then None
          else (case det_uid d of
                  Indet \<Rightarrow> None
                | Val uid \<Rightarrow> if uid = me then None
                    else Some \<lparr>ses_id = Some raw, ses_user = map_option pw_name (getpwuid os uid),
                               ses_name = det_name d, ses_icon = None\<rparr>))"

definition session_known :: "os \<Rightarrow> int \<Rightarrow> string \<Rightarrow> bool" where
  "session_known os me raw \<longleftrightarrow>
     (case session_details os (Some raw) True True of
        Inl _ \<Rightarrow> False
      | Inr d \<Rightarrow> det_ok d \<longrightarrow>
          (case det_uid d of Indet \<Rightarrow> False | Val uid \<Rightarrow> uid \<noteq> me \<longrightarrow> getpwuid os uid \<noteq> None))"

lemma take_Suc_update: "i < length xs \<Longrightarrow> take (Suc i) (xs[i := x]) = take i xs @ [x]"
  by (simp add: take_Suc_conv_app_nth)

lemma load_sessions_loop_spec:
  assumes "getpwnam os SP_USER = Some su" and "\<forall>raw \<in> set raws. session_known os (pw_uid su) raw"
    and "i + length raws = number" and "offset \<le> i" and "number - offset \<le> length slots"
    and "take (i - offset) slots = map Some acc" and "length acc = i - offset"
  shows "\<exists>off slots'. load_sessions_loop os number raws i offset slots = Inr (off, slots') \<and>
    take (number - off) slots' = map Some (acc @ List.map_filter (session_entry os (pw_uid su)) raws)"
  using assms(2-)
proof (induction raws arbitrary: i offset slots acc)
  case Nil
  then show ?case by (simp add: List.map_filter_simps)
next
  case (Cons raw raws)
  let ?k = "i - offset" and ?me = "pw_uid su"
  let ?s1 = "slots[?k := Some new_session]"
  have k: "?k < length slots" using Cons.prems by simp
  obtain d where d: "session_details os (Some raw) True True = Inr d"
    using Cons.prems(1) by (auto simp: session_known_def split: sum.splits)
  have rest: "\<forall>raw \<in> set raws. session_known os ?me raw" and len: "Suc i + length raws = number"
    using Cons.prems by auto
  show ?case
  proof (cases "det_ok d")
    case False
    let ?s2 = "take (number - Suc offset) (?s1[?k := None])"
    have "take (Suc i - Suc offset) ?s2 = map Some acc"
      using Cons.prems by simp
    moreover have "number - Suc offset \<le> length ?s2" using Cons.prems by simp
    ultimately have "\<exists>off slots'. load_sessions_loop os number raws (Suc i) (Suc offset) ?s2 = Inr (off, slots') \<and>
      take (number - off) slots' = map Some (acc @ List.map_filter (session_entry os ?me) raws)"
      using Cons.prems by (intro Cons.IH [OF rest len]) auto
    moreover have "session_entry os ?me raw = None" using False d by (simp add: session_entry_def)
    ultimately show ?thesis using False d k by (simp add: Let_def List.map_filter_simps)
  next
    case True
    then obtain uid where uid: "det_uid d = Val uid"
      and known: "uid \<noteq> ?me \<Longrightarrow> getpwuid os uid \<noteq> None"
      using Cons.prems(1) d by (auto simp: session_known_def split: cell.splits)
    show ?thesis
    proof (cases "uid = ?me")
      case True
      have "take (Suc i - Suc offset) ?s1 = map Some acc" using Cons.prems by simp
      then have "\<exists>off slots'. load_sessions_loop os number raws (Suc i) (Suc offset) ?s1 = Inr (off, slots') \<and>
        take (number - off) slots' = map Some (acc @ List.map_filter (session_entry os ?me) raws)"
        using Cons.prems by (intro Cons.IH [OF rest len]) auto
      moreover have "session_entry os ?me raw = None"
        using True \<open>det_ok d\<close> d uid by (simp add: session_entry_def)
      ultimately show ?thesis using True \<open>det_ok d\<close> d uid k assms(1)
        by (simp add: Let_def List.map_filter_simps)
    next
      case False
      then obtain user where user: "getpwuid os uid = Some user" using known by blast
      let ?e = "\<lparr>ses_id = Some raw, ses_user = Some (pw_name user), ses_name = det_name d, ses_icon = None\<rparr>"
      let ?s2 = "?s1[?k := Some ?e]"
      have "Suc i - offset = Suc ?k" using Cons.prems by simp
      then have "take (Suc i - offset) ?s2 = map Some (acc @ [?e])"
        using Cons.prems k by (simp add: take_Suc_update)
      then have "\<exists>off slots'. load_sessions_loop os number raws (Suc i) offset ?s2 = Inr (off, slots') \<and>
        take (number - off) slots' = map Some ((acc @ [?e]) @ List.map_filter (session_entry os ?me) raws)"
        using Cons.prems by (intro Cons.IH [OF rest len]) auto
      moreover have "session_entry os ?me raw = Some ?e"
        using False \<open>det_ok d\<close> d uid user by (simp add: session_entry_def)
      ultimately show ?thesis using False \<open>det_ok d\<close> d uid user k assms(1)
        by (simp add: Let_def List.map_filter_simps)
    qed
  qed
qed

lemma load_sessions_filter:
  assumes "getpwnam os SP_USER = Some su"
    and "\<forall>raw \<in> set (session_enumerate os seat). session_known os (pw_uid su) raw"
  shows "load_sessions os seat =
    Inr (map Some (List.map_filter (session_entry os (pw_uid su)) (session_enumerate os seat)))"
  using load_sessions_loop_spec [OF assms, of 0 _ 0 "replicate (length (session_enumerate os seat)) None" "[]"]
  by (auto simp: load_sessions_def Let_def)

text \<open>C14: The loop of \<open>_load_sessions\<close>, with its offset, its in-place slots and its shrinking array,
  computes exactly the sessions of the seat that have details and are not the greeter user's own, in
  their order, and every slot it hands to the packing routine is filled.\<close>

theorem load_sessions_is_filter:
  assumes "getpwnam os SP_USER = Some su"
    and "\<forall>raw \<in> set (session_enumerate os seat). session_known os (pw_uid su) raw"
  shows "load_sessions os seat =
    Inr (map Some (List.map_filter (session_entry os (pw_uid su)) (session_enumerate os seat)))"
  by (rule load_sessions_filter [OF assms])

lemma load_sessions_is_filter_witness:
  "load_sessions (example_os Malformed) (Some ''seat0'') = Inr [Some \<lparr>ses_id = Some ''c2'',
     ses_user = Some ''bob'', ses_name = Some ''wayland - sway'', ses_icon = None\<rparr>]"
proof -
  have su: "getpwnam (example_os Malformed) SP_USER = Some spawny_pw"
    by (simp add: example_os_def SP_USER_def)
  have raws: "session_enumerate (example_os Malformed) (Some ''seat0'') = [''c1'', ''c2'', ''c3'']"
    by (simp add: example_os_def session_enumerate_def)
  have det: "session_details (example_os Malformed) (Some h) True True =
      (if h = ''c3'' then Inr \<lparr>det_ok = False, det_uid = Indet, det_name = None, det_vtnr = None\<rparr>
       else Inr \<lparr>det_ok = True, det_uid = Val (if h = ''c1'' then 200 else 1000),
         det_name = Some ''wayland - sway'', det_vtnr = Some 12\<rparr>)" for h
    by (simp add: session_details_def example_os_def GET_FIELD_def str_field_def session_name_def
        snprintf_def ENXIO_def)
  have uid: "getpwuid (example_os Malformed) 1000 = Some bob" "pw_uid spawny_pw = 200" "pw_name bob = ''bob''"
    by (simp_all add: example_os_def spawny_pw_def bob_def)
  have "\<forall>raw \<in> set (session_enumerate (example_os Malformed) (Some ''seat0'')).
      session_known (example_os Malformed) (pw_uid spawny_pw) raw"
    by (simp add: raws session_known_def det uid)
  from load_sessions_is_filter [OF su this] show ?thesis
    by (simp add: raws session_entry_def det uid List.map_filter_simps)
qed

subsection \<open>Requests that end badly\<close>

text \<open>In debug mode every request of a client whose process has no seat ends in undefined behaviour:
  at the latest the string literal that stands for the seat is passed to \<open>free\<close>.\<close>

theorem seatless_debug_request_faults:
  assumes "recv_client os (nreads s) = Message msg" and "debug s"
    and "clients s c = Some cl" and "seat_get os (cl_pid cl) = None"
  shows "(\<exists>e. client_data os (Client_ref c) fd s = Inl e) \<and>
    (\<forall>n. gm_type msg = Unknown_Greeter_Type n \<longrightarrow> client_data os (Client_ref c) fd s = Inl Bad_Free)"
proof -
  have "\<exists>e. bindR m (\<lambda>t. Inl Bad_Free) = Inl e" for m :: "'a daemon_scheme res"
    by (cases m) auto
  then show ?thesis
    using assms by (auto simp: client_data_def handle_message_def get_client_def Let_def)
qed

definition odd_message :: greeter_message where
  "odd_message = \<lparr>gm_type = Unknown_Greeter_Type 9, gm_login = None, gm_session = None\<rparr>"

lemma seatless_debug_request_faults_witness:
  "client_data (example_os (Message odd_message)) (Client_ref 1) 6 (one_client\<lparr>debug := True\<rparr>) = Inl Bad_Free"
proof -
  have "gm_type odd_message = Unknown_Greeter_Type 9" by (simp add: odd_message_def)
  moreover have "recv_client (example_os (Message odd_message)) (nreads (one_client\<lparr>debug := True\<rparr>)) =
      Message odd_message" "debug (one_client\<lparr>debug := True\<rparr>)"
    "clients (one_client\<lparr>debug := True\<rparr>) 1 = Some \<lparr>cl_fd = 6, cl_pid = 60, cl_try = None\<rparr>"
    "seat_get (example_os (Message odd_message)) (cl_pid \<lparr>cl_fd = 6, cl_pid = 60, cl_try = None\<rparr>) = None"
    by (simp_all add: example_os_def one_client_def seat_get_def session_get_def)
  ultimately show ?thesis using seatless_debug_request_faults by blast
qed

text \<open>A second login request of a client whose first is still running is refused and starts nothing.\<close>

theorem second_login_refused:
  assumes "clients s c = Some cl" and "cl_try cl \<noteq> None"
  shows "handle_login os c login seat fd s =
    Inr (server_spawnservice_feedback False (Some ''There is already a login try!'') fd s)"
  using assms by (simp add: handle_login_def get_client_def)

lemma second_login_refused_witness:
  "handle_login (example_os Malformed) 0 None None 5 one_client =
   Inr (server_spawnservice_feedback False (Some ''There is already a login try!'') 5 one_client)"
  by (rule second_login_refused [of _ _ "\<lparr>cl_fd = 5, cl_pid = 50, cl_try = Some 0\<rparr>"])
     (simp_all add: one_client_def)

text \<open>C39: A client that disconnects while its login is still running is freed, but the try keeps its
  address: when the try ends, by whatever way, the freed client is dereferenced.\<close>

theorem disconnect_during_login:
  assumes "recv_client os (nreads s) = Closed_by_peer" and "clients s c = Some cl"
    and "tries s u = Some y" and "done_cb y = Some Session_done" and "done_data y = Client_ref c"
  shows "\<exists>t. client_data os (Client_ref c) fd s = Inr t \<and> tries t u = Some y \<and>
    spawned_session_disappear (try_done os) (Try_ref u) t = Inl Use_After_Free"
proof -
  let ?s1 = "manager_unregister_fd fd (s\<lparr>nreads := Suc (nreads s)\<rparr>)"
  have "clients ?s1 = clients s"
    by (simp add: manager_unregister_fd_def Let_def clear_objects_def split: option.split)
  with assms(2) obtain t where t: "client_free c ?s1 = Inr t" "clients t c = None" "tries t = tries s"
    using client_free_effect [of ?s1 c cl] by auto
  let ?t1 = "emit (Closed (com_read y)) (manager_unregister_fd (com_read y) t)"
  have "clients ?t1 = clients t"
    by (simp add: emit_def manager_unregister_fd_def Let_def clear_objects_def split: option.split)
  then have "session_done os (Client_ref c) e ?t1 = Inl Use_After_Free" for e
    using t(2) by (simp add: session_done_def get_client_def)
  then have "spawn_try_free (try_done os) u t = Inl Use_After_Free"
    using t(3) assms(3-5) by (simp add: spawn_try_free_def try_done_def Let_def)
  with t assms(1,3) show ?thesis
    by (simp add: client_data_def spawned_session_disappear_def)
qed


lemma disconnect_during_login_witness:
  "\<exists>t. client_data (example_os Closed_by_peer) (Client_ref 0) 5 one_client = Inr t \<and>
     spawned_session_disappear (try_done (example_os Closed_by_peer)) (Try_ref 0) t = Inl Use_After_Free"
proof -
  obtain y where "tries one_client 0 = Some y" "done_cb y = Some Session_done" "done_data y = Client_ref 0"
    by (simp add: one_client_def)
  moreover have "recv_client (example_os Closed_by_peer) (nreads one_client) = Closed_by_peer"
    "clients one_client 0 = Some \<lparr>cl_fd = 5, cl_pid = 50, cl_try = Some 0\<rparr>"
    by (simp_all add: example_os_def one_client_def)
  ultimately show ?thesis
    using disconnect_during_login [of "example_os Closed_by_peer" one_client 0] by fastforce
qed

end
