(* ===== verification/Daemon.thy ===== *)
theory Daemon
  imports Server
begin

section \<open>The daemon as a whole: callbacks, handlers, and what every step keeps\<close>

text \<open>
  The indirect calls of the event loop and of the process registry, resolved on the state of
  the whole daemon, and the invariant \<open>daemon_inv\<close>: whatever is registered with the loop or with
  the registry points to an object that is still allocated. \<open>good n s t\<close> is the rely that a
  callback in the middle of an operation can be trusted with: it keeps the invariant and leaves
  the tries older than \<open>n\<close> alone; \<open>keeps\<close> and \<open>keepsP\<close> lift it to fallible operations.
\<close>

subsection \<open>The indirect calls\<close>

definition fd_dispatch :: "os \<Rightarrow> fd_cb \<Rightarrow> ref \<Rightarrow> int \<Rightarrow> 'a daemon_scheme \<Rightarrow> 'a daemon_scheme res" where
  "fd_dispatch os cb data fd s =
     (case cb of
        Child_data \<Rightarrow> child_data os (try_done os) data fd s
      | Client_data \<Rightarrow> client_data os data fd s
      | Accept_ready \<Rightarrow> Inr (accept_ready os fd s))"

definition wait_dispatch ::
  "os \<Rightarrow> wait_cb \<Rightarrow> ref \<Rightarrow> int \<Rightarrow> int \<Rightarrow> 'a daemon_scheme \<Rightarrow> 'a daemon_scheme res" where
  "wait_dispatch os h data status pid s =
     (case h of
        Spawned_session_disappear \<Rightarrow> spawned_session_disappear (try_done os) data s
      | Greeter_done \<Rightarrow> greeter_done_with (activate_greeter os) data s)"

subsection \<open>The invariant\<close>

definition fd_refs_ok :: "'a daemon_scheme \<Rightarrow> bool" where
  "fd_refs_ok s \<longleftrightarrow>
     (\<forall>fd d. (fd, Client_data, d) \<in> set (live s) \<longrightarrow>
        (\<exists>c cl. d = Client_ref c \<and> clients s c = Some cl \<and> cl_fd cl = fd)) \<and>
     (\<forall>fd d. (fd, Child_data, d) \<in> set (live s) \<longrightarrow>
        (\<exists>t try. d = Try_ref t \<and> tries s t = Some try \<and> com_read try = fd))"

definition wait_refs_ok :: "'a daemon_scheme \<Rightarrow> bool" where
  "wait_refs_ok s \<longleftrightarrow>
     (\<forall>pid d. (pid, Spawned_session_disappear, d) \<in> set (listeners s) \<longrightarrow>
        (\<exists>t try. d = Try_ref t \<and> tries s t = Some try \<and> try_pid try = pid))"

definition fresh_ok :: "'a daemon_scheme \<Rightarrow> bool" where
  "fresh_ok s \<longleftrightarrow> (\<forall>t \<ge> next_try s. tries s t = None) \<and> (\<forall>c \<ge> next_client s. clients s c = None)"

text \<open>The generations of the greeters count up from 0, and no seat has two greeters.\<close>

definition gens_ok :: "'a greeter_state_scheme \<Rightarrow> bool" where
  "gens_ok s \<longleftrightarrow> (\<forall>a. greeters s = Live_ptr a \<longrightarrow>
     (\<forall>g \<in> set (cells a). 0 \<le> run_gen g) \<and> distinct (map g_seat (cells a)))"

definition refs_ok :: "'a daemon_scheme \<Rightarrow> bool" where
  "refs_ok s \<longleftrightarrow> fd_refs_ok s \<and> wait_refs_ok s \<and> fresh_ok s \<and> gens_ok s"

definition daemon_inv :: "'a daemon_scheme \<Rightarrow> bool" where
  "daemon_inv s \<longleftrightarrow> refs_ok s \<and> tidy s \<and> reg_ok s"

subsection \<open>What a callback may do to its surroundings\<close>

text \<open>What the daemon has to offer: the templates, their numbering and the users it has read.\<close>

type_synonym stock = "template tarray gptr \<times> 32 word \<times> user_db"

definition stock :: "'a daemon_scheme \<Rightarrow> stock" where
  "stock s = (tmpls s, counter s, udb s)"

lemma stock_updates [simp]:
  "stock (s\<lparr>fds := x1\<rparr>) = stock s" "stock (s\<lparr>changes := x2\<rparr>) = stock s" "stock (s\<lparr>readout := x3\<rparr>) = stock s"
  "stock (s\<lparr>stop := x3\<rparr>) = stock s" "stock (s\<lparr>pending := x4\<rparr>) = stock s" "stock (s\<lparr>eval_mode := x3\<rparr>) = stock s"
  "stock (s\<lparr>tries := x5\<rparr>) = stock s" "stock (s\<lparr>next_try := x2\<rparr>) = stock s" "stock (s\<lparr>tty_counter := x6\<rparr>) = stock s"
  "stock (s\<lparr>greeters := x7\<rparr>) = stock s" "stock (s\<lparr>clients := x8\<rparr>) = stock s" "stock (s\<lparr>next_client := x2\<rparr>) = stock s"
  "stock (s\<lparr>nreads := x2\<rparr>) = stock s" "stock (s\<lparr>npipes := x2\<rparr>) = stock s" "stock (s\<lparr>nforks := x2\<rparr>) = stock s"
  "stock (s\<lparr>naccepts := x2\<rparr>) = stock s" "stock (s\<lparr>trace := x9\<rparr>) = stock s" "stock (emit e s) = stock s"
  by (simp_all add: stock_def emit_def)

lemma stock_steps [simp]:
  "stock (manager_unregister_fd fd s) = stock s" "stock (manager_register_fd fd cb d s) = stock s"
  "stock (spawnregistery_listen pid h d s) = stock s" "stock (spawnregistery_unlisten pid h0 d s) = stock s"
  "stock (upd_try t f s) = stock s" "stock (free_try t s) = stock s"
proof -
  show "stock (spawnregistery_unlisten pid h0 d s) = stock s" by (subst unlisten_shape) simp
qed (simp_all add: manager_unregister_fd_def clear_objects_def manager_register_fd_def spawnregistery_listen_def
    upd_try_def free_try_def Let_def split: option.split)

text \<open>
  What is left for sessions: the calls of \<open>fork\<close> so far and the counter of the terminals. Every call takes at
  least one terminal, and the counter stops behind the last one.
\<close>

type_synonym purse = "nat \<times> int"

definition purse :: "'a daemon_scheme \<Rightarrow> purse" where
  "purse s = (nforks s, tty_counter s)"

definition spends :: "purse \<Rightarrow> purse \<Rightarrow> bool" where
  "spends p q \<longleftrightarrow> fst p \<le> fst q \<and> snd p \<le> snd q \<and> int (fst q) - int (fst p) \<le> snd q - snd p \<and>
     snd q \<le> max (snd p) (LAST_TTY + 1)"

lemma spends_refl [simp]: "spends p p"
  by (simp add: spends_def)

lemma spends_trans [trans]: "spends p q \<Longrightarrow> spends q r \<Longrightarrow> spends p r"
  unfolding spends_def by linarith

lemma purse_updates [simp]:
  "purse (s\<lparr>fds := x1\<rparr>) = purse s" "purse (s\<lparr>changes := x2\<rparr>) = purse s" "purse (s\<lparr>readout := x3\<rparr>) = purse s"
  "purse (s\<lparr>stop := x3\<rparr>) = purse s" "purse (s\<lparr>pending := x4\<rparr>) = purse s" "purse (s\<lparr>eval_mode := x3\<rparr>) = purse s"
  "purse (s\<lparr>tries := x5\<rparr>) = purse s" "purse (s\<lparr>next_try := x2\<rparr>) = purse s"
  "purse (s\<lparr>greeters := x7\<rparr>) = purse s" "purse (s\<lparr>clients := x8\<rparr>) = purse s" "purse (s\<lparr>next_client := x2\<rparr>) = purse s"
  "purse (s\<lparr>nreads := x2\<rparr>) = purse s" "purse (s\<lparr>npipes := x2\<rparr>) = purse s"
  "purse (s\<lparr>naccepts := x2\<rparr>) = purse s" "purse (s\<lparr>trace := x9\<rparr>) = purse s" "purse (emit e s) = purse s"
  by (simp_all add: purse_def emit_def)

lemma purse_steps [simp]:
  "purse (manager_unregister_fd fd s) = purse s" "purse (manager_register_fd fd cb d s) = purse s"
  "purse (spawnregistery_listen pid h d s) = purse s" "purse (spawnregistery_unlisten pid h0 d s) = purse s"
  "purse (upd_try t f s) = purse s" "purse (free_try t s) = purse s"
proof -
  show "purse (spawnregistery_unlisten pid h0 d s) = purse s" by (subst unlisten_shape) simp
qed (simp_all add: manager_unregister_fd_def clear_objects_def manager_register_fd_def spawnregistery_listen_def
    upd_try_def free_try_def Let_def split: option.split)

definition leaves_tries :: "nat \<Rightarrow> 'a daemon_scheme \<Rightarrow> 'a daemon_scheme \<Rightarrow> bool" where
  "leaves_tries n s t \<longleftrightarrow>
     readout t = readout s \<and> eval_mode t = eval_mode s \<and> next_try s \<le> next_try t \<and> stock t = stock s \<and>
     spends (purse s) (purse t) \<and>
     (\<forall>u < n. tries t u = tries s u \<and>
        (\<forall>fd. (fd, Child_data, Try_ref u) \<in> set (live t) \<longrightarrow> (fd, Child_data, Try_ref u) \<in> set (live s)) \<and>
        (\<forall>pid. (pid, Spawned_session_disappear, Try_ref u) \<in> set (listeners t) \<longrightarrow>
               (pid, Spawned_session_disappear, Try_ref u) \<in> set (listeners s)))"

definition good :: "nat \<Rightarrow> 'a daemon_scheme \<Rightarrow> 'a daemon_scheme \<Rightarrow> bool" where
  "good n s t \<longleftrightarrow> (daemon_inv s \<and> n \<le> next_try s \<longrightarrow> daemon_inv t \<and> leaves_tries n s t)"

definition keeps :: "nat \<Rightarrow> 'a daemon_scheme \<Rightarrow> 'a daemon_scheme res \<Rightarrow> bool" where
  "keeps n s m \<longleftrightarrow> (\<forall>t. m = Inr t \<longrightarrow> good n s t)"

definition keepsP :: "nat \<Rightarrow> 'a daemon_scheme \<Rightarrow> ('b \<times> 'a daemon_scheme) res \<Rightarrow> bool" where
  "keepsP n s m \<longleftrightarrow> (\<forall>x t. m = Inr (x, t) \<longrightarrow> good n s t)"

lemma good_refl [simp, intro]: "good n s s"
  by (simp add: good_def leaves_tries_def)

lemma good_trans [trans]: "good n s t \<Longrightarrow> good n t u \<Longrightarrow> good n s u"
  unfolding good_def leaves_tries_def by (auto dest: order_trans spends_trans)

lemma keeps_Inr [simp]: "keeps n s (Inr t) \<longleftrightarrow> good n s t"
  by (simp add: keeps_def)

lemma keeps_Inl [simp]: "keeps n s (Inl e)"
  by (simp add: keeps_def)

lemma keepsP_Inr [simp]: "keepsP n s (Inr (x, t)) \<longleftrightarrow> good n s t"
  by (simp add: keepsP_def)

lemma keepsP_Inl [simp]: "keepsP n s (Inl e)"
  by (simp add: keepsP_def)

lemma keeps_bind [intro]:
  assumes "keeps n s m" and "\<And>t. m = Inr t \<Longrightarrow> keeps n t (f t)"
  shows "keeps n s (bindR m f)"
  using assms by (auto simp: keeps_def elim!: bindR_InrE intro: good_trans)

lemma keeps_bindP [intro]:
  assumes "keepsP n s m" and "\<And>x t. m = Inr (x, t) \<Longrightarrow> keeps n t (f (x, t))"
  shows "keeps n s (bindR m f)"
  using assms by (fastforce simp: keeps_def keepsP_def elim!: bindR_InrE intro: good_trans)

text \<open>A test that reads the state and does not change it.\<close>

lemma keeps_read:
  assumes "\<And>x. m = Inr x \<Longrightarrow> keeps n s (f x)"
  shows "keeps n s (bindR m f)"
  using assms by (auto simp: keeps_def elim!: bindR_InrE)

lemma keepsP_read:
  assumes "\<And>x. m = Inr x \<Longrightarrow> keepsP n s (f x)"
  shows "keepsP n s (bindR m f)"
  using assms by (auto simp: keepsP_def elim!: bindR_InrE)

lemma keepsP_bind:
  assumes "keeps n s m" and "\<And>t. m = Inr t \<Longrightarrow> keepsP n t (f t)"
  shows "keepsP n s (bindR m f)"
  using assms by (fastforce simp: keeps_def keepsP_def elim!: bindR_InrE intro: good_trans)

lemma keepsP_bindP:
  assumes "keepsP n s m" and "\<And>x t. m = Inr (x, t) \<Longrightarrow> keepsP n t (f (x, t))"
  shows "keepsP n s (bindR m f)"
  using assms by (fastforce simp: keepsP_def elim!: bindR_InrE intro: good_trans)

lemma keeps_good: "good n s t \<Longrightarrow> keeps n t m \<Longrightarrow> keeps n s m"
  by (auto simp: keeps_def intro: good_trans)

lemma keepsP_good: "good n s t \<Longrightarrow> keepsP n t m \<Longrightarrow> keepsP n s m"
  by (auto simp: keepsP_def intro: good_trans)

lemma keeps_if:
  "(P \<Longrightarrow> keeps n s a) \<Longrightarrow> (\<not> P \<Longrightarrow> keeps n s b) \<Longrightarrow> keeps n s (if P then a else b)"
  by simp

text \<open>Steps that touch neither registrations, listeners, tries nor clients.\<close>

definition same_core :: "'a daemon_scheme \<Rightarrow> 'a daemon_scheme \<Rightarrow> bool" where
  "same_core s t \<longleftrightarrow> fds t = fds s \<and> changes t = changes s \<and> readout t = readout s \<and>
     pending t = pending s \<and> eval_mode t = eval_mode s \<and> tries t = tries s \<and> next_try t = next_try s \<and>
     clients t = clients s \<and> next_client t = next_client s \<and> greeters t = greeters s \<and>
     stock t = stock s"

lemma live_fds: "fds t = fds s \<Longrightarrow> live t = live s"
  by (simp add: live_def)

lemma listeners_pending: "pending t = pending s \<Longrightarrow> listeners t = listeners s"
  by (simp add: listeners_def)

lemma good_same_core:
  assumes "same_core s t" and "spends (purse s) (purse t)"
  shows "good n s t"
proof -
  have "live t = live s" "listeners t = listeners s"
    using assms by (auto simp: same_core_def intro: live_fds listeners_pending)
  then show ?thesis using assms
    by (simp add: good_def same_core_def daemon_inv_def refs_ok_def gens_ok_def fd_refs_ok_def wait_refs_ok_def
        fresh_ok_def tidy_def reg_ok_def nulls_def zeroed_def leaves_tries_def)
qed

lemma good_unregister: "good n s (manager_unregister_fd fd s)"
proof -
  let ?u = "manager_unregister_fd fd s"
  obtain x k where u: "?u = s\<lparr>fds := x, changes := k, readout := readout s\<rparr>"
    using unregister_shape [of fd s] by metis
  have same: "pending ?u = pending s" "eval_mode ?u = eval_mode s" "tries ?u = tries s"
    "next_try ?u = next_try s" "clients ?u = clients s" "next_client ?u = next_client s" "greeters ?u = greeters s"
    by (simp_all only: u) simp_all
  then have "listeners ?u = listeners s" by (intro listeners_pending) simp
  then show ?thesis using same
    by (simp add: good_def daemon_inv_def refs_ok_def gens_ok_def fd_refs_ok_def wait_refs_ok_def
        fresh_ok_def reg_ok_def zeroed_def leaves_tries_def live_unregister tidy_unregister)
qed

lemma good_emit: "good n s (emit e s)"
  by (rule good_same_core) (simp_all add: same_core_def emit_def)

lemma good_unlisten: "good n s (spawnregistery_unlisten pid h d s)"
proof -
  let ?u = "spawnregistery_unlisten pid h d s"
  have u: "?u = s\<lparr>pending := pending ?u\<rparr>" by (rule unlisten_shape)
  have same: "fds ?u = fds s" "changes ?u = changes s" "readout ?u = readout s" "tries ?u = tries s"
    "next_try ?u = next_try s" "clients ?u = clients s" "next_client ?u = next_client s" "greeters ?u = greeters s"
    by (subst u, simp)+
  then have "live ?u = live s" by (intro live_fds) simp
  then show ?thesis using same
    by (simp add: good_def daemon_inv_def refs_ok_def gens_ok_def fd_refs_ok_def wait_refs_ok_def
        fresh_ok_def tidy_def nulls_def leaves_tries_def listeners_unlisten reg_ok_unlisten)
qed

lemma good_listen_greeter: "good n s (spawnregistery_listen pid (Some Greeter_done) d s)"
proof -
  let ?u = "spawnregistery_listen pid (Some Greeter_done) d s"
  have same: "fds ?u = fds s" "changes ?u = changes s" "readout ?u = readout s" "tries ?u = tries s"
    "next_try ?u = next_try s" "clients ?u = clients s" "next_client ?u = next_client s" "greeters ?u = greeters s"
    by (simp_all add: spawnregistery_listen_def)
  then have "live ?u = live s" by (intro live_fds) simp
  then show ?thesis using same
    by (simp add: good_def daemon_inv_def refs_ok_def gens_ok_def fd_refs_ok_def wait_refs_ok_def
        fresh_ok_def tidy_def nulls_def leaves_tries_def listeners_listen reg_ok_listen)
qed

subsection \<open>Clients\<close>

lemma good_clients:
  assumes core: "fds t = fds s" "changes t = changes s" "readout t = readout s" "pending t = pending s"
      "eval_mode t = eval_mode s" "tries t = tries s" "next_try t = next_try s"
      "next_client t = next_client s" "greeters t = greeters s" "stock t = stock s" "purse t = purse s"
    and kept: "\<And>c cl. clients s c = Some cl \<Longrightarrow> (cl_fd cl, Client_data, Client_ref c) \<in> set (live s) \<Longrightarrow>
      \<exists>cl'. clients t c = Some cl' \<and> cl_fd cl' = cl_fd cl"
    and none: "\<And>c. clients s c = None \<Longrightarrow> clients t c = None"
  shows "good n s t"
proof -
  have v: "live t = live s" "listeners t = listeners s"
    using core by (auto intro: live_fds listeners_pending)
  have "fd_refs_ok t" if "fd_refs_ok s"
    using that kept unfolding fd_refs_ok_def v core(6) by metis
  moreover have "fresh_ok t" if "fresh_ok s"
    using that none by (simp add: fresh_ok_def core)
  ultimately show ?thesis using core v
    by (simp add: good_def daemon_inv_def refs_ok_def gens_ok_def wait_refs_ok_def
        tidy_def reg_ok_def nulls_def zeroed_def leaves_tries_def)
qed

lemma good_upd_client_try: "good n s (upd_client c (\<lambda>x. x\<lparr>cl_try := v\<rparr>) s)"
  by (rule good_clients) (auto simp: upd_client_def)

lemma client_free_keeps: "keeps n s (client_free c s)"
proof (cases "clients s c")
  case None
  then show ?thesis by (simp add: client_free_def get_client_def)
next
  case (Some cl)
  let ?m = "manager_unregister_fd (cl_fd cl) s"
  let ?v = "emit (Closed (cl_fd cl)) ?m"
  let ?u = "?v\<lparr>clients := (clients ?v)(c := None)\<rparr>"
  have v: "good n s ?v" using good_unregister good_emit good_trans by blast
  have "live ?v = live ?m" by (rule live_fds) (simp add: emit_def)
  then have "live ?v = filter (\<lambda>l. fst l \<noteq> cl_fd cl) (live s)" by (simp add: live_unregister)
  moreover have "clients ?v = clients s"
    by (simp add: emit_def manager_unregister_fd_def Let_def clear_objects_def split: option.split)
  ultimately have "good n ?v ?u" using Some by (intro good_clients) auto
  with v have "good n s ?u" by (rule good_trans)
  with Some show ?thesis by (simp add: client_free_def get_client_def Let_def)
qed

lemma send_keeps: "good n s (send_message ty fb data fd s)"
  by (simp add: send_message_def good_emit)

lemma feedback_keeps: "good n s (server_spawnservice_feedback ok msg fd s)"
  by (simp add: server_spawnservice_feedback_def send_keeps)

lemma client_goodbye_keeps: "keeps n s (client_goodbye c s)"
  unfolding client_goodbye_def
  by (rule keeps_read, rule keeps_good [OF send_keeps client_free_keeps])

lemma good_greeters:
  assumes "gens_ok s \<Longrightarrow> gens_ok (s\<lparr>greeters := g\<rparr>)"
  shows "good n s (s\<lparr>greeters := g\<rparr>)"
proof -
  let ?u = "s\<lparr>greeters := g\<rparr>"
  have "live ?u = live s" "listeners ?u = listeners s"
    by (auto intro: live_fds listeners_pending)
  then show ?thesis using assms
    by (simp add: good_def daemon_inv_def refs_ok_def fd_refs_ok_def wait_refs_ok_def
        fresh_ok_def tidy_def reg_ok_def nulls_def zeroed_def leaves_tries_def)
qed

lemma gens_ok_set:
  assumes "gens_ok s" and "greeters s = Live_ptr a" and "0 \<le> run_gen g"
    and "g_seat g = g_seat (cells a ! i)"
  shows "gens_ok (s\<lparr>greeters := Live_ptr (tarray_set a i g)\<rparr>)"
proof -
  have "map g_seat ((cells a)[i := g]) = map g_seat (cells a)"
    using assms(4) by (cases "i < tarray_len a") (simp_all add: map_update list_update_same_conv list_update_beyond)
  then show ?thesis using assms(1-3)
    by (auto simp: gens_ok_def tarray_set_def dest: subsetD [OF set_update_subset_insert])
qed

lemma gens_ok_get:
  "gens_ok s \<Longrightarrow> greeters s = Live_ptr a \<Longrightarrow> i < tarray_len a \<Longrightarrow> 0 \<le> run_gen (cells a ! i)"
  by (auto simp: gens_ok_def)

lemma greeter_search_index:
  "greeter_search (Some seat) s = Inr (Some i) \<Longrightarrow> greeters s = Live_ptr a \<Longrightarrow>
   find_index (\<lambda>g. g_seat g = seat) (cells a) = Some i"
  by (simp add: greeter_search_def)

lemma greeter_search_bound:
  "greeter_search seat s = Inr (Some i) \<Longrightarrow> greeters s = Live_ptr a \<Longrightarrow> i < tarray_len a"
  by (auto simp: greeter_search_def split: option.splits if_splits dest: find_index_SomeD)

lemma greeter_lockout_keeps: "keeps n s (greeter_lockout seat s)"
  by (auto simp: greeter_lockout_def keeps_def gderef_eq_Inr elim!: bindR_InrE split: option.splits
      intro!: good_greeters gens_ok_set gens_ok_get greeter_search_bound)

lemma session_done_keeps: "keeps n s (session_done os d e s)"
proof (cases d)
  case (Client_ref c)
  have a: "keeps n s1 (client_goodbye c (upd_client c (\<lambda>x. x\<lparr>cl_try := None\<rparr>)
      (server_spawnservice_feedback True m fd s1)))" for s1 m fd
    by (rule keeps_good [OF feedback_keeps], rule keeps_good [OF good_upd_client_try],
        rule client_goodbye_keeps)
  have b: "good n s (upd_client c (\<lambda>x. x\<lparr>cl_try := None\<rparr>)
      (server_spawnservice_feedback False m fd s))" for m fd
    using feedback_keeps good_upd_client_try by (rule good_trans)
  show ?thesis
    unfolding session_done_def Client_ref ref.case
    by (rule keeps_read) (auto intro!: keeps_bind greeter_lockout_keeps a b)
qed (simp_all add: session_done_def)

lemma greeter_store_keeps:
  assumes f: "\<And>g. 0 \<le> run_gen g \<Longrightarrow> 0 \<le> run_gen (f g)" "\<And>g. g_seat (f g) = g_seat g"
  shows "keeps n s (greeter_store d f s)"
proof -
  have "good n s (s\<lparr>greeters := Live_ptr (tarray_set a i (f g))\<rparr>)"
    if "greeter_deref (Greeter_ref b i) s = Inr g" "greeters s = Live_ptr a" for a b i g
  proof (rule good_greeters)
    assume "gens_ok s"
    moreover have "i < tarray_len a" "g = cells a ! i"
      using that by (auto simp: greeter_deref_def deref_eq_Inr tarray_get_def split: if_splits)
    ultimately show "gens_ok (s\<lparr>greeters := Live_ptr (tarray_set a i (f g))\<rparr>)"
      using that(2) f by (auto intro!: gens_ok_set gens_ok_get)
  qed
  then show ?thesis
    by (auto simp: greeter_store_def keeps_def elim!: bindR_InrE split: ref.splits gptr.splits)
qed

lemma gens_ok_del:
  assumes "gens_ok s" and "greeters s = Live_ptr a"
  shows "gens_ok (s\<lparr>greeters := Live_ptr (tarray_del a i)\<rparr>)"
proof -
  let ?seats = "map g_seat (cells a)"
  have "distinct (take i ?seats @ drop (Suc i) ?seats)"
    using assms set_take_disj_set_drop_if_distinct [of ?seats i "Suc i"] by (simp add: gens_ok_def)
  then have "distinct (map g_seat (take i (cells a) @ drop (Suc i) (cells a)))"
    by (simp only: map_append take_map drop_map)
  then show ?thesis using assms
    by (auto simp: gens_ok_def tarray_del_def dest: in_set_takeD in_set_dropD)
qed

lemma greeter_find_or_add_keeps: "keepsP n s (greeter_find_or_add seat s)"
  by (auto simp: greeter_find_or_add_def greeter_add_def greeter_search_def keepsP_def gens_ok_def tarray_add_def
      gderef_eq_Inr elim!: bindR_InrE split: option.splits intro!: good_greeters) blast

lemma greeter_del_keeps: "keeps n s (greeter_del seat s)"
  by (auto simp: greeter_del_def keeps_def gderef_eq_Inr elim!: bindR_InrE split: option.splits
      intro!: good_greeters gens_ok_del)

lemma session_activate_good: "good n s (session_activate h s)"
  by (simp add: session_activate_def good_emit split: option.split)

lemma greeter_restart_keeps:
  assumes act: "\<And>n s seat. keeps n s (act seat s)"
  shows "keeps n s (bindR (greeter_store d (\<lambda>g. g\<lparr>run_gen := run_gen g + 1\<rparr>) s)
    (\<lambda>s1. bindR (seat_greeter_pid_get g s1)
      (\<lambda>_. bindR (greeter_store d greeter_run_reset s1) (act seat))))"
  by (rule keeps_bind [OF greeter_store_keeps keeps_read [OF keeps_bind [OF greeter_store_keeps act]]])
     (simp_all add: greeter_run_reset_def)

lemma greeter_start_done_keeps:
  assumes act: "\<And>n s seat. keeps n s (act seat s)"
  shows "keeps n s (greeter_start_done_with act d e s)"
proof -
  have listen: "keeps n s (bindR (greeter_store d (\<lambda>g. g\<lparr>run_pid := pid, run_try := None\<rparr>) s)
      (\<lambda>s1. Inr (spawnregistery_listen pid (Some Greeter_done) d s1)))" for pid
    by (rule keeps_bind [OF greeter_store_keeps]) (simp_all add: good_listen_greeter)
  show ?thesis
    unfolding greeter_start_done_with_def
    by (rule keeps_read, rule keeps_if, rule greeter_restart_keeps [where act = act, OF act],
        rule keeps_read, rule keeps_read, rule keeps_read, rule listen)
qed

lemma greeter_done_keeps:
  assumes act: "\<And>n s seat. keeps n s (act seat s)"
  shows "keeps n s (greeter_done_with act d s)"
  unfolding greeter_done_with_def
  by (rule keeps_read, rule keeps_if, rule greeter_restart_keeps [where act = act, OF act],
      rule keeps_read, rule greeter_del_keeps)


subsection \<open>Tries\<close>

lemma good_free_try:
  assumes n: "n \<le> t" and lt: "t < next_try s"
    and fd: "\<And>fd. (fd, Child_data, Try_ref t) \<notin> set (live s)"
    and wait: "\<And>pid. (pid, Spawned_session_disappear, Try_ref t) \<notin> set (listeners s)"
  shows "good n s (free_try t s)"
proof -
  let ?u = "free_try t s"
  have v: "live ?u = live s" "listeners ?u = listeners s"
    by (auto simp: free_try_def intro: live_fds listeners_pending)
  have "fd_refs_ok ?u" if "fd_refs_ok s"
    using that fd unfolding fd_refs_ok_def v by (simp add: free_try_def) metis
  moreover have "wait_refs_ok ?u" if "wait_refs_ok s"
    using that wait unfolding wait_refs_ok_def v by (simp add: free_try_def) metis
  moreover have "fresh_ok ?u" if "fresh_ok s"
    using that by (simp add: fresh_ok_def free_try_def)
  ultimately show ?thesis using n v
    by (auto simp: good_def daemon_inv_def refs_ok_def gens_ok_def leaves_tries_def tidy_def reg_ok_def nulls_def
        zeroed_def) (simp_all add: free_try_def)
qed

lemma good_upd_try:
  assumes n: "n \<le> t" and f: "\<And>y. com_read (f y) = com_read y" "\<And>y. try_pid (f y) = try_pid y"
  shows "good n s (upd_try t f s)"
proof -
  let ?u = "upd_try t f s"
  have v: "live ?u = live s" "listeners ?u = listeners s"
    by (auto simp: upd_try_def intro: live_fds listeners_pending)
  have "fd_refs_ok ?u" if "fd_refs_ok s"
    using that unfolding fd_refs_ok_def v
    by (simp add: upd_try_def) (metis f(1) option.simps(9))
  moreover have "wait_refs_ok ?u" if "wait_refs_ok s"
    using that unfolding wait_refs_ok_def v
    by (simp add: upd_try_def) (metis f(2) option.simps(9))
  moreover have "fresh_ok ?u" if "fresh_ok s"
    using that by (simp add: fresh_ok_def upd_try_def)
  ultimately show ?thesis using n v
    by (auto simp: good_def daemon_inv_def refs_ok_def gens_ok_def leaves_tries_def tidy_def reg_ok_def nulls_def
        zeroed_def) (simp_all add: upd_try_def)
qed


lemma keepsI: "(daemon_inv s \<Longrightarrow> n \<le> next_try s \<Longrightarrow> keeps n s m) \<Longrightarrow> keeps n s m"
  by (auto simp: keeps_def good_def)

lemma keepsPI: "(daemon_inv s \<Longrightarrow> n \<le> next_try s \<Longrightarrow> keepsP n s m) \<Longrightarrow> keepsP n s m"
  by (auto simp: keepsP_def good_def)

lemma goodD:
  "good n s t \<Longrightarrow> daemon_inv s \<Longrightarrow> n \<le> next_try s \<Longrightarrow> daemon_inv t \<and> leaves_tries n s t"
  by (simp add: good_def)

text \<open>A callback of a try, seen from the operation that calls it.\<close>

definition done_ok :: "(done_fn \<Rightarrow> ref \<Rightarrow> spawn_end \<Rightarrow> 'a daemon_scheme \<Rightarrow> 'a daemon_scheme res) \<Rightarrow> bool" where
  "done_ok run_done \<longleftrightarrow> (\<forall>n cb d e s. keeps n s (run_done cb d e s))"

lemma try_fresh: "daemon_inv s \<Longrightarrow> tries s t = Some y \<Longrightarrow> t < next_try s"
  by (metis daemon_inv_def refs_ok_def gens_ok_def fresh_ok_def not_le option.distinct(1))

lemma try_reg:
  "daemon_inv s \<Longrightarrow> tries s t = Some y \<Longrightarrow> (fd, Child_data, Try_ref t) \<in> set (live s) \<Longrightarrow> fd = com_read y"
  by (fastforce simp: daemon_inv_def refs_ok_def gens_ok_def fd_refs_ok_def)

lemma try_listener:
  "daemon_inv s \<Longrightarrow> tries s t = Some y \<Longrightarrow>
   (pid, Spawned_session_disappear, Try_ref t) \<in> set (listeners s) \<Longrightarrow> pid = try_pid y"
  by (fastforce simp: daemon_inv_def refs_ok_def gens_ok_def wait_refs_ok_def)

lemma spawn_try_free_keeps:
  assumes run: "done_ok run_done" and n: "n \<le> t"
  shows "keeps n s (spawn_try_free run_done t s)"
proof (rule keepsI)
  assume inv: "daemon_inv s" and ns: "n \<le> next_try s"
  show "keeps n s (spawn_try_free run_done t s)"
  proof (cases "tries s t")
    case None
    then show ?thesis by (simp add: spawn_try_free_def)
  next
    case (Some y)
    let ?m = "manager_unregister_fd (com_read y) s"
    let ?s1 = "emit (Closed (com_read y)) ?m"
    let ?cb = "case done_cb y of None \<Rightarrow> Inr ?s1
        | Some cb \<Rightarrow> run_done cb (done_data y) \<lparr>end_success = exit_success y, end_message = error_msg y\<rparr> ?s1"
    have g1: "good k s ?s1" for k using good_unregister good_emit good_trans by blast
    from goodD [OF g1 inv ns] have inv1: "daemon_inv ?s1" by simp
    have t1: "tries ?s1 t = Some y" using Some
      by (simp add: emit_def manager_unregister_fd_def Let_def clear_objects_def split: option.split)
    have "live ?s1 = live ?m" by (rule live_fds) (simp add: emit_def)
    then have no1: "(fd, Child_data, Try_ref t) \<notin> set (live ?s1)" for fd
      using try_reg [OF inv1 t1] by (auto simp: live_unregister)
    have cb: "keeps k ?s1 ?cb" for k using run by (simp add: done_ok_def split: option.split)
    have "keeps n ?s1 (bindR ?cb
        (\<lambda>s2. bindR (deref (tries s2 t) Use_After_Free)
          (\<lambda>try2. Inr (free_try t
            (spawnregistery_unlisten (try_pid try2) Spawned_session_disappear (Try_ref t) s2)))))"
    proof (rule keeps_bind [OF cb], rule keeps_read, simp only: keeps_Inr)
      fix s2 y2
      assume s2: "?cb = Inr s2" and y2: "deref (tries s2 t) Use_After_Free = Inr y2"
      let ?u = "spawnregistery_unlisten (try_pid y2) Spawned_session_disappear (Try_ref t) s2"
      have "good (Suc t) ?s1 s2" using cb s2 unfolding keeps_def by blast
      moreover have "Suc t \<le> next_try ?s1" using try_fresh [OF inv1 t1] by simp
      ultimately have inv2: "daemon_inv s2" and lv: "leaves_tries (Suc t) ?s1 s2"
        using goodD inv1 by blast+
      have no2: "(fd, Child_data, Try_ref t) \<notin> set (live s2)" for fd
        using lv no1 by (auto simp: leaves_tries_def)
      have t2: "tries s2 t = Some y2" using y2 by (simp add: deref_eq_Inr)
      have core: "live ?u = live s2" "next_try ?u = next_try s2"
        by (subst unlisten_shape, simp add: live_def)+
      have "good n ?u (free_try t ?u)"
      proof (rule good_free_try [OF n])
        show "t < next_try ?u" using try_fresh [OF inv2 t2] core by simp
        show "\<And>fd. (fd, Child_data, Try_ref t) \<notin> set (live ?u)" using no2 core by simp
        show "\<And>pid. (pid, Spawned_session_disappear, Try_ref t) \<notin> set (listeners ?u)"
          using try_listener [OF inv2 t2] by (auto simp: listeners_unlisten)
      qed
      with good_unlisten show "good n s2 (free_try t ?u)" by (rule good_trans)
    qed
    then have "keeps n s (bindR ?cb
        (\<lambda>s2. bindR (deref (tries s2 t) Use_After_Free)
          (\<lambda>try2. Inr (free_try t
            (spawnregistery_unlisten (try_pid try2) Spawned_session_disappear (Try_ref t) s2)))))"
      by (rule keeps_good [OF g1])
    with Some show ?thesis by (simp add: spawn_try_free_def Let_def)
  qed
qed


text \<open>The parent's half of a successful \<open>fork\<close>: watch the pipe, wait for the process, note its id.\<close>

lemma good_watch_try:
  assumes n: "n \<le> t" and t: "tries s t = Some y" and fd: "com_read y \<notin> set (watched s)"
    and wait: "\<And>pid. (pid, Spawned_session_disappear, Try_ref t) \<notin> set (listeners s)"
  shows "good n s (upd_try t (\<lambda>y. y\<lparr>try_pid := pid\<rparr>)
    (spawnregistery_listen pid (Some Spawned_session_disappear) (Try_ref t)
      (manager_register_fd (com_read y) (Some Child_data) (Try_ref t) s)))"
proof -
  let ?a = "manager_register_fd (com_read y) (Some Child_data) (Try_ref t) s"
  let ?b = "spawnregistery_listen pid (Some Spawned_session_disappear) (Try_ref t) ?a"
  let ?u = "upd_try t (\<lambda>y. y\<lparr>try_pid := pid\<rparr>) ?b"
  have fds: "fds ?u = fds ?a" "changes ?u = changes s" "readout ?u = readout s"
    by (simp_all add: upd_try_def spawnregistery_listen_def manager_register_fd_def)
  have lv: "live ?u = live s @ [(com_read y, Child_data, Try_ref t)]"
    using live_fds [OF fds(1)] by (simp add: live_register)
  have pend: "pending ?u = pending ?b" by (simp add: upd_try_def)
  have pa: "pending ?a = pending s" by (simp add: manager_register_fd_def)
  have ls: "listeners ?u = listeners s @ [(pid, Spawned_session_disappear, Try_ref t)]"
    using listeners_pending [OF pend] listeners_pending [OF pa] by (simp add: listeners_listen)
  have core: "eval_mode ?u = eval_mode s" "next_try ?u = next_try s" "clients ?u = clients s"
    "next_client ?u = next_client s" "greeters ?u = greeters s" "tries ?u = (tries s)(t := Some (y\<lparr>try_pid := pid\<rparr>))"
    using t by (simp_all add: upd_try_def spawnregistery_listen_def manager_register_fd_def)
  have "tidy ?u" if "tidy s"
  proof -
    have "tidy ?a" using that fd by (intro tidy_register) (simp_all add: watched_live)
    then show ?thesis using live_fds [OF fds(1)] fds by (simp add: tidy_def nulls_def)
  qed
  moreover have "reg_ok ?u" if "reg_ok s"
  proof -
    have "reg_ok ?a" using that pa by (simp add: reg_ok_def zeroed_def manager_register_fd_def)
    then have "reg_ok ?b" by (rule reg_ok_listen)
    then show ?thesis by (simp add: reg_ok_def zeroed_def upd_try_def)
  qed
  moreover have "fd_refs_ok ?u" if "fd_refs_ok s"
    using that t unfolding fd_refs_ok_def lv core by auto (metis option.sel)+
  moreover have "wait_refs_ok ?u" if "wait_refs_ok s"
    using that wait unfolding wait_refs_ok_def ls core by simp metis
  moreover have "fresh_ok ?u" if "fresh_ok s"
    using that t by (auto simp: fresh_ok_def core)
  ultimately show ?thesis using n lv ls core fds
    by (auto simp: good_def daemon_inv_def refs_ok_def gens_ok_def leaves_tries_def)
qed

lemma child_run_keeps:
  assumes n: "n \<le> t" and t: "tries s t = Some y" and fd: "com_read y \<notin> set (watched s)"
    and wait: "\<And>pid. (pid, Spawned_session_disappear, Try_ref t) \<notin> set (listeners s)"
  shows "keepsP n s (child_run os t s)"
proof -
  have taken: "keepsP n s (case tty of
        None \<Rightarrow> Inr (False, service_com_exit y ''Failed to find tty'' s1)
      | Some _ \<Rightarrow>
          let pid = os_fork os (nforks s1); s2 = s1\<lparr>nforks := Suc (nforks s1)\<rparr>
          in if pid = -1 then Inr (False, s2)
             else Inr (True, child_started t y pid (emit (Forked pid) s2)))"
    if a: "available_tty os seat s = Inr (tty, s1)" for s1 seat tty
  proof -
    from available_tty_counter [OF a] obtain c where s1: "s1 = s\<lparr>tty_counter := c\<rparr>"
      and c: "tty_counter s \<le> c" "c \<le> max (tty_counter s) (LAST_TTY + 1)" "tty \<noteq> None \<longrightarrow> tty_counter s < c" by blast
    let ?s2 = "s1\<lparr>nforks := Suc (nforks s1)\<rparr>"
    let ?s3 = "emit (Closed (com_write y)) (emit (Forked (os_fork os (nforks s1))) ?s2)"
    have p: "spends (purse s) (purse s1)" "tty \<noteq> None \<longrightarrow> spends (purse s) (purse ?s2)"
      using c by (auto simp: s1 purse_def spends_def)
    have e: "same_core s s1" "same_core s ?s2" "same_core s ?s3" by (simp_all add: s1 same_core_def emit_def)
    have v: "tries ?s3 t = Some y" "live ?s3 = live s" "listeners ?s3 = listeners s"
      using t s1 by (auto simp: emit_def intro: live_fds listeners_pending)
    have watch: "good n ?s3 (upd_try t (\<lambda>y. y\<lparr>try_pid := pid\<rparr>)
      (spawnregistery_listen pid (Some Spawned_session_disappear) (Try_ref t)
        (manager_register_fd (com_read y) (Some Child_data) (Try_ref t) ?s3)))" for pid
      by (rule good_watch_try [OF n v(1)]) (use fd wait v in \<open>simp_all add: watched_live\<close>)
    show ?thesis
    proof (cases tty)
      case None
      have "good n s (service_com_exit y ''Failed to find tty'' s1)"
        unfolding service_com_exit_def service_message_def
        using good_same_core [OF e(1) p(1)] good_emit by (rule good_trans)
      with None show ?thesis by simp
    next
      case (Some name)
      have "good n s ?s2" "good n s ?s3" using Some p(2) e(2,3) by (auto intro!: good_same_core)
      with watch Some show ?thesis
        by (auto simp: Let_def child_started_def intro: good_trans)
    qed
  qed
  show ?thesis
    using t unfolding child_run_def
    by (auto intro!: keepsP_read taken)
qed


lemma good_new_try:
  assumes t: "t = next_try s"
  shows "good n s (s\<lparr>tries := (tries s)(t := Some y), next_try := Suc t\<rparr>)"
proof -
  let ?u = "s\<lparr>tries := (tries s)(t := Some y), next_try := Suc t\<rparr>"
  have v: "live ?u = live s" "listeners ?u = listeners s"
    by (auto intro: live_fds listeners_pending)
  have none: "tries s t = None" if "fresh_ok s" using that t by (simp add: fresh_ok_def)
  have "fd_refs_ok ?u" if "fd_refs_ok s" "fresh_ok s"
    using that(1) none [OF that(2)] unfolding fd_refs_ok_def v by simp (metis option.distinct(1))
  moreover have "wait_refs_ok ?u" if "wait_refs_ok s" "fresh_ok s"
    using that(1) none [OF that(2)] unfolding wait_refs_ok_def v by simp (metis option.distinct(1))
  moreover have "fresh_ok ?u" if "fresh_ok s"
    using that t by (simp add: fresh_ok_def)
  ultimately show ?thesis using t v
    by (simp add: good_def daemon_inv_def refs_ok_def gens_ok_def leaves_tries_def tidy_def reg_ok_def nulls_def
        zeroed_def)
qed

lemma spawn_keeps:
  assumes k: "kernel_ok os" and run: "done_ok run_done"
  shows "keepsP n s (spawnservice_spawn os run_done cb d jb ended svc user pass sett s)"
proof (rule keepsPI)
  assume inv: "daemon_inv s" and n: "n \<le> next_try s"
  let ?s1 = "s\<lparr>npipes := Suc (npipes s)\<rparr>"
  let ?t = "next_try ?s1"
  have s1: "good n s ?s1" by (rule good_same_core) (simp_all add: same_core_def)
  show "keepsP n s (spawnservice_spawn os run_done cb d jb ended svc user pass sett s)"
  proof (cases "os_pipe os (npipes s) (watched s)")
    case None
    with s1 show ?thesis by (simp add: spawnservice_spawn_def Let_def)
  next
    case (Some p)
    then obtain rd wr where p: "os_pipe os (npipes s) (watched s) = Some (rd, wr)" by (cases p) auto
    let ?y = "\<lparr>com_read = rd, com_write = wr, job = jb, session_ended = ended,
                        done_cb = Some cb, done_data = d, service = svc, usr = user,
                        pw = pass, st_session = None, error_msg = None,
                        exit_success = SPAWN_SERVICE_ERROR, try_pid = 0,
                        settings = (case sett of None \<Rightarrow> no_settings | Some x \<Rightarrow> x)\<rparr>"
    let ?s2 = "?s1\<lparr>tries := (tries ?s1)(?t := Some ?y), next_try := Suc ?t\<rparr>"
    have s2: "good n s ?s2" by (rule good_trans [OF s1 good_new_try]) simp
    have v: "live ?s2 = live s" "listeners ?s2 = listeners s"
      by (auto intro: live_fds listeners_pending)
    have "rd \<notin> set (watched s)" using k p unfolding kernel_ok_def by blast
    then have "rd \<notin> set (watched ?s2)" using v by (simp add: watched_live)
    moreover have "tries s (next_try s) = None"
      using inv by (simp add: daemon_inv_def refs_ok_def gens_ok_def fresh_ok_def)
    then have "(pid, Spawned_session_disappear, Try_ref ?t) \<notin> set (listeners ?s2)" for pid
      using inv v by (fastforce simp: daemon_inv_def refs_ok_def gens_ok_def wait_refs_ok_def)
    ultimately have run_keeps: "keepsP n ?s2 (child_run os ?t ?s2)"
      using n by (intro child_run_keeps [where y = ?y]) simp_all
    have "keepsP n ?s2 (bindR (child_run os ?t ?s2)
        (\<lambda>(ok, s3). if ok then Inr (Some ?t, s3)
                   else bindR (spawn_try_free run_done ?t s3) (\<lambda>s4. Inr (Some ?t, s4))))"
    proof (rule keepsP_bindP [OF run_keeps], unfold prod.case)
      fix ok s3
      have "keepsP n s3 (bindR (spawn_try_free run_done ?t s3) (\<lambda>s4. Inr (Some ?t, s4)))"
        using n by (intro keepsP_bind [OF spawn_try_free_keeps [OF run]]) simp_all
      then show "keepsP n s3 (if ok then Inr (Some ?t, s3)
                   else bindR (spawn_try_free run_done ?t s3) (\<lambda>s4. Inr (Some ?t, s4)))"
        by simp
    qed
    then have "keepsP n s (bindR (read_cell (session_seat (settings ?y)))
        (\<lambda>_. bindR (child_run os ?t ?s2)
          (\<lambda>(ok, s3). if ok then Inr (Some ?t, s3)
                     else bindR (spawn_try_free run_done ?t s3) (\<lambda>s4. Inr (Some ?t, s4)))))"
      by (rule keepsP_read [OF keepsP_good [OF s2]])
    then show ?thesis unfolding spawnservice_spawn_def Let_def p option.case prod.case by simp
  qed
qed

lemma activate_keeps:
  fixes s :: "'a daemon_scheme"
  assumes k: "kernel_ok os"
  shows "keeps n s (activate_greeter os seat s)"
proof -
  have "keeps n s (greeter_activate (session_done os) os fuel seat s)"
    for fuel n seat and s :: "'a daemon_scheme"
  proof (induction fuel arbitrary: n s seat)
    case (Suc fuel)
    let ?run = "(\<lambda>cb d e. case cb of
        Greeter_start_done \<Rightarrow> greeter_start_done_with (greeter_activate (session_done os) os fuel) d e
      | Session_done \<Rightarrow> session_done os d e)
        :: done_fn \<Rightarrow> ref \<Rightarrow> spawn_end \<Rightarrow> 'a daemon_scheme \<Rightarrow> 'a daemon_scheme res"
    have "keeps n s (greeter_start_done_with (greeter_activate (session_done os) os fuel) d e s)"
      for n d e and s :: "'a daemon_scheme"
      by (rule greeter_start_done_keeps) (rule Suc.IH)
    then have run: "done_ok ?run"
      unfolding done_ok_def by (auto split: done_fn.split intro: session_done_keeps)
    have spawn: "keeps n s1 (bindR (spawnservice_spawn os ?run cb d jb ended svc user pass sett s1)
        (\<lambda>(t, s2). greeter_store g (\<lambda>g. g\<lparr>run_try := t\<rparr>) s2))" for s1 cb d jb ended svc user pass sett g
      by (rule keeps_bindP [OF spawn_keeps [OF k run]]) (simp add: greeter_store_keeps)
    show ?case
      unfolding greeter_activate.simps
      by (rule keeps_bindP [OF greeter_find_or_add_keeps], unfold prod.case, rule keeps_read,
          rule keeps_read)
        (simp add: session_activate_good spawn split: option.split)
  qed simp
  then show ?thesis by (simp add: activate_greeter_def)
qed

lemma try_done_ok:
  assumes "kernel_ok os"
  shows "done_ok (try_done os :: done_fn \<Rightarrow> ref \<Rightarrow> spawn_end \<Rightarrow> 'a daemon_scheme \<Rightarrow> 'a daemon_scheme res)"
proof -
  have "keeps n s (greeter_start_done_with (activate_greeter os) d e s)"
    for n d e and s :: "'a daemon_scheme"
    by (rule greeter_start_done_keeps) (rule activate_keeps [OF assms])
  then show ?thesis
    unfolding done_ok_def try_done_def by (auto split: done_fn.split intro: session_done_keeps)
qed


subsection \<open>Callbacks of the event loop and of the registry\<close>

lemma good_emits: "good n s t \<Longrightarrow> good n s (emit e t)"
  using good_emit good_trans by blast

lemma force_quit_good: "good n s (force_quit y s)"
  by (simp add: force_quit_def good_emit)

lemma child_data_keeps:
  assumes k: "kernel_ok os"
  shows "keeps 0 s (child_data os (try_done os) d fd s)"
proof (cases d)
  case (Try_ref t)
  let ?s1 = "s\<lparr>nreads := Suc (nreads s)\<rparr>"
  have s1: "good 0 s ?s1" by (rule good_same_core) (simp_all add: same_core_def)
  have upd: "good 0 x (upd_try t (\<lambda>y. y\<lparr>st_session := v\<rparr>) x)"
    "good 0 x (upd_try t (\<lambda>y. y\<lparr>exit_success := w\<rparr>) x)"
    "good 0 x (upd_try t (\<lambda>y. y\<lparr>error_msg := m\<rparr>) x)" for x :: "'a daemon_scheme" and v w m
    by (rule good_upd_try; simp)+
  have setup_done: "good 0 x (session_activate v (if P then force_quit y (upd_try t (\<lambda>y. y\<lparr>st_session := v\<rparr>) x)
      else upd_try t (\<lambda>y. y\<lparr>st_session := v\<rparr>) x))" for x :: "'a daemon_scheme" and v P y
    by (rule good_trans [OF _ session_activate_good]) (auto intro: good_trans [OF upd(1) force_quit_good] upd(1))
  have active: "keeps 0 x (spawn_try_free (try_done os) t
      (upd_try t (\<lambda>y. y\<lparr>exit_success := w\<rparr>) (manager_unregister_fd f x)))" for x :: "'a daemon_scheme" and w f
    by (rule keeps_good [OF good_unregister], rule keeps_good [OF upd(2)],
        rule spawn_try_free_keeps [OF try_done_ok [OF k]]) simp
  have failed: "good 0 x (upd_try t (\<lambda>y. y\<lparr>error_msg := m\<rparr>) (manager_unregister_fd f x))"
    for x :: "'a daemon_scheme" and m f
    by (rule good_trans [OF good_unregister upd(3)])
  have quit: "good 0 x (force_quit y (manager_unregister_fd f x))" for x :: "'a daemon_scheme" and y f
    by (rule good_trans [OF good_unregister force_quit_good])
  have "keeps 0 ?s1 (child_data os (try_done os) d fd s)"
    unfolding child_data_def Try_ref ref.case Let_def
    by (auto split: input.split spawn_message_type.split
        intro!: keeps_read active simp: setup_done failed quit)
  then show ?thesis by (rule keeps_good [OF s1])
qed (simp_all add: child_data_def)

lemma SAFE_CALL_keeps: "(\<And>s. keeps n s (body s)) \<Longrightarrow> keeps n s (SAFE_CALL os c body s)"
  unfolding SAFE_CALL_def
  by (rule keeps_read, rule keeps_read, rule keeps_if) (simp_all add: client_free_keeps)

lemma handle_hello_keeps: "keeps n s (handle_hello os seat fd s)"
  unfolding handle_hello_def by (rule keeps_read) (simp add: send_keeps)

lemma handle_activation_keeps: "keeps n s (handle_activation os c h seat fd s)"
proof -
  have "good n s (server_spawnservice_feedback ok m fd (session_activate h s))" for ok m
    using session_activate_good feedback_keeps by (rule good_trans)
  then have "keeps n s (bindR (greeter_lockout seat
      (server_spawnservice_feedback ok m fd (session_activate h s))) (client_goodbye c))" for ok m
    by (rule keeps_good) (rule keeps_bind [OF greeter_lockout_keeps client_goodbye_keeps])
  then show ?thesis
    unfolding handle_activation_def by (intro keeps_read) (simp add: feedback_keeps)
qed

lemma handle_login_keeps:
  assumes k: "kernel_ok os"
  shows "keeps n s (handle_login os c login seat fd s)"
proof -
  have upd: "good n s1 (let s2 = upd_client c (\<lambda>x. x\<lparr>cl_try := t\<rparr>) s1 in
      if t = None then server_spawnservice_feedback False m fd s2 else s2)" for s1 :: "'a daemon_scheme" and t m
    by (simp add: Let_def good_upd_client_try good_trans [OF good_upd_client_try feedback_keeps])
  have spawn: "keeps n s (bindR (spawnservice_spawn os (try_done os) cb d jb ended svc u p sett s)
      (\<lambda>(t, s1). bindR (get_client c s1)
        (\<lambda>_. let s2 = upd_client c (\<lambda>x. x\<lparr>cl_try := t\<rparr>) s1
             in Inr (if t = None then server_spawnservice_feedback False m fd s2 else s2))))"
    for cb d jb ended svc u p sett m
    by (rule keeps_bindP [OF spawn_keeps [OF k try_done_ok [OF k]]], unfold prod.case, rule keeps_read)
       (use upd in \<open>simp add: Let_def\<close>)
  show ?thesis
    unfolding handle_login_def
    by (rule keeps_read, rule keeps_if, simp add: feedback_keeps, rule keeps_read, rule keeps_read,
        rule spawn)
qed


lemma handle_start_keeps:
  assumes k: "kernel_ok os"
  shows "keeps n s (handle_start os c seat s)"
  unfolding handle_start_def
  by (rule keeps_read, rule keeps_if, rule client_free_keeps,
      rule keeps_bind [OF activate_keeps [OF k] client_goodbye_keeps])

lemma handle_message_keeps:
  assumes k: "kernel_ok os"
  shows "keeps n s (handle_message os c msg fd s)"
proof -
  have fin: "keeps n s m \<Longrightarrow> keeps n s (bindR m (\<lambda>t. if b then Inl Bad_Free else Inr t))" for m b
    by (rule keeps_bind) simp_all
  show ?thesis
    unfolding handle_message_def Let_def
    by (rule keeps_read, rule fin)
       (auto split: greeter_message_type.split
         intro!: SAFE_CALL_keeps handle_hello_keeps handle_activation_keeps
           handle_login_keeps [OF k] handle_start_keeps [OF k])
qed

lemma client_data_keeps:
  assumes k: "kernel_ok os"
  shows "keeps n s (client_data os d fd s)"
proof (cases d)
  case (Client_ref c)
  let ?s1 = "s\<lparr>nreads := Suc (nreads s)\<rparr>"
  have s1: "good n s ?s1" by (rule good_same_core) (simp_all add: same_core_def)
  have gone: "keeps n x (client_free c (manager_unregister_fd fd x))" for x :: "'a daemon_scheme"
    by (rule keeps_good [OF good_unregister client_free_keeps])
  have "keeps n ?s1 (client_data os d fd s)"
    unfolding client_data_def Client_ref ref.case Let_def
    by (auto split: input.split simp: gone handle_message_keeps [OF k])
  then show ?thesis by (rule keeps_good [OF s1])
qed (simp_all add: client_data_def)

lemma good_accept:
  assumes k: "kernel_ok os"
  shows "good n s (accept_ready os fd s)"
proof (cases "so_peercred os (os_accept os (naccepts s) (watched s))")
  case None
  then show ?thesis
    by (simp add: accept_ready_def client_connect_def Let_def)
       (rule good_same_core, simp_all add: same_core_def)
next
  case (Some pid)
  let ?fd = "os_accept os (naccepts s) (watched s)" and ?c = "next_client s"
  let ?u = "accept_ready os fd s"
  let ?x = "s\<lparr>naccepts := Suc (naccepts s), clients := (clients s)
      (?c := Some \<lparr>cl_fd = ?fd, cl_pid = pid, cl_try = None\<rparr>), next_client := Suc ?c\<rparr>"
  have u: "?u = manager_register_fd ?fd (Some Client_data) (Client_ref ?c) ?x"
    using Some by (simp add: accept_ready_def client_connect_def Let_def)
  have x: "live ?x = live s" by (rule live_fds) simp
  have lv: "live ?u = live s @ [(?fd, Client_data, Client_ref ?c)]"
    unfolding u live_register x ..
  have "pending ?u = pending s" unfolding u by (simp add: manager_register_fd_def)
  then have ls: "listeners ?u = listeners s" by (rule listeners_pending)
  have core: "eval_mode ?u = eval_mode s" "readout ?u = readout s" "tries ?u = tries s"
    "next_try ?u = next_try s" "next_client ?u = Suc ?c" "greeters ?u = greeters s" "pending ?u = pending s"
    "stock ?u = stock s" "purse ?u = purse s"
    "clients ?u = (clients s)(?c := Some \<lparr>cl_fd = ?fd, cl_pid = pid, cl_try = None\<rparr>)"
    unfolding u by simp_all (simp_all add: manager_register_fd_def)
  have "?fd \<notin> set (watched s)" using k unfolding kernel_ok_def by blast
  then have "tidy ?u" if "tidy s"
  proof -
    have "tidy ?x" using that x by (simp add: tidy_def nulls_def)
    then show ?thesis
      unfolding u using \<open>?fd \<notin> set (watched s)\<close> x by (intro tidy_register) (simp_all add: watched_live)
  qed
  moreover have "fd_refs_ok ?u" if "fd_refs_ok s" "fresh_ok s"
  proof -
    have "clients s ?c = None" using that(2) by (simp add: fresh_ok_def)
    with that(1) show ?thesis
      unfolding fd_refs_ok_def lv core by simp (metis option.distinct(1))
  qed
  moreover have "fresh_ok ?u" if "fresh_ok s" using that by (auto simp: fresh_ok_def core)
  ultimately show ?thesis using lv ls core
    by (auto simp: good_def daemon_inv_def refs_ok_def gens_ok_def wait_refs_ok_def leaves_tries_def
        reg_ok_def zeroed_def)
qed

lemma fd_dispatch_keeps:
  assumes "kernel_ok os"
  shows "keeps 0 s (fd_dispatch os cb d fd s)"
  unfolding fd_dispatch_def
  by (auto split: fd_cb.split
      simp: child_data_keeps [OF assms] client_data_keeps [OF assms] good_accept [OF assms])

lemma wait_dispatch_keeps:
  fixes s :: "'a daemon_scheme"
  assumes "kernel_ok os"
  shows "keeps 0 s (wait_dispatch os h d status pid s)"
proof -
  have "keeps 0 s (spawned_session_disappear (try_done os) d s)"
    unfolding spawned_session_disappear_def
    by (auto split: ref.split intro!: spawn_try_free_keeps try_done_ok [OF assms])
  moreover have "keeps 0 s (greeter_done_with (activate_greeter os) d s)"
    by (rule greeter_done_keeps) (rule activate_keeps [OF assms])
  ultimately show ?thesis unfolding wait_dispatch_def by (simp split: wait_cb.split)
qed

end
