(* ===== verification/Daemon_Loop.thy ===== *)
theory Daemon_Loop
  imports Daemon
begin

section \<open>The running daemon: event loop, child signals, reachable states\<close>

text \<open>
  The contracts of the event loop (\<open>fd_callbacks\<close>) and of the registry (\<open>wait_handlers\<close>),
  discharged by the callbacks that the daemon registers, and the step relation of the whole
  program: turns of the loop and deliveries of \<open>SIGCHLD\<close> between them and between the callbacks of
  one turn, in any order, with any answers of the operating system that satisfy \<open>kernel_ok\<close>. (A
  signal that arrives while a callback runs executes the same handler in the middle of that
  callback; that interleaving is not modelled.)
\<close>

subsection \<open>No callback runs out of the budget of the model\<close>

lemma gens_ok_more: "spawner.more s' = spawner.more s \<Longrightarrow> gens_ok s \<Longrightarrow> gens_ok s'"
  using greeters_more [of s' s] by (simp add: gens_ok_def)

lemma gens_ok_enough: "gens_ok s \<Longrightarrow> enough_for greeter_fuel seat s"
  by (auto simp: gens_ok_def enough_for_def greeter_fuel_def split: option.split dest!: find_index_SomeD)

lemma activate_ends: "gens_ok s \<Longrightarrow> ends (activate_greeter os seat s)"
  unfolding activate_greeter_def by (rule greeter_activate_ends [OF gens_ok_enough])

lemma gens_ok_store:
  assumes "gens_ok s" "greeter_store d f s = Inr t" "\<And>g. 0 \<le> run_gen g \<Longrightarrow> 0 \<le> run_gen (f g)"
    "\<And>g. g_seat (f g) = g_seat g"
  shows "gens_ok t"
  using assms(1,2)
  by (auto simp: greeter_store_def greeter_deref_def deref_eq_Inr tarray_get_def gderef_eq_Inr
      elim!: bindR_InrE split: ref.splits gptr.splits if_splits
      intro!: gens_ok_set assms(3,4) gens_ok_get)

lemma restart_with_ends:
  assumes "gens_ok s"
  shows "ends (bindR (greeter_store d (\<lambda>g. g\<lparr>run_gen := run_gen g + 1\<rparr>) s)
    (\<lambda>s1. bindR (seat_greeter_pid_get g s1)
      (\<lambda>_. bindR (greeter_store d greeter_run_reset s1) (activate_greeter os seat))))"
proof (rule ends_bind [OF ends_greeter_store])
  fix s1 assume s1: "greeter_store d (\<lambda>g. g\<lparr>run_gen := run_gen g + 1\<rparr>) s = Inr s1"
  have g1: "gens_ok s1" by (rule gens_ok_store [OF assms s1]) simp_all
  show "ends (bindR (seat_greeter_pid_get g s1)
      (\<lambda>_. bindR (greeter_store d greeter_run_reset s1) (activate_greeter os seat)))"
  proof (rule ends_bind [OF ends_pid_get], rule ends_bind [OF ends_greeter_store])
    fix s2 assume "greeter_store d greeter_run_reset s1 = Inr s2"
    from gens_ok_store [OF g1 this] show "ends (activate_greeter os seat s2)"
      by (intro activate_ends) (simp_all add: greeter_run_reset_def)
  qed
qed

lemma greeter_start_done_ends:
  "gens_ok s \<Longrightarrow> ends (greeter_start_done_with (activate_greeter os) d e s)"
  unfolding greeter_start_done_with_def
  by (rule ends_bind [OF ends_greeter_deref], rule ends_if, erule restart_with_ends)
     (auto intro!: ends_bind ends_pid_get ends_greeter_store)

lemma ends_greeter_del: "ends (greeter_del seat s)"
  by (auto simp: greeter_del_def intro!: ends_bind)

lemma greeter_done_ends: "gens_ok s \<Longrightarrow> ends (greeter_done_with (activate_greeter os) d s)"
  unfolding greeter_done_with_def
  by (rule ends_bind [OF ends_greeter_deref], rule ends_if, erule restart_with_ends)
     (auto intro!: ends_bind ends_pid_get ends_greeter_del)

lemma ends_get_client [simp]: "ends (get_client c s)"
  by (simp add: get_client_def)

lemma ends_client_free [simp]: "ends (client_free c s)"
  by (auto simp: client_free_def Let_def intro!: ends_bind)

lemma ends_client_goodbye [simp]: "ends (client_goodbye c s)"
  by (auto simp: client_goodbye_def intro!: ends_bind)

lemma ends_lockout [simp]: "ends (greeter_lockout seat s)"
  by (auto simp: greeter_lockout_def greeter_search_def intro!: ends_bind split: option.split)

lemma session_done_ends: "ends (session_done os d e s)"
  by (auto simp: session_done_def intro!: ends_bind split: ref.split)

lemma try_done_ends: "gens_ok s \<Longrightarrow> ends (try_done os cb d e s)"
  by (simp add: try_done_def session_done_ends greeter_start_done_ends split: done_fn.split)

lemma spawn_try_free_ends: "gens_ok s \<Longrightarrow> ends (spawn_try_free (try_done os) t s)"
  by (rule ends_spawn_try_free) (auto split: option.split intro: try_done_ends gens_ok_more)

lemma child_data_ends:
  assumes "gens_ok s"
  shows "ends (child_data os (try_done os) d fd s)"
proof (cases d)
  case (Try_ref t)
  have "gens_ok (upd_try t f (manager_unregister_fd x (s\<lparr>nreads := k\<rparr>)))" for f x k
    by (rule gens_ok_more [OF _ assms]) simp
  then show ?thesis
    unfolding child_data_def Try_ref ref.case Let_def
    by (auto intro!: ends_bind spawn_try_free_ends split: input.split spawn_message_type.split)
qed (simp_all add: child_data_def)

lemma ends_client_is_greeter: "ends (client_is_greeter os cl s)"
proof -
  have "ends (sid_among os sid gs s)" for sid gs
    by (induction gs) (auto intro!: ends_bind ends_pid_get)
  then show ?thesis
    by (auto simp: client_is_greeter_def greeter_exists_sid_def intro!: ends_bind)
qed

lemma ends_load_data: "ends (load_data os seat s)"
proof -
  have 1: "ends (template_details_get tid s)" for tid
    by (auto simp: template_details_get_def find_temp_def intro!: ends_bind)
  have 2: "ends (user_db_field_get n f db)" for n f db
    by (auto simp: user_db_field_get_def Let_def intro!: ends_bind split: option.split)
  have 3: "ends (load_sessions_loop os number raws i off slots)" for number raws i off slots
    by (induction raws arbitrary: i off slots)
       (auto simp: Let_def intro!: ends_bind ends_session_details)
  show ?thesis
    unfolding load_data_def load_templates_def load_users_def load_user_def load_sessions_def
      template_get_def user_db_users_iterate_def Let_def
    by (auto intro!: ends_bind ends_foldR 1 2 3)
qed

lemma handle_login_ends: "gens_ok s \<Longrightarrow> ends (handle_login os c login seat fd s)"
  unfolding handle_login_def template_details_get_def find_temp_def
  by (auto simp: Let_def intro!: ends_bind ends_spawn try_done_ends elim: gens_ok_more)

lemma handle_message_ends:
  assumes "gens_ok s"
  shows "ends (handle_message os c msg fd s)"
  unfolding handle_message_def Let_def SAFE_CALL_def handle_hello_def handle_activation_def handle_start_def
  using assms
  by (auto intro!: ends_bind ends_client_is_greeter ends_load_data ends_session_details activate_ends
      handle_login_ends split: greeter_message_type.split)

lemma client_data_ends:
  assumes "gens_ok s"
  shows "ends (client_data os d fd s)"
proof -
  have "gens_ok (s\<lparr>nreads := k\<rparr>)" for k by (rule gens_ok_more [OF _ assms]) simp
  then show ?thesis
    by (auto simp: client_data_def Let_def intro: handle_message_ends split: ref.split input.split)
qed

lemma fd_dispatch_ends: "gens_ok s \<Longrightarrow> ends (fd_dispatch os cb d fd s)"
  by (auto simp: fd_dispatch_def intro: child_data_ends client_data_ends split: fd_cb.split)

lemma wait_dispatch_ends: "gens_ok s \<Longrightarrow> ends (wait_dispatch os h d status pid s)"
  by (auto simp: wait_dispatch_def spawned_session_disappear_def
      intro: spawn_try_free_ends greeter_done_ends split: wait_cb.split ref.split)


subsection \<open>The contracts of loop and registry, discharged\<close>

text \<open>
  What a callback needs to hold, besides the tidiness of the two arrays: the kernel behaves, and
  every registration points to a live object. No callback changes what the daemon has to offer, and
  none starts a child without taking a terminal for it.
\<close>

definition loop_inv :: "os \<Rightarrow> bool \<Rightarrow> stock \<times> purse \<Rightarrow> 'a daemon_scheme \<Rightarrow> bool" where
  "loop_inv os v k s \<longleftrightarrow> kernel_ok os \<and> refs_ok s \<and> reg_ok s \<and> eval_mode s = v \<and> stock s = fst k \<and>
     spends (snd k) (purse s)"

definition reap_inv :: "os \<Rightarrow> bool \<Rightarrow> stock \<times> purse \<Rightarrow> 'a daemon_scheme \<Rightarrow> bool" where
  "reap_inv os v k s \<longleftrightarrow> kernel_ok os \<and> refs_ok s \<and> tidy s \<and> readout s = v \<and> stock s = fst k \<and>
     spends (snd k) (purse s)"

lemma keepsD:
  "keeps 0 s m \<Longrightarrow> m = Inr t \<Longrightarrow> daemon_inv s \<Longrightarrow>
   daemon_inv t \<and> readout t = readout s \<and> eval_mode t = eval_mode s \<and> stock t = stock s \<and> spends (purse s) (purse t)"
  by (simp add: keeps_def good_def leaves_tries_def)

interpretation loop: fd_callbacks "fd_dispatch os" "loop_inv os v k" "\<lambda>e. e \<noteq> Out_Of_Fuel"
  for os v k
proof
  fix s :: "'a daemon_scheme" and x c b
  assume I: "loop_inv os v k s" and sub: "set (live (s\<lparr>fds := x, changes := c, readout := b\<rparr>)) \<subseteq> set (live s)"
  have "listeners (s\<lparr>fds := x, changes := c, readout := b\<rparr>) = listeners s"
    by (rule listeners_pending) simp
  with I sub show "loop_inv os v k (s\<lparr>fds := x, changes := c, readout := b\<rparr>)"
    by (simp add: loop_inv_def refs_ok_def gens_ok_def fd_refs_ok_def wait_refs_ok_def fresh_ok_def
        reg_ok_def zeroed_def) blast
next
  fix s t :: "'a daemon_scheme" and fd cb d
  assume s: "loop_inv os v k s" "tidy s" "readout s" and r: "fd_dispatch os cb d fd s = Inr t"
  from s have "kernel_ok os" by (simp add: loop_inv_def)
  then have "keeps 0 s (fd_dispatch os cb d fd s)" by (rule fd_dispatch_keeps)
  from keepsD [OF this r] s show "loop_inv os v k t \<and> tidy t \<and> readout t"
    by (auto simp: loop_inv_def daemon_inv_def intro: spends_trans)
next
  fix s :: "'a daemon_scheme" and fd cb d e
  assume "loop_inv os v k s" and "fd_dispatch os cb d fd s = Inl e"
  with fd_dispatch_ends [of s os cb d fd] show "e \<noteq> Out_Of_Fuel"
    by (auto simp: loop_inv_def refs_ok_def)
qed

interpretation reaper: wait_handlers "wait_dispatch os" "reap_inv os v k" "\<lambda>e. e \<noteq> Out_Of_Fuel"
  for os v k
proof
  fix s :: "'a daemon_scheme" and x b
  assume I: "reap_inv os v k s" and sub: "set (listeners (s\<lparr>pending := x, eval_mode := b\<rparr>)) \<subseteq> set (listeners s)"
  have "live (s\<lparr>pending := x, eval_mode := b\<rparr>) = live s" by (rule live_fds) simp
  with I sub show "reap_inv os v k (s\<lparr>pending := x, eval_mode := b\<rparr>)"
    by (simp add: reap_inv_def refs_ok_def gens_ok_def fd_refs_ok_def wait_refs_ok_def fresh_ok_def
        tidy_def nulls_def) blast
next
  fix s t :: "'a daemon_scheme" and pid h d status
  assume s: "reap_inv os v k s" "reg_ok s" "eval_mode s" and r: "wait_dispatch os h d status pid s = Inr t"
  from s have "kernel_ok os" by (simp add: reap_inv_def)
  then have "keeps 0 s (wait_dispatch os h d status pid s)" by (rule wait_dispatch_keeps)
  from keepsD [OF this r] s show "reap_inv os v k t \<and> reg_ok t \<and> eval_mode t"
    by (auto simp: reap_inv_def daemon_inv_def intro: spends_trans)
next
  fix s :: "'a daemon_scheme" and pid h d status e
  assume "reap_inv os v k s" and "wait_dispatch os h d status pid s = Inl e"
  with wait_dispatch_ends [of s os h d status pid] show "e \<noteq> Out_Of_Fuel"
    by (auto simp: reap_inv_def refs_ok_def)
qed

subsection \<open>Reachable states\<close>

text \<open>
  A state between two turns: the arrays hold live entries only. \<open>daemon_step\<close> is one turn of
  the loop, one delivery of \<open>SIGCHLD\<close>, or the interrupt that stops the loop. In a turn the callbacks
  are those of \<open>fd_dispatch\<close>, each followed by the signals \<open>sigs\<close> that have arrived by then, any
  number of them (deliveries depend on nothing but the state that the callback has left).
\<close>

definition resting :: "'a daemon_scheme \<Rightarrow> bool" where
  "resting s \<longleftrightarrow> daemon_inv s \<and> \<not> readout s \<and> \<not> eval_mode s"

definition SIGCHLD :: int where "SIGCHLD = 17"

definition child_exit ::
  "os \<Rightarrow> nat \<Rightarrow> int \<Rightarrow> (int \<times> int) list \<Rightarrow> 'a daemon_scheme \<Rightarrow> 'a daemon_scheme res" where
  "child_exit os n sig reaped s =
     (if sig \<noteq> SIGCHLD then Inr s else spawnregistery_eval n (wait_dispatch os) reaped s)"

definition dispatch_with ::
  "os \<Rightarrow> nat \<Rightarrow> ('a daemon_scheme \<Rightarrow> (int \<times> (int \<times> int) list) list) \<Rightarrow>
    fd_cb \<Rightarrow> ref \<Rightarrow> int \<Rightarrow> 'a daemon_scheme \<Rightarrow> 'a daemon_scheme res" where
  "dispatch_with os n sigs cb data fd s =
     bindR (fd_dispatch os cb data fd s)
       (\<lambda>t. foldR (\<lambda>(sig, reaped). child_exit os n sig reaped) (sigs t) t)"

lemma dispatch_undisturbed: "dispatch_with os n (\<lambda>_. []) = fd_dispatch os"
  by (intro ext) (simp add: dispatch_with_def bindR_def split: sum.split)

text \<open>A signal may be handled while the loop walks over its array: the array keeps its shape.\<close>

lemma child_exit_inside:
  assumes "loop_inv os False k s" and "tidy s" and "child_exit os n sig reaped s = Inr t"
  shows "loop_inv os False k t \<and> tidy t \<and> readout t = readout s"
proof (cases "sig = SIGCHLD")
  case True
  with assms(3) have r: "spawnregistery_eval n (wait_dispatch os) reaped s = Inr t" by (simp add: child_exit_def)
  have "reap_inv os (readout s) k s" "reg_ok s" using assms(1,2) by (simp_all add: loop_inv_def reap_inv_def)
  from reaper.eval_keeps [OF this r] show ?thesis by (simp add: loop_inv_def reap_inv_def)
qed (use assms in \<open>simp add: child_exit_def\<close>)

interpretation signalled: fd_callbacks "dispatch_with os n sigs" "loop_inv os False k" "\<lambda>_. True"
  for os k n sigs
proof
  fix s :: "'a daemon_scheme" and x c b
  assume "loop_inv os False k s" and "set (live (s\<lparr>fds := x, changes := c, readout := b\<rparr>)) \<subseteq> set (live s)"
  then show "loop_inv os False k (s\<lparr>fds := x, changes := c, readout := b\<rparr>)" by (rule loop.I_frame)
next
  fix s t :: "'a daemon_scheme" and fd cb d
  assume s: "loop_inv os False k s" "tidy s" "readout s" "(fd, cb, d) \<in> set (live s)"
    and r: "dispatch_with os n sigs cb d fd s = Inr t"
  then obtain u where u: "fd_dispatch os cb d fd s = Inr u"
    and t: "foldR (\<lambda>(sig, reaped). child_exit os n sig reaped) (sigs u) u = Inr t"
    by (auto simp: dispatch_with_def elim!: bindR_InrE)
  from loop.call_ok [OF s u] have "loop_inv os False k u \<and> tidy u \<and> readout u" .
  with t show "loop_inv os False k t \<and> tidy t \<and> readout t"
    by (rule foldR_invariant) (auto dest: child_exit_inside)
qed simp

inductive daemon_step :: "os \<Rightarrow> 'a daemon_scheme \<Rightarrow> 'a daemon_scheme \<Rightarrow> bool" for os where
  turn: "\<not> stop s \<Longrightarrow> manager_iter n (dispatch_with os m sigs) sel s = Inr (Running t) \<Longrightarrow> daemon_step os s t"
| sigchld: "child_exit os n sig reaped s = Inr t \<Longrightarrow> daemon_step os s t"
| interrupt: "daemon_step os s (manager_stop s)"

inductive_cases daemon_stepE: "daemon_step os s t"

inductive reachable :: "os \<Rightarrow> 'a daemon_scheme \<Rightarrow> 'a daemon_scheme \<Rightarrow> bool" for os s0 where
  start: "reachable os s0 s0"
| step: "reachable os s0 s \<Longrightarrow> daemon_step os s t \<Longrightarrow> reachable os s0 t"

lemma resting_turn:
  assumes "kernel_ok os" and "resting s" and r: "manager_iter n (dispatch_with os m sigs) sel s = Inr (Running t)"
  shows "resting t \<and> stock t = stock s \<and> spends (purse s) (purse t)"
proof -
  have "loop_inv os False (stock s, purse s) s" "tidy s" "\<not> readout s"
    using assms(1,2) by (simp_all add: resting_def daemon_inv_def loop_inv_def)
  from signalled.iter_keeps [OF this r] show ?thesis
    by (simp add: resting_def daemon_inv_def loop_inv_def)
qed

lemma resting_sigchld:
  assumes "kernel_ok os" and "resting s" and r: "child_exit os n sig reaped s = Inr t"
  shows "resting t \<and> stock t = stock s \<and> spends (purse s) (purse t)"
proof (cases "sig = SIGCHLD")
  case True
  with r have r: "spawnregistery_eval n (wait_dispatch os) reaped s = Inr t" by (simp add: child_exit_def)
  have "reap_inv os False (stock s, purse s) s" "reg_ok s"
    using assms(1,2) by (simp_all add: resting_def daemon_inv_def reap_inv_def)
  from reaper.eval_keeps [OF this r] show ?thesis
    by (simp add: resting_def daemon_inv_def reap_inv_def)
qed (use assms in \<open>simp add: child_exit_def\<close>)

lemma resting_stop:
  "resting s \<Longrightarrow> resting (manager_stop s) \<and> stock (manager_stop s) = stock s \<and> spends (purse s) (purse (manager_stop s))"
proof -
  have "good 0 s (manager_stop s)" by (rule good_same_core) (simp_all add: same_core_def manager_stop_def)
  then show "resting s \<Longrightarrow> resting (manager_stop s) \<and> stock (manager_stop s) = stock s \<and> spends (purse s) (purse (manager_stop s))"
    by (simp add: resting_def good_def leaves_tries_def)
qed

lemma reachable_keeps:
  assumes "kernel_ok os" and "reachable os s0 s" and "resting s0"
  shows "resting s \<and> stock s = stock s0 \<and> spends (purse s0) (purse s)"
  using assms(2,3)
proof (induction rule: reachable.induct)
  case (step s t)
  then have s: "resting s" "stock s = stock s0" "spends (purse s0) (purse s)" by simp_all
  from step.hyps(2) have "resting t \<and> stock t = stock s \<and> spends (purse s) (purse t)"
    using resting_turn [OF assms(1) s(1)] resting_sigchld [OF assms(1) s(1)] resting_stop [OF s(1)]
    by (cases rule: daemon_step.cases) blast+
  with s show ?case by (auto intro: spends_trans)
qed simp

lemma reachable_resting: "kernel_ok os \<Longrightarrow> reachable os s0 s \<Longrightarrow> resting s0 \<Longrightarrow> resting s"
  using reachable_keeps by blast

subsection \<open>Properties\<close>


text \<open>The state in which \<open>main\<close> enters the loop, but for the templates and the server socket.\<close>

definition booted :: daemon where
  "booted = greeter_init (spawnregistery_init (manager_init (globals [])))"

lemma resting_booted: "resting booted"
  by (simp add: booted_def greeter_init_def spawnregistery_init_def manager_init_def globals_def resting_def
      daemon_inv_def refs_ok_def fd_refs_ok_def wait_refs_ok_def fresh_ok_def gens_ok_def tidy_def reg_ok_def
      live_def listeners_def nulls_def zeroed_def tarray_new_def)


text \<open>C10: A seat never has two greeters: in every reachable state different entries of the array of greeters
  belong to different seats, so that the search for a seat finds the one entry it has, and no
  counter of restarts is negative.\<close>

theorem one_greeter_per_seat:
  assumes "kernel_ok os" and "resting s0" and "reachable os s0 s"
    and a: "greeters s = Live_ptr a" "i < tarray_len a"
  shows "greeter_search (Some (g_seat (cells a ! i))) s = Inr (Some i) \<and> 0 \<le> run_gen (cells a ! i) \<and>
    (\<forall>j < tarray_len a. g_seat (cells a ! j) = g_seat (cells a ! i) \<longrightarrow> j = i)"
proof -
  have "gens_ok s"
    using reachable_resting [OF assms(1,3,2)] by (simp add: resting_def daemon_inv_def refs_ok_def)
  with a have gens: "0 \<le> run_gen (cells a ! i)" and d: "distinct (map g_seat (cells a))"
    by (simp_all add: gens_ok_def)
  have one: "j = i" if "j < tarray_len a" "g_seat (cells a ! j) = g_seat (cells a ! i)" for j
    using nth_eq_iff_index_eq [OF d, of j i] that a(2) by simp
  obtain j where j: "find_index (\<lambda>g. g_seat g = g_seat (cells a ! i)) (cells a) = Some j"
  proof (cases "find_index (\<lambda>g. g_seat g = g_seat (cells a ! i)) (cells a)")
    case None
    then show ?thesis using a(2) nth_mem [of i "cells a"] by auto
  qed
  with find_index_SomeD [OF j] one have "j = i" by auto
  with j a gens one show ?thesis by (simp add: greeter_search_def)
qed

definition two_seats :: daemon where
  "two_seats = booted\<lparr>greeters := Live_ptr \<lparr>cells = [\<lparr>g_seat = ''seat0'', run_gen = 0, run_try = None, run_pid = 90, g_end = False\<rparr>,
     \<lparr>g_seat = ''seat1'', run_gen = 2, run_try = None, run_pid = 91, g_end = False\<rparr>], blk = 2\<rparr>\<rparr>"

lemma one_greeter_per_seat_witness:
  "resting two_seats \<and> greeter_search (Some ''seat1'') two_seats = Inr (Some 1)"
proof -
  let ?a = "\<lparr>cells = [\<lparr>g_seat = ''seat0'', run_gen = 0, run_try = None, run_pid = 90, g_end = False\<rparr>,
     \<lparr>g_seat = ''seat1'', run_gen = 2, run_try = None, run_pid = 91, g_end = False\<rparr>], blk = 2\<rparr>"
  have "resting two_seats"
    by (simp add: two_seats_def booted_def greeter_init_def spawnregistery_init_def manager_init_def globals_def
      resting_def daemon_inv_def refs_ok_def fd_refs_ok_def wait_refs_ok_def fresh_ok_def gens_ok_def tidy_def
      reg_ok_def live_def listeners_def nulls_def zeroed_def tarray_new_def)
  moreover have "greeters two_seats = Live_ptr ?a" "1 < tarray_len ?a" by (simp_all add: two_seats_def)
  ultimately show ?thesis
    using one_greeter_per_seat [OF example_kernel_ok _ reachable.start, of two_seats ?a 1] by simp
qed

text \<open>What the end of a login does to the client.\<close>

lemma frame_simps:
  "clients (emit e s) = clients s" "greeters (emit e s) = greeters s"
  "clients (manager_unregister_fd fd s) = clients s" "greeters (manager_unregister_fd fd s) = greeters s"
  "trace (manager_unregister_fd fd s) = trace s"
  "clients (upd_try t f s) = clients s" "greeters (upd_try t f s) = greeters s" "trace (upd_try t f s) = trace s"
  "tries (upd_try t f s) = (tries s)(t := map_option f (tries s t))"
  "clients (free_try t s) = clients s" "greeters (free_try t s) = greeters s" "trace (free_try t s) = trace s"
  "tries (free_try t s) = (tries s)(t := None)"
  by (simp_all add: emit_def manager_unregister_fd_def Let_def clear_objects_def upd_try_def free_try_def
      split: option.split)

lemma unlisten_frames:
  "clients (spawnregistery_unlisten pid h d s) = clients s"
  "greeters (spawnregistery_unlisten pid h d s) = greeters s"
  "trace (spawnregistery_unlisten pid h d s) = trace s"
  "tries (spawnregistery_unlisten pid h d s) = tries s"
  by (subst unlisten_shape, simp)+

lemma session_done_success:
  assumes e: "end_success e = SPAWN_SERVICE_SUCCESS"
    and c: "clients s c = Some cl" and seat: "seat_get os (cl_pid cl) = Some seat"
    and a: "greeters s = Live_ptr a"
    and i: "find_index (\<lambda>g. g_seat g = seat) (cells a) = Some i"
  shows "\<exists>u. session_done os (Client_ref c) e s = Inr u \<and>
    trace u = trace s @ [
      Sent (cl_fd cl) \<lparr>sm_type = LOGIN_FEEDBACK,
        sm_feedback = Some \<lparr>fb_success = True, fb_msg = Some ''You are logged in!''\<rparr>, sm_data = None\<rparr>,
      Sent (cl_fd cl) \<lparr>sm_type = LEAVE, sm_feedback = None, sm_data = None\<rparr>, Closed (cl_fd cl)] \<and>
    clients u = (clients s)(c := None) \<and> tries u = tries s \<and>
    greeters u = Live_ptr (tarray_set a i ((cells a ! i)\<lparr>g_end := True\<rparr>))"
proof -
  let ?g = "Live_ptr (tarray_set a i ((cells a ! i)\<lparr>g_end := True\<rparr>))"
  have lock: "greeter_lockout (Some seat) s = Inr (s\<lparr>greeters := ?g\<rparr>)"
    using a i by (simp add: greeter_lockout_def greeter_search_def)
  let ?s1 = "server_spawnservice_feedback True (Some ''You are logged in!'') (cl_fd cl) (s\<lparr>greeters := ?g\<rparr>)"
  let ?s2 = "upd_client c (\<lambda>x. x\<lparr>cl_try := None\<rparr>) ?s1"
  let ?s3 = "send_message LEAVE None None (cl_fd cl) ?s2"
  have s3: "clients ?s3 c = Some (cl\<lparr>cl_try := None\<rparr>)" "(clients ?s3)(c := None) = (clients s)(c := None)"
    "tries ?s3 = tries s" "greeters ?s3 = ?g"
    "trace ?s3 = trace s @ [
      Sent (cl_fd cl) \<lparr>sm_type = LOGIN_FEEDBACK,
        sm_feedback = Some \<lparr>fb_success = True, fb_msg = Some ''You are logged in!''\<rparr>, sm_data = None\<rparr>,
      Sent (cl_fd cl) \<lparr>sm_type = LEAVE, sm_feedback = None, sm_data = None\<rparr>]"
    using c by (simp_all add: send_message_def server_spawnservice_feedback_def upd_client_def emit_def)
  have "get_client c ?s2 = Inr (cl\<lparr>cl_try := None\<rparr>)"
    using s3(1) by (simp add: get_client_def send_message_def frame_simps)
  then have "session_done os (Client_ref c) e s = client_free c ?s3"
    using e c seat lock by (simp add: session_done_def get_client_def client_goodbye_def)
  with client_free_effect [OF s3(1)] s3(2-) show ?thesis by auto
qed

lemma session_done_failure:
  assumes e: "end_success e = SPAWN_SERVICE_ERROR" and c: "clients s c = Some cl"
  shows "\<exists>u. session_done os (Client_ref c) e s = Inr u \<and>
    trace u = trace s @ [Sent (cl_fd cl) \<lparr>sm_type = LOGIN_FEEDBACK,
      sm_feedback = Some \<lparr>fb_success = False, fb_msg = end_message e\<rparr>, sm_data = None\<rparr>] \<and>
    clients u = (clients s)(c \<mapsto> cl\<lparr>cl_try := None\<rparr>) \<and> tries u = tries s \<and> greeters u = greeters s"
  using e c
  by (simp add: session_done_def get_client_def server_spawnservice_feedback_def send_message_def
      upd_client_def emit_def)

lemma spawn_try_free_effect:
  fixes s :: "'a daemon_scheme"
  assumes t: "tries s t = Some y" and cb: "done_cb y = Some Session_done" "done_data y = Client_ref c"
    and ended: "\<And>s1 :: 'a daemon_scheme. clients s1 = clients s \<Longrightarrow> tries s1 = tries s \<Longrightarrow> greeters s1 = greeters s \<Longrightarrow>
      trace s1 = trace s @ [Closed (com_read y)] \<Longrightarrow>
      \<exists>u. session_done os (Client_ref c) \<lparr>end_success = exit_success y, end_message = error_msg y\<rparr> s1 = Inr u \<and>
        trace u = trace s @ [Closed (com_read y)] @ tr \<and> clients u = cls \<and> tries u = tries s \<and> greeters u = gs"
  shows "\<exists>u. spawn_try_free (try_done os) t s = Inr u \<and>
    trace u = trace s @ [Closed (com_read y)] @ tr \<and> clients u = cls \<and> tries u = (tries s)(t := None) \<and>
    greeters u = gs"
proof -
  let ?s1 = "emit (Closed (com_read y)) (manager_unregister_fd (com_read y) s)"
  obtain u where u: "session_done os (Client_ref c) \<lparr>end_success = exit_success y, end_message = error_msg y\<rparr> ?s1 = Inr u"
    "trace u = trace s @ [Closed (com_read y)] @ tr" "clients u = cls" "tries u = tries s" "greeters u = gs"
    using ended [of ?s1] by (auto simp: frame_simps)
  have "spawn_try_free (try_done os) t s =
      Inr (free_try t (spawnregistery_unlisten (try_pid y) Spawned_session_disappear (Try_ref t) u))"
    using t cb u by (simp add: spawn_try_free_def Let_def try_done_def)
  then show ?thesis using u by (simp add: frame_simps unlisten_frames)
qed

lemma session_active_effect:
  assumes "recv_child os (nreads s) = Message msg" and "sp_type msg = SESSION_ACTIVE"
    and t: "tries s t = Some y" and cb: "done_cb y = Some Session_done" "done_data y = Client_ref c"
    and c: "clients s c = Some cl" and seat: "seat_get os (cl_pid cl) = Some seat"
    and a: "greeters s = Live_ptr a"
    and i: "find_index (\<lambda>g. g_seat g = seat) (cells a) = Some i"
  shows "\<exists>u. child_data os (try_done os) (Try_ref t) fd s = Inr u \<and>
    trace u = trace s @ [Closed (com_read y),
      Sent (cl_fd cl) \<lparr>sm_type = LOGIN_FEEDBACK,
        sm_feedback = Some \<lparr>fb_success = True, fb_msg = Some ''You are logged in!''\<rparr>, sm_data = None\<rparr>,
      Sent (cl_fd cl) \<lparr>sm_type = LEAVE, sm_feedback = None, sm_data = None\<rparr>, Closed (cl_fd cl)] \<and>
    clients u = (clients s)(c := None) \<and> tries u = (tries s)(t := None) \<and>
    greeters u = Live_ptr (tarray_set a i ((cells a ! i)\<lparr>g_end := True\<rparr>))"
proof -
  let ?y = "y\<lparr>exit_success := SPAWN_SERVICE_SUCCESS\<rparr>"
  let ?s1 = "upd_try t (\<lambda>y. y\<lparr>exit_success := SPAWN_SERVICE_SUCCESS\<rparr>)
    (manager_unregister_fd (com_read y) (s\<lparr>nreads := Suc (nreads s)\<rparr>))"
  let ?tr = "[Sent (cl_fd cl) \<lparr>sm_type = LOGIN_FEEDBACK,
        sm_feedback = Some \<lparr>fb_success = True, fb_msg = Some ''You are logged in!''\<rparr>, sm_data = None\<rparr>,
      Sent (cl_fd cl) \<lparr>sm_type = LEAVE, sm_feedback = None, sm_data = None\<rparr>, Closed (cl_fd cl)]"
  let ?g = "Live_ptr (tarray_set a i ((cells a ! i)\<lparr>g_end := True\<rparr>))"
  have s1: "tries ?s1 t = Some ?y" "clients ?s1 = clients s" "greeters ?s1 = greeters s" "trace ?s1 = trace s"
    "(tries ?s1)(t := None) = (tries s)(t := None)"
    using t by (simp_all add: frame_simps)
  have "\<exists>u. spawn_try_free (try_done os) t ?s1 = Inr u \<and>
    trace u = trace ?s1 @ [Closed (com_read ?y)] @ ?tr \<and> clients u = (clients s)(c := None) \<and>
    tries u = (tries ?s1)(t := None) \<and> greeters u = ?g"
  proof (rule spawn_try_free_effect [OF s1(1)])
    show "done_cb ?y = Some Session_done" "done_data ?y = Client_ref c" using cb by simp_all
    fix s2 assume s2: "clients s2 = clients ?s1" "tries s2 = tries ?s1" "greeters s2 = greeters ?s1"
      "trace s2 = trace ?s1 @ [Closed (com_read ?y)]"
    have "clients s2 c = Some cl" "greeters s2 = Live_ptr a" using s2 s1 c a by simp_all
    from session_done_success [OF _ this(1) seat this(2) i,
        of "\<lparr>end_success = exit_success ?y, end_message = error_msg ?y\<rparr>"] s2 s1
    show "\<exists>u. session_done os (Client_ref c) \<lparr>end_success = exit_success ?y, end_message = error_msg ?y\<rparr> s2 = Inr u \<and>
        trace u = trace ?s1 @ [Closed (com_read ?y)] @ ?tr \<and> clients u = (clients s)(c := None) \<and>
        tries u = tries ?s1 \<and> greeters u = ?g"
      by auto
  qed
  moreover have "child_data os (try_done os) (Try_ref t) fd s = spawn_try_free (try_done os) t ?s1"
    using assms(1,2) t by (simp add: child_data_def)
  ultimately show ?thesis using s1 by auto
qed

text \<open>When the child of a login reports that its session is up, the client is told so, gets \<open>LEAVE\<close> and
  is disconnected and freed, the greeter of its seat is marked to end, and the try is freed; nothing
  else is sent or done.\<close>

theorem login_success:
  assumes "recv_child os (nreads s) = Message msg" and "sp_type msg = SESSION_ACTIVE"
    and t: "tries s t = Some y" and cb: "done_cb y = Some Session_done" "done_data y = Client_ref c"
    and c: "clients s c = Some cl" and seat: "seat_get os (cl_pid cl) = Some seat"
    and a: "greeters s = Live_ptr a"
    and i: "find_index (\<lambda>g. g_seat g = seat) (cells a) = Some i"
  shows "\<exists>u. child_data os (try_done os) (Try_ref t) fd s = Inr u \<and>
    trace u = trace s @ [Closed (com_read y),
      Sent (cl_fd cl) \<lparr>sm_type = LOGIN_FEEDBACK,
        sm_feedback = Some \<lparr>fb_success = True, fb_msg = Some ''You are logged in!''\<rparr>, sm_data = None\<rparr>,
      Sent (cl_fd cl) \<lparr>sm_type = LEAVE, sm_feedback = None, sm_data = None\<rparr>, Closed (cl_fd cl)] \<and>
    clients u = (clients s)(c := None) \<and> tries u = (tries s)(t := None) \<and>
    greeters u = Live_ptr (tarray_set a i ((cells a ! i)\<lparr>g_end := True\<rparr>))"
  by (rule session_active_effect [OF assms])

definition logging_in :: daemon where
  "logging_in = one_client\<lparr>greeters := Live_ptr \<lparr>cells = [\<lparr>g_seat = ''seat0'', run_gen = 0, run_try = None,
     run_pid = 90, g_end = False\<rparr>], blk = 1\<rparr>\<rparr>"

lemma login_success_witness:
  "\<exists>u. child_data ((example_os Malformed)\<lparr>recv_child := \<lambda>_. Message \<lparr>sp_type = SESSION_ACTIVE, sp_exit = None\<rparr>\<rparr>)
      (try_done ((example_os Malformed)\<lparr>recv_child := \<lambda>_. Message \<lparr>sp_type = SESSION_ACTIVE, sp_exit = None\<rparr>\<rparr>))
      (Try_ref 0) 7 logging_in = Inr u \<and> clients u 0 = None \<and> tries u 0 = None"
proof -
  let ?os = "(example_os Malformed)\<lparr>recv_child := \<lambda>_. Message \<lparr>sp_type = SESSION_ACTIVE, sp_exit = None\<rparr>\<rparr>"
  obtain y where y: "tries logging_in 0 = Some y" "done_cb y = Some Session_done" "done_data y = Client_ref 0"
    by (simp add: logging_in_def one_client_def)
  have "recv_child ?os (nreads logging_in) = Message \<lparr>sp_type = SESSION_ACTIVE, sp_exit = None\<rparr>"
    "sp_type \<lparr>sp_type = SESSION_ACTIVE, sp_exit = None\<rparr> = SESSION_ACTIVE"
    "clients logging_in 0 = Some \<lparr>cl_fd = 5, cl_pid = 50, cl_try = Some 0\<rparr>"
    "seat_get ?os (cl_pid \<lparr>cl_fd = 5, cl_pid = 50, cl_try = Some 0\<rparr>) = Some ''seat0''"
    "find_index (\<lambda>g. g_seat g = ''seat0'') (cells \<lparr>cells = [\<lparr>g_seat = ''seat0'', run_gen = 0, run_try = None,
       run_pid = 90, g_end = False\<rparr>], blk = 1\<rparr>) = Some 0"
    "greeters logging_in = Live_ptr \<lparr>cells = [\<lparr>g_seat = ''seat0'', run_gen = 0, run_try = None,
       run_pid = 90, g_end = False\<rparr>], blk = 1\<rparr>"
    by (simp_all add: logging_in_def one_client_def seat_get_def session_get_def example_os_def)
  from login_success [OF this(1,2) y this(3,4,6,5), of 7] show ?thesis by (elim exE conjE) (intro exI conjI, assumption, simp_all)
qed

lemma child_lost_effect:
  assumes t: "tries s t = Some y" and cb: "done_cb y = Some Session_done" "done_data y = Client_ref c"
    and e: "exit_success y = SPAWN_SERVICE_ERROR" and c: "clients s c = Some cl"
  shows "\<exists>u. wait_dispatch os Spawned_session_disappear (Try_ref t) status pid s = Inr u \<and>
    trace u = trace s @ [Closed (com_read y),
      Sent (cl_fd cl) \<lparr>sm_type = LOGIN_FEEDBACK,
        sm_feedback = Some \<lparr>fb_success = False, fb_msg = error_msg y\<rparr>, sm_data = None\<rparr>] \<and>
    clients u = (clients s)(c \<mapsto> cl\<lparr>cl_try := None\<rparr>) \<and> tries u = (tries s)(t := None) \<and>
    greeters u = greeters s"
proof -
  let ?tr = "[Sent (cl_fd cl) \<lparr>sm_type = LOGIN_FEEDBACK,
        sm_feedback = Some \<lparr>fb_success = False, fb_msg = error_msg y\<rparr>, sm_data = None\<rparr>]"
  have "\<exists>u. spawn_try_free (try_done os) t s = Inr u \<and>
    trace u = trace s @ [Closed (com_read y)] @ ?tr \<and> clients u = (clients s)(c \<mapsto> cl\<lparr>cl_try := None\<rparr>) \<and>
    tries u = (tries s)(t := None) \<and> greeters u = greeters s"
  proof (rule spawn_try_free_effect [OF t cb])
    fix s1 assume s1: "clients s1 = clients s" "tries s1 = tries s" "greeters s1 = greeters s"
      "trace s1 = trace s @ [Closed (com_read y)]"
    then have "clients s1 c = Some cl" using c by simp
    from session_done_failure [OF _ this, of "\<lparr>end_success = exit_success y, end_message = error_msg y\<rparr>"] e s1
    show "\<exists>u. session_done os (Client_ref c) \<lparr>end_success = exit_success y, end_message = error_msg y\<rparr> s1 = Inr u \<and>
        trace u = trace s @ [Closed (com_read y)] @ ?tr \<and> clients u = (clients s)(c \<mapsto> cl\<lparr>cl_try := None\<rparr>) \<and>
        tries u = tries s \<and> greeters u = greeters s"
      by auto
  qed
  then show ?thesis by (simp add: wait_dispatch_def spawned_session_disappear_def)
qed

text \<open>When the child of a login ends without its session having come up, the client is told the reason
  the child gave (if it gave one) and stays connected, free to try again; the try is freed.\<close>

theorem login_failure:
  assumes t: "tries s t = Some y" and cb: "done_cb y = Some Session_done" "done_data y = Client_ref c"
    and e: "exit_success y = SPAWN_SERVICE_ERROR" and c: "clients s c = Some cl"
  shows "\<exists>u. wait_dispatch os Spawned_session_disappear (Try_ref t) status pid s = Inr u \<and>
    trace u = trace s @ [Closed (com_read y),
      Sent (cl_fd cl) \<lparr>sm_type = LOGIN_FEEDBACK,
        sm_feedback = Some \<lparr>fb_success = False, fb_msg = error_msg y\<rparr>, sm_data = None\<rparr>] \<and>
    clients u = (clients s)(c \<mapsto> cl\<lparr>cl_try := None\<rparr>) \<and> tries u = (tries s)(t := None) \<and>
    greeters u = greeters s"
  by (rule child_lost_effect [OF assms])

lemma login_failure_witness:
  "\<exists>u. wait_dispatch (example_os Malformed) Spawned_session_disappear (Try_ref 0) 0 70 logging_in = Inr u \<and>
     clients u 0 = Some \<lparr>cl_fd = 5, cl_pid = 50, cl_try = None\<rparr> \<and> tries u 0 = None"
proof -
  obtain y where "tries logging_in 0 = Some y" "done_cb y = Some Session_done" "done_data y = Client_ref 0"
    "exit_success y = SPAWN_SERVICE_ERROR"
    by (simp add: logging_in_def one_client_def)
  moreover have "clients logging_in 0 = Some \<lparr>cl_fd = 5, cl_pid = 50, cl_try = Some 0\<rparr>"
    by (simp add: logging_in_def one_client_def)
  ultimately show ?thesis using login_failure [of logging_in 0] by fastforce
qed

end
