(* ===== verification/Client.thy ===== *)
theory Client
  imports Server
begin

section \<open>The client library: \<open>libsp_client/client.c\<close>\<close>

text \<open>
  What a greeter links: a connection to the daemon, five arrays that the last \<open>DATA_UPDATE\<close>
  filled, and requests that name an entry of them by its position. The arrays are blocks that
  \<open>_fill_array\<close> grows and shrinks in place; memory that \<open>realloc\<close> adds has arbitrary contents
  (\<open>junk\<close>) until \<open>memset\<close> clears it. Writes and reads are answered by \<open>client_os\<close>, which is
  given the trace of all that was done before.
\<close>

subsection \<open>Data\<close>

record 'a numbered_array =
  na_length :: int
  na_data :: "'a list"

record Template =
  tm_id :: int
  tm_icon :: "string option"
  tm_name :: "string option"

record User =
  us_id :: int
  us_icon :: "string option"
  us_name :: "string option"
  us_prefered_session :: int

record Session =
  se_id :: int
  se_icon :: "string option"
  se_user :: "string option"
  se_name :: "string option"

record Private_Session =
  ps_session_id :: "string option"
  ps_id :: int

record Private_Template =
  pt_template_id :: "string option"
  pt_id :: int

record sp_client_context =
  cc_debug :: bool
  cc_server_sock :: int
  cc_sessions :: "Session numbered_array"
  cc_private_sessions :: "Private_Session numbered_array"
  cc_templates :: "Template numbered_array"
  cc_private_templates :: "Private_Template numbered_array"
  cc_users :: "User numbered_array"

datatype Sp_Client_Read_Result =
    SP_CLIENT_READ_RESULT_SUCCESS
  | SP_CLIENT_READ_RESULT_FAILURE
  | SP_CLIENT_READ_RESULT_EXIT

text \<open>The callbacks of the application, which may do anything to its state \<open>'s\<close>; NULL is \<open>None\<close>.\<close>

record 's sp_client_interface =
  data_cb :: "(sp_client_context \<Rightarrow> 's \<Rightarrow> 's res) option"
  feedback_cb :: "(bool \<Rightarrow> string option \<Rightarrow> 's \<Rightarrow> 's res) option"

record client_os = socket_os +
  co_write :: "effect list \<Rightarrow> int \<Rightarrow> greeter_message \<Rightarrow> bool"
  co_read :: "nat \<Rightarrow> int \<Rightarrow> server_message input"

definition no_array :: "'a numbered_array" where
  "no_array = \<lparr>na_length = 0, na_data = []\<rparr>"

definition ARRAY_ACCESS :: "'a numbered_array \<Rightarrow> int \<Rightarrow> 'a res" where
  "ARRAY_ACCESS arr pos =
     (if 0 \<le> pos \<and> nat pos < length (na_data arr) then Inr (na_data arr ! nat pos) else Inl Out_Of_Bounds)"

subsection \<open>Requests\<close>

definition write_msg ::
  "'b client_os_scheme \<Rightarrow> sp_client_context \<Rightarrow> greeter_message \<Rightarrow> 'a world_scheme \<Rightarrow> bool \<times> 'a world_scheme" where
  "write_msg co cx msg s =
     (if co_write co (trace s) (cc_server_sock cx) msg
      then (True, emit (Asked (cc_server_sock cx) msg) s) else (False, s))"

definition sp_client_hello ::
  "'b client_os_scheme \<Rightarrow> sp_client_context \<Rightarrow> 'a world_scheme \<Rightarrow> bool \<times> 'a world_scheme" where
  "sp_client_hello co cx = write_msg co cx \<lparr>gm_type = HELLO, gm_login = None, gm_session = None\<rparr>"

definition sp_client_start_greeter ::
  "'b client_os_scheme \<Rightarrow> sp_client_context \<Rightarrow> 'a world_scheme \<Rightarrow> bool \<times> 'a world_scheme" where
  "sp_client_start_greeter co cx =
     write_msg co cx \<lparr>gm_type = GREETER_START, gm_login = None, gm_session = None\<rparr>"

definition sp_client_session_activate ::
  "'b client_os_scheme \<Rightarrow> sp_client_context option \<Rightarrow> int \<Rightarrow> 'a world_scheme \<Rightarrow> (bool \<times> 'a world_scheme) res" where
  "sp_client_session_activate co ctxp session s =
     (case ctxp of
        None \<Rightarrow> Inr (False, s)
      | Some cx \<Rightarrow>
          if session < 0 \<or> session \<ge> na_length (cc_private_sessions cx) then Inr (False, s)
          else bindR (ARRAY_ACCESS (cc_private_sessions cx) session)
                 (\<lambda>ps. Inr (write_msg co cx
                    \<lparr>gm_type = SESSION_ACTIVATION, gm_login = None, gm_session = ps_session_id ps\<rparr> s)))"

text \<open>Packing a message reads its required strings.\<close>

definition sp_client_login ::
  "'b client_os_scheme \<Rightarrow> sp_client_context option \<Rightarrow> string \<Rightarrow> string \<Rightarrow> int \<Rightarrow> 'a world_scheme \<Rightarrow>
    (bool \<times> 'a world_scheme) res" where
  "sp_client_login co ctxp user pass templ s =
     (case ctxp of
        None \<Rightarrow> Inr (False, s)
      | Some cx \<Rightarrow>
          if templ < 0 \<or> templ \<ge> na_length (cc_private_templates cx) then Inr (False, s)
          else bindR (ARRAY_ACCESS (cc_private_templates cx) templ)
                 (\<lambda>pt. bindR (deref (pt_template_id pt) Null_Deref)
                   (\<lambda>tid. Inr (write_msg co cx
                      \<lparr>gm_type = LOGIN_TRY,
                       gm_login = Some \<lparr>login_user = user, login_password = pass, login_template_id = tid\<rparr>,
                       gm_session = None\<rparr> s))))"

subsection \<open>Connecting\<close>

fun parse_client_args :: "string list \<Rightarrow> sp_client_context \<Rightarrow> sp_client_context" where
  "parse_client_args [] cx = cx"
| "parse_client_args (arg # args) cx =
     parse_client_args args (if arg = ''--debug'' \<or> arg = ''-d'' then cx\<lparr>cc_debug := True\<rparr> else cx)"

definition new_context :: sp_client_context where
  "new_context = \<lparr>cc_debug = False, cc_server_sock = 0, cc_sessions = no_array,
     cc_private_sessions = no_array, cc_templates = no_array, cc_private_templates = no_array,
     cc_users = no_array\<rparr>"

text \<open>\<open>argv\<close> is \<open>None\<close> for NULL; its first entry, the name of the program, is skipped.\<close>

definition context_of_args :: "string list option \<Rightarrow> sp_client_context" where
  "context_of_args argv =
     (case argv of None \<Rightarrow> new_context | Some args \<Rightarrow> parse_client_args (tl args) new_context)"

definition sp_client_init ::
  "'b client_os_scheme \<Rightarrow> string list option \<Rightarrow> 'a world_scheme \<Rightarrow>
    sp_client_context option \<times> 'a world_scheme" where
  "sp_client_init co argv s =
     (let ctx0 = context_of_args argv
      in case sp_service_connect co (cc_debug ctx0) s of
           (fd, s1) \<Rightarrow>
             (let cx = ctx0\<lparr>cc_server_sock := fd\<rparr>
              in if fd < 0 then (None, s1)
                 else case sp_client_hello co cx s1 of
                        (True, s2) \<Rightarrow> (Some cx, s2)
                      | (False, s2) \<Rightarrow> (None, if fd > 0 then emit (Closed fd) s2 else s2)))"

text \<open>
  Neither the connection nor the write is checked. A read of no bytes is unpacked too: a message
  without its required type, which is none.
\<close>

definition sp_client_greeter_start ::
  "'b client_os_scheme \<Rightarrow> string list option \<Rightarrow> 'a world_scheme \<Rightarrow> bool \<times> 'a world_scheme" where
  "sp_client_greeter_start co argv s =
     (let ctx0 = context_of_args argv
      in case sp_service_connect co (cc_debug ctx0) s of
           (fd, s1) \<Rightarrow>
             (case sp_client_start_greeter co (ctx0\<lparr>cc_server_sock := fd\<rparr>) s1 of
                (_, s2) \<Rightarrow>
                  (let s3 = s2\<lparr>nreads := Suc (nreads s2)\<rparr>
                   in case co_read co (nreads s2) fd of
                        Message msg \<Rightarrow> (sm_type msg = LEAVE, s3)
                      | _ \<Rightarrow> (False, s3))))"

definition sp_client_fd_get :: "sp_client_context \<Rightarrow> int" where
  "sp_client_fd_get cx = cc_server_sock cx"

definition sp_client_free :: "sp_client_context \<Rightarrow> 'a world_scheme \<Rightarrow> bool \<times> 'a world_scheme" where
  "sp_client_free cx s = (True, emit (Closed (cc_server_sock cx)) s)"

definition interface_check :: "'s sp_client_interface option \<Rightarrow> bool" where
  "interface_check i =
     (case i of None \<Rightarrow> False | Some i \<Rightarrow> if feedback_cb i = None then False else data_cb i \<noteq> None)"

subsection \<open>Filling the arrays\<close>

text \<open>\<open>STRDUP_S\<close> leaves the field alone for NULL.\<close>

definition STRDUP_S :: "string option \<Rightarrow> string option \<Rightarrow> string option" where
  "STRDUP_S n v = (case n of None \<Rightarrow> v | Some x \<Rightarrow> Some x)"

definition templates_free :: "Template \<Rightarrow> Template" where
  "templates_free t = t\<lparr>tm_name := None, tm_icon := None\<rparr>"

definition templates_convert :: "int \<Rightarrow> server_template \<Rightarrow> Template \<Rightarrow> Template res" where
  "templates_convert i proto t =
     Inr (t\<lparr>tm_id := i, tm_icon := STRDUP_S (tmpl_icon proto) (tm_icon t),
            tm_name := STRDUP_S (tmpl_name proto) (tm_name t)\<rparr>)"

definition sessions_free :: "Session \<Rightarrow> Session" where
  "sessions_free x = x\<lparr>se_icon := None, se_name := None, se_user := None\<rparr>"

definition sessions_convert :: "int \<Rightarrow> server_session \<Rightarrow> Session \<Rightarrow> Session res" where
  "sessions_convert i proto x =
     Inr (x\<lparr>se_id := i, se_icon := STRDUP_S (ses_icon proto) (se_icon x),
            se_name := STRDUP_S (ses_name proto) (se_name x),
            se_user := STRDUP_S (ses_user proto) (se_user x)\<rparr>)"

text \<open>The position of the first template with the name, and 0 when there is none.\<close>

fun find_simular_loop :: "string \<Rightarrow> Template list \<Rightarrow> int \<Rightarrow> int res" where
  "find_simular_loop pref [] i = Inr 0"
| "find_simular_loop pref (t # ts) i =
     bindR (deref (tm_name t) Null_Deref)
       (\<lambda>name. if pref = name then Inr i else find_simular_loop pref ts (i + 1))"

definition find_simular_session :: "Template numbered_array \<Rightarrow> string option \<Rightarrow> int res" where
  "find_simular_session ts pref =
     (if na_length ts \<le> 0 then Inr 0
      else bindR (deref pref Null_Deref) (\<lambda>p. find_simular_loop p (take (nat (na_length ts)) (na_data ts)) 0))"

definition users_free :: "User \<Rightarrow> User" where
  "users_free u = u\<lparr>us_icon := None, us_name := None\<rparr>"

definition users_convert :: "Template numbered_array \<Rightarrow> int \<Rightarrow> server_user \<Rightarrow> User \<Rightarrow> User res" where
  "users_convert ts i proto u =
     bindR (find_simular_session ts (usr_prefered_session proto))
       (\<lambda>pref. Inr (u\<lparr>us_id := i, us_icon := STRDUP_S (usr_icon proto) (us_icon u),
                     us_name := STRDUP_S (usr_name proto) (us_name u), us_prefered_session := pref\<rparr>))"

definition private_sessions_free :: "Private_Session \<Rightarrow> Private_Session" where
  "private_sessions_free p = p\<lparr>ps_session_id := None\<rparr>"

definition private_sessions_convert :: "int \<Rightarrow> server_session \<Rightarrow> Private_Session \<Rightarrow> Private_Session res" where
  "private_sessions_convert i proto p =
     Inr (p\<lparr>ps_id := i, ps_session_id := STRDUP_S (ses_id proto) (ps_session_id p)\<rparr>)"

definition private_templates_free :: "Private_Template \<Rightarrow> Private_Template" where
  "private_templates_free p = p\<lparr>pt_template_id := None\<rparr>"

definition private_templates_convert :: "int \<Rightarrow> server_template \<Rightarrow> Private_Template \<Rightarrow> Private_Template res" where
  "private_templates_convert i proto p =
     Inr (p\<lparr>pt_id := i, pt_template_id := STRDUP_S (tmpl_id proto) (pt_template_id p)\<rparr>)"

text \<open>The loop of \<open>_fill_array\<close> that converts one entry after the other in its place.\<close>

fun convert_loop :: "(int \<Rightarrow> 'd \<Rightarrow> 'a \<Rightarrow> 'a res) \<Rightarrow> nat \<Rightarrow> 'd list \<Rightarrow> 'a list \<Rightarrow> 'a list res" where
  "convert_loop cf i [] mem = Inr mem"
| "convert_loop cf i (d # ds) mem =
     (if i < length mem then bindR (cf (int i) d (mem ! i)) (\<lambda>e. convert_loop cf (Suc i) ds (mem[i := e]))
      else Inl Out_Of_Bounds)"

definition fill_array ::
  "'a \<Rightarrow> 'a \<Rightarrow> ('a \<Rightarrow> 'a) \<Rightarrow> (int \<Rightarrow> 'd \<Rightarrow> 'a \<Rightarrow> 'a res) \<Rightarrow> 'd list \<Rightarrow> 'a numbered_array \<Rightarrow>
    'a numbered_array res" where
  "fill_array junk zero ff cf data arr =
     (let n = length data;
          diff = int n - na_length arr;
          old = nat (na_length arr);
          freed = map ff (take old (na_data arr)) @ drop old (na_data arr);
          moved = take n freed @ replicate (n - length freed) junk;
          cleared = (if diff > 0
                     then take old moved @ replicate (nat diff) zero @ drop (old + nat diff) moved
                     else moved)
      in bindR (convert_loop cf 0 data cleared) (\<lambda>mem. Inr \<lparr>na_length = int n, na_data = mem\<rparr>))"

definition zero_template :: Template where
  "zero_template = \<lparr>tm_id = 0, tm_icon = None, tm_name = None\<rparr>"
definition zero_session :: Session where
  "zero_session = \<lparr>se_id = 0, se_icon = None, se_user = None, se_name = None\<rparr>"
definition zero_user :: User where
  "zero_user = \<lparr>us_id = 0, us_icon = None, us_name = None, us_prefered_session = 0\<rparr>"
definition zero_private_session :: Private_Session where
  "zero_private_session = \<lparr>ps_session_id = None, ps_id = 0\<rparr>"
definition zero_private_template :: Private_Template where
  "zero_private_template = \<lparr>pt_template_id = None, pt_id = 0\<rparr>"

text \<open>What \<open>realloc\<close> leaves in new memory, for each of the five types.\<close>

record heap_junk =
  junk_template :: Template
  junk_session :: Session
  junk_user :: User
  junk_private_session :: Private_Session
  junk_private_template :: Private_Template

definition data_convert :: "heap_junk \<Rightarrow> server_data \<Rightarrow> sp_client_context \<Rightarrow> sp_client_context res" where
  "data_convert junk data cx =
     bindR (fill_array (junk_template junk) zero_template templates_free templates_convert
              (data_templates data) (cc_templates cx))
       (\<lambda>ts. bindR (fill_array (junk_session junk) zero_session sessions_free sessions_convert
                 (data_sessions data) (cc_sessions cx))
         (\<lambda>ss. bindR (fill_array (junk_user junk) zero_user users_free (users_convert ts)
                   (data_users data) (cc_users cx))
           (\<lambda>us. bindR (fill_array (junk_private_session junk) zero_private_session private_sessions_free
                     private_sessions_convert (data_sessions data) (cc_private_sessions cx))
             (\<lambda>pss. bindR (fill_array (junk_private_template junk) zero_private_template
                        private_templates_free private_templates_convert
                        (data_templates data) (cc_private_templates cx))
               (\<lambda>pts. Inr (cx\<lparr>cc_templates := ts, cc_sessions := ss, cc_users := us,
                               cc_private_sessions := pss, cc_private_templates := pts\<rparr>))))))"

subsection \<open>Reading\<close>

definition sp_client_read ::
  "'b client_os_scheme \<Rightarrow> heap_junk \<Rightarrow> sp_client_context option \<Rightarrow>
    'a world_scheme sp_client_interface option \<Rightarrow> 'a world_scheme \<Rightarrow>
    (Sp_Client_Read_Result \<times> sp_client_context option \<times> 'a world_scheme) res" where
  "sp_client_read co junk ctxp ifc s =
     (case ctxp of
        None \<Rightarrow> Inr (SP_CLIENT_READ_RESULT_SUCCESS, ctxp, s)
      | Some cx \<Rightarrow>
          if \<not> interface_check ifc then Inr (SP_CLIENT_READ_RESULT_FAILURE, ctxp, s)
          else
            let s1 = s\<lparr>nreads := Suc (nreads s)\<rparr>
            in case co_read co (nreads s) (cc_server_sock cx) of
                 Message msg \<Rightarrow>
                   (case sm_type msg of
                      LEAVE \<Rightarrow> Inr (SP_CLIENT_READ_RESULT_EXIT, ctxp, s1)
                    | DATA_UPDATE \<Rightarrow>
                        bindR (deref (sm_data msg) Null_Deref)
                          (\<lambda>data. bindR (data_convert junk data cx)
                            (\<lambda>ctx1. bindR (deref (Option.bind ifc data_cb) Null_Deref)
                              (\<lambda>cb. bindR (cb ctx1 s1)
                                (\<lambda>s2. Inr (SP_CLIENT_READ_RESULT_SUCCESS, Some ctx1, s2)))))
                    | LOGIN_FEEDBACK \<Rightarrow>
                        bindR (deref (sm_feedback msg) Null_Deref)
                          (\<lambda>fb. bindR (deref (Option.bind ifc feedback_cb) Null_Deref)
                            (\<lambda>cb. bindR (cb (fb_success fb) (fb_msg fb) s1)
                              (\<lambda>s2. Inr (SP_CLIENT_READ_RESULT_SUCCESS, ctxp, s2))))
                    | Unknown_Server_Type _ \<Rightarrow> Inr (SP_CLIENT_READ_RESULT_SUCCESS, ctxp, s1))
               | _ \<Rightarrow> Inr (SP_CLIENT_READ_RESULT_FAILURE, ctxp, s1))"

text \<open>The arrays as the application gets them; a NULL pointer asks for nothing.\<close>

definition sp_client_data_get ::
  "sp_client_context \<Rightarrow> bool \<Rightarrow> bool \<Rightarrow> bool \<Rightarrow>
    Session numbered_array option \<times> Template numbered_array option \<times> User numbered_array option" where
  "sp_client_data_get cx want_sessions want_templates want_users =
     (if want_sessions then Some (cc_sessions cx) else None,
      if want_templates then Some (cc_templates cx) else None,
      if want_users then Some (cc_users cx) else None)"

subsection \<open>What filling an array amounts to\<close>

text \<open>
  The contract of a pair of free and convert functions: a cleared and a freed entry are
  converted alike, to a value of the position and the message alone (for messages that are
  \<open>fit\<close>). \<open>_fill_array\<close> then forgets what was in the array and in the new memory.
\<close>

locale wire_array =
  fixes zero :: 'a and ff :: "'a \<Rightarrow> 'a" and cf :: "int \<Rightarrow> 'd \<Rightarrow> 'a \<Rightarrow> 'a res"
    and img :: "int \<Rightarrow> 'd \<Rightarrow> 'a" and fit :: "'d \<Rightarrow> bool"
  assumes convert_zero: "fit d \<Longrightarrow> cf i d zero = Inr (img i d)"
    and convert_freed: "fit d \<Longrightarrow> cf i d (ff x) = Inr (img i d)"
begin

lemma convert_loop_image:
  assumes "\<forall>d \<in> set ds. fit d" and "length mem = i + length ds"
    and "\<forall>x \<in> set (drop i mem). x = zero \<or> (\<exists>y. x = ff y)"
  shows "convert_loop cf i ds mem = Inr (take i mem @ map (\<lambda>j. img (int (i + j)) (ds ! j)) [0..<length ds])"
  using assms
proof (induction ds arbitrary: i mem)
  case (Cons d ds)
  have i: "i < length mem" using Cons.prems(2) by simp
  then have "mem ! i \<in> set (drop i mem)" by (metis Cons_nth_drop_Suc list.set_intros(1))
  with Cons.prems(3) have "mem ! i = zero \<or> (\<exists>y. mem ! i = ff y)" by blast
  with Cons.prems(1) have cf: "cf (int i) d (mem ! i) = Inr (img (int i) d)"
    by (elim disjE exE) (simp_all add: convert_zero convert_freed)
  let ?m = "mem[i := img (int i) d]"
  have "set (drop (Suc i) ?m) \<subseteq> set (drop i mem)"
    by (simp add: drop_update_cancel set_drop_subset_set_drop)
  then have "convert_loop cf (Suc i) ds ?m =
      Inr (take (Suc i) ?m @ map (\<lambda>j. img (int (Suc i + j)) (ds ! j)) [0..<length ds])"
    using Cons.prems by (intro Cons.IH) auto
  moreover have "[0..<length (d # ds)] = 0 # map Suc [0..<length ds]"
    by (simp add: upt_conv_Cons map_Suc_upt del: upt_Suc)
  ultimately show ?case
    using i cf by (simp add: take_Suc_update comp_def ac_simps)
qed simp

lemma fill_array_image:
  assumes "\<forall>d \<in> set data. fit d" and "na_length arr = int (length (na_data arr))"
  shows "fill_array junk zero ff cf data arr =
    Inr \<lparr>na_length = int (length data), na_data = map (\<lambda>j. img (int j) (data ! j)) [0..<length data]\<rparr>"
proof -
  let ?n = "length data" and ?old = "length (na_data arr)"
  let ?cleared = "take ?n (map ff (na_data arr)) @ replicate (?n - ?old) zero"
  have fill: "fill_array junk zero ff cf data arr =
      bindR (convert_loop cf 0 data ?cleared) (\<lambda>mem. Inr \<lparr>na_length = int ?n, na_data = mem\<rparr>)"
    using assms(2) by (auto simp: fill_array_def Let_def nat_diff_distrib')
  have "\<forall>x \<in> set (drop 0 ?cleared). x = zero \<or> (\<exists>y. x = ff y)"
    by (auto dest!: in_set_takeD)
  moreover have "length ?cleared = 0 + ?n" by simp
  ultimately show ?thesis
    using convert_loop_image [OF assms(1), of ?cleared 0] by (simp only: fill) simp
qed

end

definition template_image :: "int \<Rightarrow> server_template \<Rightarrow> Template" where
  "template_image i t = \<lparr>tm_id = i, tm_icon = tmpl_icon t, tm_name = tmpl_name t\<rparr>"

definition session_image :: "int \<Rightarrow> server_session \<Rightarrow> Session" where
  "session_image i x = \<lparr>se_id = i, se_icon = ses_icon x, se_user = ses_user x, se_name = ses_name x\<rparr>"

definition prefered_index :: "string option list \<Rightarrow> string option \<Rightarrow> int" where
  "prefered_index names pref = (case find_index (\<lambda>n. n = pref) names of None \<Rightarrow> 0 | Some i \<Rightarrow> int i)"

definition user_image :: "string option list \<Rightarrow> int \<Rightarrow> server_user \<Rightarrow> User" where
  "user_image names i u = \<lparr>us_id = i, us_icon = usr_icon u, us_name = usr_name u,
     us_prefered_session = prefered_index names (usr_prefered_session u)\<rparr>"

definition private_session_image :: "int \<Rightarrow> server_session \<Rightarrow> Private_Session" where
  "private_session_image i x = \<lparr>ps_session_id = ses_id x, ps_id = i\<rparr>"

definition private_template_image :: "int \<Rightarrow> server_template \<Rightarrow> Private_Template" where
  "private_template_image i t = \<lparr>pt_template_id = tmpl_id t, pt_id = i\<rparr>"

lemma find_simular_loop_index:
  "None \<notin> tm_name ` set ts \<Longrightarrow> find_simular_loop p ts i =
     Inr (case find_index (\<lambda>n. n = Some p) (map tm_name ts) of None \<Rightarrow> 0 | Some k \<Rightarrow> i + int k)"
proof (induction ts arbitrary: i)
  case (Cons t ts)
  then obtain nm where "tm_name t = Some nm" by (cases "tm_name t") auto
  with Cons show ?case by (auto split: option.splits simp del: find_index_None)
qed simp

lemma find_simular_index:
  assumes "na_length ts = int (length (na_data ts))" and "None \<notin> tm_name ` set (na_data ts)" and "pref \<noteq> None"
  shows "find_simular_session ts pref = Inr (prefered_index (map tm_name (na_data ts)) pref)"
  using assms find_simular_loop_index [OF assms(2), of "the pref" 0]
  by (auto simp: find_simular_session_def prefered_index_def split: option.split simp del: find_index_None)

interpretation templates: wire_array zero_template templates_free templates_convert template_image
  "\<lambda>t. tmpl_icon t \<noteq> None \<and> tmpl_name t \<noteq> None"
  by unfold_locales
     (auto simp: templates_convert_def templates_free_def template_image_def zero_template_def STRDUP_S_def)

interpretation sessions: wire_array zero_session sessions_free sessions_convert session_image
  "\<lambda>x. ses_icon x \<noteq> None \<and> ses_name x \<noteq> None \<and> ses_user x \<noteq> None"
  by unfold_locales
     (auto simp: sessions_convert_def sessions_free_def session_image_def zero_session_def STRDUP_S_def)

interpretation users: wire_array zero_user users_free "users_convert ts" "user_image (map tm_name (na_data ts))"
  "\<lambda>u. na_length ts = int (length (na_data ts)) \<and> None \<notin> tm_name ` set (na_data ts) \<and>
     usr_prefered_session u \<noteq> None \<and> usr_icon u \<noteq> None \<and> usr_name u \<noteq> None" for ts
  by unfold_locales
     (auto simp: users_convert_def users_free_def user_image_def zero_user_def STRDUP_S_def find_simular_index)

interpretation private_sessions: wire_array zero_private_session private_sessions_free
  private_sessions_convert private_session_image "\<lambda>x. ses_id x \<noteq> None"
  by unfold_locales
     (auto simp: private_sessions_convert_def private_sessions_free_def private_session_image_def
       zero_private_session_def STRDUP_S_def)

interpretation private_templates: wire_array zero_private_template private_templates_free
  private_templates_convert private_template_image "\<lambda>t. tmpl_id t \<noteq> None"
  by unfold_locales
     (auto simp: private_templates_convert_def private_templates_free_def private_template_image_def
       zero_private_template_def STRDUP_S_def)

subsection \<open>Well-formed contexts and messages\<close>

text \<open>The generated code does not unpack a message that lacks a required field.\<close>

definition complete_data :: "server_data \<Rightarrow> bool" where
  "complete_data d \<longleftrightarrow>
     (\<forall>t \<in> set (data_templates d). tmpl_id t \<noteq> None \<and> tmpl_name t \<noteq> None \<and> tmpl_icon t \<noteq> None) \<and>
     (\<forall>x \<in> set (data_sessions d). ses_id x \<noteq> None \<and> ses_user x \<noteq> None \<and> ses_name x \<noteq> None \<and> ses_icon x \<noteq> None) \<and>
     (\<forall>u \<in> set (data_users d). usr_name u \<noteq> None \<and> usr_icon u \<noteq> None \<and> usr_prefered_session u \<noteq> None)"

definition na_ok :: "'a numbered_array \<Rightarrow> bool" where
  "na_ok arr \<longleftrightarrow> na_length arr = int (length (na_data arr))"

definition context_ok :: "sp_client_context \<Rightarrow> bool" where
  "context_ok cx \<longleftrightarrow>
     na_ok (cc_templates cx) \<and> na_ok (cc_private_templates cx) \<and> na_ok (cc_sessions cx) \<and>
     na_ok (cc_private_sessions cx) \<and> na_ok (cc_users cx) \<and>
     na_length (cc_private_templates cx) = na_length (cc_templates cx) \<and>
     na_length (cc_private_sessions cx) = na_length (cc_sessions cx) \<and>
     (\<forall>p \<in> set (na_data (cc_private_templates cx)). pt_template_id p \<noteq> None) \<and>
     (\<forall>u \<in> set (na_data (cc_users cx)).
        us_prefered_session u = 0 \<or> 0 \<le> us_prefered_session u \<and> us_prefered_session u < na_length (cc_templates cx))"

definition numbered :: "(int \<Rightarrow> 'd \<Rightarrow> 'a) \<Rightarrow> 'd list \<Rightarrow> 'a numbered_array" where
  "numbered img data =
     \<lparr>na_length = int (length data), na_data = map (\<lambda>j. img (int j) (data ! j)) [0..<length data]\<rparr>"

lemma numbered_simps [simp]:
  "na_length (numbered img data) = int (length data)" "length (na_data (numbered img data)) = length data"
  "na_ok (numbered img data)"
  "i < length data \<Longrightarrow> na_data (numbered img data) ! i = img (int i) (data ! i)"
  by (simp_all add: numbered_def na_ok_def)

lemma set_numbered: "x \<in> set (na_data (numbered img data)) \<longleftrightarrow> (\<exists>i < length data. x = img (int i) (data ! i))"
  by (auto simp: numbered_def)

definition converted :: "server_data \<Rightarrow> sp_client_context \<Rightarrow> sp_client_context" where
  "converted d cx = cx\<lparr>
     cc_templates := numbered template_image (data_templates d),
     cc_sessions := numbered session_image (data_sessions d),
     cc_users := numbered (user_image (map tmpl_name (data_templates d))) (data_users d),
     cc_private_sessions := numbered private_session_image (data_sessions d),
     cc_private_templates := numbered private_template_image (data_templates d)\<rparr>"

lemma template_names:
  "map tm_name (na_data (numbered template_image data)) = map tmpl_name data"
  by (rule nth_equalityI) (simp_all add: template_image_def)

lemma data_convert_converted:
  assumes "complete_data d" and "context_ok cx"
  shows "data_convert junk d cx = Inr (converted d cx)"
proof -
  have "None \<notin> tm_name ` set (na_data (numbered template_image (data_templates d)))"
    using assms(1) unfolding image_set template_names by (auto simp: complete_data_def)
  with assms show ?thesis
    by (simp add: data_convert_def complete_data_def context_ok_def na_ok_def converted_def
        templates.fill_array_image sessions.fill_array_image users.fill_array_image
        private_sessions.fill_array_image private_templates.fill_array_image
        flip: numbered_def template_names)
qed

lemma prefered_index_range:
  "prefered_index names p = 0 \<or> 0 \<le> prefered_index names p \<and> prefered_index names p < int (length names)"
  by (auto simp: prefered_index_def dest: find_index_SomeD split: option.split)

lemma context_ok_converted:
  assumes "complete_data d"
  shows "context_ok (converted d cx)"
proof -
  have "us_prefered_session u = 0 \<or> 0 \<le> us_prefered_session u \<and> us_prefered_session u < int (length (data_templates d))"
    if "u \<in> set (na_data (numbered (user_image (map tmpl_name (data_templates d))) (data_users d)))" for u
  proof -
    from that obtain i where "us_prefered_session u =
        prefered_index (map tmpl_name (data_templates d)) (usr_prefered_session (data_users d ! i))"
      by (auto simp: set_numbered user_image_def)
    then show ?thesis
      using prefered_index_range [of "map tmpl_name (data_templates d)"] by simp
  qed
  with assms show ?thesis
    by (auto simp: context_ok_def converted_def set_numbered private_template_image_def complete_data_def)
qed

subsection \<open>Properties of the library\<close>

text \<open>What the application has to provide: callbacks that come back.\<close>

definition callbacks_ok :: "'s sp_client_interface option \<Rightarrow> bool" where
  "callbacks_ok ifc \<longleftrightarrow>
     (\<forall>i. ifc = Some i \<longrightarrow>
        (\<forall>cb cx s. data_cb i = Some cb \<longrightarrow> (\<exists>t. cb cx s = Inr t)) \<and>
        (\<forall>cb ok msg s. feedback_cb i = Some cb \<longrightarrow> (\<exists>t. cb ok msg s = Inr t)))"

text \<open>
  What unpacking promises: a part that needs its fields has them. The parts \<open>data\<close> and \<open>feedback\<close> of a message
  are optional, whatever its type; a message may lack the one its type goes with.
\<close>

definition unpacked :: "server_message input \<Rightarrow> bool" where
  "unpacked inp \<longleftrightarrow> (\<forall>m d. inp = Message m \<longrightarrow> sm_data m = Some d \<longrightarrow> complete_data d)"

definition lacks_part :: "server_message input \<Rightarrow> bool" where
  "lacks_part inp = (case inp of
     Message m \<Rightarrow> (sm_type m = DATA_UPDATE \<and> sm_data m = None) \<or> (sm_type m = LOGIN_FEEDBACK \<and> sm_feedback m = None)
   | _ \<Rightarrow> False)"

text \<open>C20: Whatever arrives on the connection: a message that lacks the optional part its type goes with makes
  the library dereference NULL, whether it is an update without data or a feedback without feedback.
  Anything else (nothing, rubbish, any other message) gives one of the three results and leaves a
  context whose arrays have the length of their contents, the private arrays as long as the public
  ones, and every user's preferred session at a position among the templates (or 0).\<close>

theorem read_keeps_context:
  assumes "context_ok cx" and inp: "inp = co_read co (nreads s) (cc_server_sock cx)" "unpacked inp" and "callbacks_ok ifc"
  shows "if interface_check ifc \<and> lacks_part inp
    then sp_client_read co junk (Some cx) ifc s = Inl Null_Deref
    else \<exists>res cx' t. sp_client_read co junk (Some cx) ifc s = Inr (res, Some cx', t) \<and> context_ok cx' \<and>
      (res = SP_CLIENT_READ_RESULT_FAILURE \<longrightarrow> cx' = cx) \<and>
      (res = SP_CLIENT_READ_RESULT_EXIT \<longleftrightarrow> interface_check ifc \<and> (\<exists>m. inp = Message m \<and> sm_type m = LEAVE))"
proof (cases "interface_check ifc")
  case False
  with assms(1) show ?thesis by (simp add: sp_client_read_def)
next
  case True
  then obtain i dcb fcb where i: "ifc = Some i" "data_cb i = Some dcb" "feedback_cb i = Some fcb"
    by (auto simp: interface_check_def split: option.splits if_splits)
  with assms(4) have cb: "\<exists>t. dcb x u = Inr t" "\<exists>t. fcb ok msg u = Inr t" for x u ok msg
    by (auto simp: callbacks_ok_def)
  show ?thesis
  proof (cases inp)
    case (Message m)
    note m = Message inp(1) [symmetric] True
    show ?thesis
    proof (cases "sm_type m")
      case DATA_UPDATE
      show ?thesis
      proof (cases "sm_data m")
        case None
        with m DATA_UPDATE show ?thesis by (simp add: sp_client_read_def lacks_part_def Let_def)
      next
        case (Some d)
        with inp(2) Message have d: "complete_data d" by (simp add: unpacked_def)
        obtain t where "dcb (converted d cx) (s\<lparr>nreads := Suc (nreads s)\<rparr>) = Inr t" using cb by blast
        with m DATA_UPDATE Some i show ?thesis
          by (simp add: sp_client_read_def lacks_part_def Let_def data_convert_converted [OF d assms(1)] context_ok_converted [OF d])
      qed
    next
      case LOGIN_FEEDBACK
      show ?thesis
      proof (cases "sm_feedback m")
        case None
        with m LOGIN_FEEDBACK show ?thesis by (simp add: sp_client_read_def lacks_part_def Let_def)
      next
        case (Some fb)
        obtain t where "fcb (fb_success fb) (fb_msg fb) (s\<lparr>nreads := Suc (nreads s)\<rparr>) = Inr t" using cb by blast
        with m LOGIN_FEEDBACK Some i assms(1) show ?thesis by (simp add: sp_client_read_def lacks_part_def Let_def)
      qed
    qed (use m assms(1) in \<open>simp_all add: sp_client_read_def lacks_part_def Let_def\<close>)
  qed (use True inp(1) [symmetric] assms(1) in \<open>simp_all add: sp_client_read_def lacks_part_def Let_def\<close>)
qed

definition two_templates :: server_data where
  "two_templates =
     \<lparr>data_templates = [\<lparr>tmpl_id = Some ''t0'', tmpl_name = Some ''tty'', tmpl_icon = Some ''i''\<rparr>,
        \<lparr>tmpl_id = Some ''t4'', tmpl_name = Some ''sway'', tmpl_icon = Some ''i''\<rparr>],
      data_sessions = [\<lparr>ses_id = Some ''c2'', ses_user = Some ''bob'', ses_name = Some ''sway'', ses_icon = Some ''i''\<rparr>],
      data_users = [\<lparr>usr_uid = 1000, usr_name = Some ''bob'', usr_icon = Some ''i'',
        usr_prefered_session = Some ''sway''\<rparr>]\<rparr>"

definition dirty_memory :: heap_junk where
  "dirty_memory =
     \<lparr>junk_template = \<lparr>tm_id = 77, tm_icon = Some ''old'', tm_name = None\<rparr>,
      junk_session = \<lparr>se_id = - 1, se_icon = None, se_user = Some ''x'', se_name = Some ''y''\<rparr>,
      junk_user = \<lparr>us_id = 9, us_icon = None, us_name = Some ''stale'', us_prefered_session = 99\<rparr>,
      junk_private_session = \<lparr>ps_session_id = Some ''c9'', ps_id = 4\<rparr>,
      junk_private_template = \<lparr>pt_template_id = Some ''t9'', pt_id = 5\<rparr>\<rparr>"

definition example_client_os :: "server_message input \<Rightarrow> client_os" where
  "example_client_os inp = \<lparr>so_listen_fds = 0, so_socket = 3, so_bind = True, so_listen = True, so_chmod = True,
     so_connect = (\<lambda>_. True), so_readable = (\<lambda>_ _. True), so_mkdir = (\<lambda>_ _. True),
     co_write = (\<lambda>_ fd _. 0 \<le> fd), co_read = (\<lambda>_ fd. if 0 \<le> fd then inp else Read_error)\<rparr>"

definition update_message :: server_message where
  "update_message = \<lparr>sm_type = DATA_UPDATE, sm_feedback = None, sm_data = Some two_templates\<rparr>"

lemma two_templates_complete: "complete_data two_templates"
  by (simp add: complete_data_def two_templates_def)

lemma context_ok_new: "context_ok new_context"
  by (simp add: context_ok_def new_context_def no_array_def na_ok_def)

lemma read_keeps_context_witness:
  "(\<exists>res cx' t. sp_client_read (example_client_os (Message update_message)) dirty_memory (Some new_context)
     (Some \<lparr>data_cb = Some (\<lambda>_. Inr), feedback_cb = Some (\<lambda>_ _. Inr)\<rparr>) example_world = Inr (res, Some cx', t) \<and>
     context_ok cx' \<and> res \<noteq> SP_CLIENT_READ_RESULT_EXIT) \<and>
   sp_client_read (example_client_os (Message (update_message\<lparr>sm_data := None\<rparr>))) dirty_memory (Some new_context)
     (Some \<lparr>data_cb = Some (\<lambda>_. Inr), feedback_cb = Some (\<lambda>_ _. Inr)\<rparr>) example_world = Inl Null_Deref"
proof -
  let ?co = "\<lambda>m. example_client_os (Message m)"
  let ?ifc = "Some \<lparr>data_cb = Some (\<lambda>_. Inr), feedback_cb = Some (\<lambda>_ _. Inr)\<rparr> :: world sp_client_interface option"
  have inp: "Message m = co_read (?co m) (nreads example_world) (cc_server_sock new_context)" for m
    by (simp add: example_client_os_def new_context_def)
  have "unpacked (Message update_message)" "unpacked (Message (update_message\<lparr>sm_data := None\<rparr>))"
    "\<not> lacks_part (Message update_message)" "lacks_part (Message (update_message\<lparr>sm_data := None\<rparr>))"
    "interface_check ?ifc" "callbacks_ok ?ifc" "sm_type update_message = DATA_UPDATE"
    by (simp_all add: unpacked_def lacks_part_def update_message_def two_templates_complete interface_check_def callbacks_ok_def)
  with read_keeps_context [OF context_ok_new inp, of update_message ?ifc dirty_memory]
    read_keeps_context [OF context_ok_new inp, of "update_message\<lparr>sm_data := None\<rparr>" ?ifc dirty_memory]
  show ?thesis by fastforce
qed

text \<open>C15: \<open>_data_convert\<close> replaces everything: the five arrays are functions of the message alone, however
  long the arrays were before, whatever they held and whatever \<open>realloc\<close> left in new memory.\<close>

theorem data_convert_replaces:
  assumes "complete_data d" and "context_ok cx"
  shows "\<exists>cx'. data_convert junk d cx = Inr cx' \<and>
    cc_templates cx' = numbered template_image (data_templates d) \<and>
    cc_private_templates cx' = numbered private_template_image (data_templates d) \<and>
    cc_sessions cx' = numbered session_image (data_sessions d) \<and>
    cc_private_sessions cx' = numbered private_session_image (data_sessions d) \<and>
    cc_users cx' = numbered (user_image (map tmpl_name (data_templates d))) (data_users d) \<and>
    cc_server_sock cx' = cc_server_sock cx \<and> cc_debug cx' = cc_debug cx"
  using data_convert_converted [OF assms] by (simp add: converted_def)

lemma data_convert_replaces_witness:
  "\<exists>cx'. data_convert dirty_memory two_templates new_context = Inr cx' \<and>
     map us_prefered_session (na_data (cc_users cx')) = [1] \<and>
     map pt_template_id (na_data (cc_private_templates cx')) = [Some ''t0'', Some ''t4'']"
proof -
  have "map us_prefered_session (na_data (numbered (user_image (map tmpl_name (data_templates two_templates)))
      (data_users two_templates))) = [1]"
    "map pt_template_id (na_data (numbered private_template_image (data_templates two_templates))) = [Some ''t0'', Some ''t4'']"
    by code_simp+
  then show ?thesis
    using data_convert_replaces [OF two_templates_complete context_ok_new, of dirty_memory] by metis
qed

subsection \<open>From the daemon's answer to the greeter's request\<close>

text \<open>
  Packing, the socket and unpacking are generated code and the kernel: what a greeter receives is
  assumed to have the entries that were sent, in their order, with the strings that were set.
\<close>

definition same_text :: "string option \<Rightarrow> string option \<Rightarrow> bool" where
  "same_text a b \<longleftrightarrow> b \<noteq> None \<and> (a \<noteq> None \<longrightarrow> b = a)"

definition carries :: "server_data \<Rightarrow> server_data \<Rightarrow> bool" where
  "carries sent received \<longleftrightarrow>
     list_all2 (\<lambda>a b. same_text (tmpl_id a) (tmpl_id b) \<and> same_text (tmpl_name a) (tmpl_name b) \<and>
       same_text (tmpl_icon a) (tmpl_icon b)) (data_templates sent) (data_templates received) \<and>
     list_all2 (\<lambda>a b. same_text (ses_id a) (ses_id b) \<and> same_text (ses_user a) (ses_user b) \<and>
       same_text (ses_name a) (ses_name b) \<and> same_text (ses_icon a) (ses_icon b)) (data_sessions sent) (data_sessions received) \<and>
     list_all2 (\<lambda>a b. usr_uid a = usr_uid b \<and> same_text (usr_name a) (usr_name b) \<and> same_text (usr_icon a) (usr_icon b) \<and>
       same_text (usr_prefered_session a) (usr_prefered_session b)) (data_users sent) (data_users received)"

lemma carries_complete: "carries sent received \<Longrightarrow> complete_data received"
  by (auto simp: carries_def complete_data_def same_text_def list_all2_conv_all_nth in_set_conv_nth)

lemma find_by_id: "distinct (map t_id ts) \<Longrightarrow> t \<in> set ts \<Longrightarrow> find (\<lambda>y. t_id y = t_id t) ts = Some t"
  by (induction ts) (auto simp: rev_image_eqI)

definition template_sent :: "template \<Rightarrow> server_template" where
  "template_sent t = \<lparr>tmpl_id = Some (t_id t), tmpl_name = Some (t_name t), tmpl_icon = t_icon t\<rparr>"

lemma load_templates_view:
  assumes "tmpls s = Live_ptr a" and "distinct (map t_id (template_view s))"
  shows "load_templates s = Inr (map template_sent (template_view s))"
proof -
  let ?f = "\<lambda>tid ts. bindR (template_details_get tid s)
     (\<lambda>r. Inr (ts @ [case r of
            None \<Rightarrow> \<lparr>tmpl_id = Some tid, tmpl_name = None, tmpl_icon = None\<rparr>
          | Some (name, icon, _) \<Rightarrow> \<lparr>tmpl_id = Some tid, tmpl_name = Some name, tmpl_icon = icon\<rparr>]))"
  have "foldR ?f (map t_id ts) acc = Inr (acc @ map template_sent ts)" if "set ts \<subseteq> set (template_view s)" for ts acc
    using that
    by (induction ts arbitrary: acc)
       (auto simp: details_view [OF assms(1)] find_by_id [OF assms(2)] template_sent_def)
  then show ?thesis by (simp add: load_templates_def get_view [OF assms(1)])
qed

lemma load_data_templates:
  assumes "load_data os seat s = Inr sent" and "tmpl_ok s"
  shows "data_templates sent = map template_sent (template_view s)"
proof -
  from assms(1) obtain ts where ts: "load_templates s = Inr ts" and eq: "data_templates sent = ts"
    by (auto simp: load_data_def elim!: bindR_InrE)
  have "\<exists>a. tmpls s = Live_ptr a"
    using ts by (cases "tmpls s") (auto simp: load_templates_def template_get_def)
  then obtain a where a: "tmpls s = Live_ptr a" ..
  with assms(2) have "distinct (map t_id (template_view s))" by (simp add: tmpl_ok_def template_view_def)
  with load_templates_view [OF a] ts eq show ?thesis by simp
qed

text \<open>What arrives for a template, and that the daemon finds it under the identifier that arrives.\<close>

lemma template_arrives:
  assumes "load_data os seat s = Inr sent" and "tmpl_ok s" and "carries sent received"
    and i: "i < length (template_view s)"
  shows "length (data_templates received) = length (template_view s) \<and>
    tmpl_id (data_templates received ! i) = Some (t_id (template_view s ! i)) \<and>
    tmpl_name (data_templates received ! i) = Some (t_name (template_view s ! i)) \<and>
    (\<exists>a. tmpls s = Live_ptr a) \<and>
    find (\<lambda>y. t_id y = t_id (template_view s ! i)) (template_view s) = Some (template_view s ! i)"
proof -
  note sent = load_data_templates [OF assms(1,2)]
  have len: "length (data_templates received) = length (template_view s)"
    using assms(3) sent by (auto simp: carries_def dest: list_all2_lengthD)
  have strs: "tmpl_id (data_templates received ! i) = Some (t_id (template_view s ! i))"
    "tmpl_name (data_templates received ! i) = Some (t_name (template_view s ! i))"
    using assms(3) sent i len by (auto simp: carries_def list_all2_conv_all_nth same_text_def template_sent_def)
  have "\<exists>a. tmpls s = Live_ptr a" using i by (auto simp: template_view_def split: gptr.splits)
  then obtain a where a: "tmpls s = Live_ptr a" ..
  with assms(2) have "distinct (map t_id (template_view s))" by (simp add: tmpl_ok_def template_view_def)
  then show ?thesis using len strs a i by (simp add: find_by_id)
qed

lemma collect_slots:
  "foldR (\<lambda>x xs. bindR (deref x Null_Deref) (\<lambda>y. Inr (xs @ [y]))) (map Some ys) acc = Inr (acc @ ys)"
  by (induction ys arbitrary: acc) simp_all

lemma load_data_sessions:
  assumes "load_data os seat s = Inr sent" and "getpwnam os SP_USER = Some su"
    and "\<forall>raw \<in> set (session_enumerate os seat). session_known os (pw_uid su) raw"
  shows "data_sessions sent = List.map_filter (session_entry os (pw_uid su)) (session_enumerate os seat)"
proof -
  let ?shown = "List.map_filter (session_entry os (pw_uid su)) (session_enumerate os seat)"
  have "load_sessions os seat = Inr (map Some ?shown)" by (rule load_sessions_filter [OF assms(2,3)])
  with assms(1) show ?thesis by (auto simp: load_data_def collect_slots elim!: bindR_InrE)
qed

text \<open>C8: What a greeter shows is what the daemon starts: after the daemon's answer to \<open>HELLO\<close> has been
  converted, the entry at a position of the list of templates carries the name of a registered
  template, and a login with this position asks for exactly that template by an identifier under
  which the daemon finds it.\<close>

theorem template_choice_is_found:
  assumes "load_data os seat s = Inr sent" and "tmpl_ok s" and "carries sent received" and "context_ok cx"
    and "0 \<le> i" and "i < int (length (template_view s))"
    and "\<And>msg. co_write co (trace w) (cc_server_sock cx) msg"
  shows "\<exists>cx' t tid. data_convert junk received cx = Inr cx' \<and> t = template_view s ! nat i \<and> tid = t_id t \<and>
    nat i < length (na_data (cc_templates cx')) \<and> tm_name (na_data (cc_templates cx') ! nat i) = Some (t_name t) \<and>
    sp_client_login co (Some cx') u p i w = Inr (True, emit (Asked (cc_server_sock cx)
      \<lparr>gm_type = LOGIN_TRY, gm_login = Some \<lparr>login_user = u, login_password = p, login_template_id = tid\<rparr>,
       gm_session = None\<rparr>) w) \<and>
    template_details_get tid s = Inr (Some (t_name t, t_icon t, t_type t))"
proof -
  let ?t = "template_view s ! nat i" and ?cx = "converted received cx"
  have conv: "data_convert junk received cx = Inr ?cx"
    by (rule data_convert_converted [OF carries_complete [OF assms(3)] assms(4)])
  have i: "nat i < length (template_view s)" using assms(5,6) by linarith
  then obtain a where len: "length (data_templates received) = length (template_view s)"
    and strs: "tmpl_id (data_templates received ! nat i) = Some (t_id ?t)"
      "tmpl_name (data_templates received ! nat i) = Some (t_name ?t)"
    and a: "tmpls s = Live_ptr a" and found: "find (\<lambda>y. t_id y = t_id ?t) (template_view s) = Some ?t"
    using template_arrives [OF assms(1-3)] by blast
  have "template_details_get (t_id ?t) s = Inr (Some (t_name ?t, t_icon ?t, t_type ?t))"
    by (simp add: details_view [OF a] found)
  moreover have "sp_client_login co (Some ?cx) u p i w = Inr (True, emit (Asked (cc_server_sock cx)
      \<lparr>gm_type = LOGIN_TRY, gm_login = Some \<lparr>login_user = u, login_password = p, login_template_id = t_id ?t\<rparr>,
       gm_session = None\<rparr>) w)"
    using assms(5-7) i len strs
    by (simp add: sp_client_login_def converted_def ARRAY_ACCESS_def private_template_image_def write_msg_def)
  ultimately show ?thesis
    using conv i len strs
    by (intro exI [of _ ?cx] exI [of _ ?t] exI [of _ "t_id ?t"])
       (simp add: converted_def template_image_def)
qed

definition tty_registered :: daemon where
  "tty_registered = (globals [])\<lparr>tmpls := Live_ptr \<lparr>cells = [\<lparr>t_id = ''t0'', t_name = ''tty'',
     t_icon = Some ''utilities-terminal'', t_type = ''tty'', t_cb = Tty_Fire_Up, t_data = None\<rparr>], blk = 1\<rparr>,
     counter := 1, greeters := Live_ptr tarray_new,
     udb := \<lparr>ctx = Live_ptr \<lparr>started_uid = 0, users = [], loaded_from_fs = True, ref_count = 1\<rparr>, dirents = []\<rparr>\<rparr>"

definition answer :: server_data where
  "answer = \<lparr>data_templates = [\<lparr>tmpl_id = Some ''t0'', tmpl_name = Some ''tty'', tmpl_icon = Some ''utilities-terminal''\<rparr>],
     data_sessions = [\<lparr>ses_id = Some ''c2'', ses_user = Some ''bob'', ses_name = Some ''wayland - sway'', ses_icon = None\<rparr>],
     data_users = []\<rparr>"

definition answer_received :: server_data where
  "answer_received = answer\<lparr>data_sessions := [\<lparr>ses_id = Some ''c2'', ses_user = Some ''bob'',
     ses_name = Some ''wayland - sway'', ses_icon = Some ''''\<rparr>]\<rparr>"

lemma tty_registered_answers: "load_data (example_os Malformed) (Some ''seat0'') tty_registered = Inr answer"
  by code_simp

lemma answer_carried: "carries answer answer_received"
  by (simp add: carries_def answer_def answer_received_def same_text_def)

lemma tty_registered_ok: "tmpl_ok tty_registered"
proof -
  have "template_id 0 = ''t0''" by code_simp
  moreover have "(0 :: 32 word) < 1" by simp
  ultimately show ?thesis by (auto simp: tmpl_ok_def tty_registered_def)
qed

lemma template_choice_is_found_witness:
  "\<exists>cx'. data_convert dirty_memory answer_received new_context = Inr cx' \<and>
     sp_client_login (example_client_os Malformed) (Some cx') ''bob'' ''secret'' 0 example_world = Inr (True, emit (Asked 0
      \<lparr>gm_type = LOGIN_TRY, gm_login = Some \<lparr>login_user = ''bob'', login_password = ''secret'',
       login_template_id = ''t0''\<rparr>, gm_session = None\<rparr>) example_world)"
proof -
  have "template_view tty_registered = [\<lparr>t_id = ''t0'', t_name = ''tty'',
     t_icon = Some ''utilities-terminal'', t_type = ''tty'', t_cb = Tty_Fire_Up, t_data = None\<rparr>]"
    by (simp add: template_view_def tty_registered_def)
  moreover have "co_write (example_client_os Malformed) tr (cc_server_sock new_context) msg" for tr msg
    by (simp add: example_client_os_def new_context_def)
  moreover have "cc_server_sock new_context = 0" by (simp add: new_context_def)
  ultimately show ?thesis
    using template_choice_is_found [OF tty_registered_answers tty_registered_ok answer_carried context_ok_new,
        of 0 "example_client_os Malformed" example_world dirty_memory "''bob''" "''secret''"] by auto
qed

text \<open>A session that is shown has details, whatever is asked of them.\<close>

lemma shown_session_details:
  assumes "session_entry os me raw = Some e"
  shows "\<exists>d. session_details os (Some raw) False False = Inr d \<and> det_ok d"
proof -
  obtain d where "session_details os (Some raw) True True = Inr d" "det_ok d"
    using assms by (auto simp: session_entry_def split: sum.splits if_splits)
  then show ?thesis
    by (auto simp: session_details_def Let_def bindR_eq_Inr split: option.splits)
qed

lemma session_entry_id: "session_entry os me raw = Some e \<Longrightarrow> ses_id e = Some raw"
  by (auto simp: session_entry_def split: sum.splits if_splits cell.splits)

lemma map_filter_nth:
  assumes "i < length (List.map_filter f xs)"
  shows "\<exists>x \<in> set xs. f x = Some (List.map_filter f xs ! i)"
proof -
  have "List.map_filter f xs ! i \<in> set (List.map_filter f xs)" using assms by simp
  then show ?thesis by (auto simp: List.map_filter_def)
qed

text \<open>C18: A session a greeter picks is one that the daemon takes: the request for a position of the list of
  sessions names a session of the greeter's seat that is not the greeter user's own, and the daemon,
  given this request in the same surroundings, activates exactly that session.\<close>

theorem session_choice_is_activated:
  assumes "load_data os seat s = Inr sent" and "getpwnam os SP_USER = Some su"
    and "\<forall>raw \<in> set (session_enumerate os seat). session_known os (pw_uid su) raw"
    and "carries sent received" and "context_ok cx"
    and "0 \<le> i" and "i < int (length (data_sessions sent))"
    and "\<And>msg. co_write co (trace w) (cc_server_sock cx) msg"
  shows "\<exists>cx' raw. data_convert junk received cx = Inr cx' \<and> raw \<in> set (session_enumerate os seat) \<and>
    session_entry os (pw_uid su) raw \<noteq> None \<and>
    sp_client_session_activate co (Some cx') i w = Inr (True, emit (Asked (cc_server_sock cx)
      \<lparr>gm_type = SESSION_ACTIVATION, gm_login = None, gm_session = Some raw\<rparr>) w) \<and>
    handle_activation os c (Some raw) seat fd t =
      bindR (greeter_lockout seat (server_spawnservice_feedback False
               (Some ''Activation is called on this session'') fd (session_activate (Some raw) t)))
        (client_goodbye c)"
proof -
  let ?cx = "converted received cx"
  note sent = load_data_sessions [OF assms(1-3)]
  have conv: "data_convert junk received cx = Inr ?cx"
    by (rule data_convert_converted [OF carries_complete [OF assms(4)] assms(5)])
  have i: "nat i < length (data_sessions sent)" using assms(6,7) by linarith
  with sent obtain raw where raw: "raw \<in> set (session_enumerate os seat)"
    and e: "session_entry os (pw_uid su) raw = Some (data_sessions sent ! nat i)"
    using map_filter_nth [of "nat i" "session_entry os (pw_uid su)" "session_enumerate os seat"] by auto
  from e have "ses_id (data_sessions sent ! nat i) = Some raw" by (rule session_entry_id)
  with assms(4) i have ids: "ses_id (data_sessions received ! nat i) = Some raw"
    and len: "length (data_sessions received) = length (data_sessions sent)"
    by (auto simp: carries_def list_all2_conv_all_nth same_text_def)
  have "sp_client_session_activate co (Some ?cx) i w = Inr (True, emit (Asked (cc_server_sock cx)
      \<lparr>gm_type = SESSION_ACTIVATION, gm_login = None, gm_session = Some raw\<rparr>) w)"
    using assms(6-8) i ids len
    by (simp add: sp_client_session_activate_def converted_def ARRAY_ACCESS_def private_session_image_def write_msg_def)
  moreover obtain d where "session_details os (Some raw) False False = Inr d" "det_ok d"
    using shown_session_details [OF e] by blast
  then have "handle_activation os c (Some raw) seat fd t =
      bindR (greeter_lockout seat (server_spawnservice_feedback False
               (Some ''Activation is called on this session'') fd (session_activate (Some raw) t)))
        (client_goodbye c)"
    by (simp add: handle_activation_def)
  ultimately show ?thesis using conv raw e by blast
qed

lemma session_choice_is_activated_witness:
  "\<exists>cx' raw. data_convert dirty_memory answer_received new_context = Inr cx' \<and> raw \<in> {''c1'', ''c2'', ''c3''} \<and>
     sp_client_session_activate (example_client_os Malformed) (Some cx') 0 example_world = Inr (True, emit (Asked 0
      \<lparr>gm_type = SESSION_ACTIVATION, gm_login = None, gm_session = Some raw\<rparr>) example_world)"
proof -
  let ?os = "example_os Malformed"
  have su: "getpwnam ?os SP_USER = Some spawny_pw" by (simp add: example_os_def SP_USER_def)
  have raws: "session_enumerate ?os (Some ''seat0'') = [''c1'', ''c2'', ''c3'']"
    by (simp add: example_os_def session_enumerate_def)
  have "session_known ?os (pw_uid spawny_pw) ''c1''" "session_known ?os (pw_uid spawny_pw) ''c2''"
    "session_known ?os (pw_uid spawny_pw) ''c3''" by code_simp+
  then have known: "\<forall>raw \<in> set (session_enumerate ?os (Some ''seat0'')). session_known ?os (pw_uid spawny_pw) raw"
    by (simp add: raws)
  have "co_write (example_client_os Malformed) tr (cc_server_sock new_context) msg" for tr msg
    by (simp add: example_client_os_def new_context_def)
  moreover have "cc_server_sock new_context = 0" "0 < int (length (data_sessions answer))"
    by (simp_all add: new_context_def answer_def)
  ultimately show ?thesis
    using session_choice_is_activated [where c = 0 and fd = 5 and t = tty_registered,
        OF tty_registered_answers su known answer_carried context_ok_new,
        of 0 "example_client_os Malformed" example_world dirty_memory] by (simp add: raws) blast
qed

text \<open>A request for a position outside the lists sends nothing and says so; no position whatsoever makes
  the library leave its arrays.\<close>

theorem requests_stay_in_bounds:
  assumes "context_ok cx"
  shows "\<exists>l a. sp_client_login co (Some cx) u p i w = Inr l \<and> sp_client_session_activate co (Some cx) i w = Inr a \<and>
    (fst l \<longrightarrow> 0 \<le> i \<and> i < na_length (cc_templates cx)) \<and> (\<not> fst l \<longrightarrow> snd l = w) \<and>
    (fst a \<longrightarrow> 0 \<le> i \<and> i < na_length (cc_sessions cx)) \<and> (\<not> fst a \<longrightarrow> snd a = w)"
proof -
  have len: "na_length (cc_private_templates cx) = int (length (na_data (cc_private_templates cx)))"
    "na_length (cc_private_sessions cx) = int (length (na_data (cc_private_sessions cx)))"
    "na_length (cc_private_templates cx) = na_length (cc_templates cx)"
    "na_length (cc_private_sessions cx) = na_length (cc_sessions cx)"
    using assms by (simp_all add: context_ok_def na_ok_def)
  have "\<exists>l. sp_client_login co (Some cx) u p i w = Inr l \<and>
    (fst l \<longrightarrow> 0 \<le> i \<and> i < na_length (cc_templates cx)) \<and> (\<not> fst l \<longrightarrow> snd l = w)"
  proof (cases "0 \<le> i \<and> i < na_length (cc_private_templates cx)")
    case True
    then have lt: "nat i < length (na_data (cc_private_templates cx))" using len(1) by linarith
    then have "na_data (cc_private_templates cx) ! nat i \<in> set (na_data (cc_private_templates cx))" by simp
    then obtain tid where "pt_template_id (na_data (cc_private_templates cx) ! nat i) = Some tid"
      using assms by (auto simp: context_ok_def)
    with True lt len(3) show ?thesis by (simp add: sp_client_login_def write_msg_def ARRAY_ACCESS_def)
  next
    case False
    then show ?thesis by (auto simp: sp_client_login_def)
  qed
  moreover have "\<exists>a. sp_client_session_activate co (Some cx) i w = Inr a \<and>
    (fst a \<longrightarrow> 0 \<le> i \<and> i < na_length (cc_sessions cx)) \<and> (\<not> fst a \<longrightarrow> snd a = w)"
    using len(2,4) by (auto simp: sp_client_session_activate_def write_msg_def ARRAY_ACCESS_def)
  ultimately show ?thesis by blast
qed

lemma requests_stay_in_bounds_witness:
  "\<exists>l. sp_client_login (example_client_os Malformed) (Some new_context) ''bob'' ''secret'' 7 example_world = Inr l \<and> \<not> fst l"
  using requests_stay_in_bounds [OF context_ok_new, of "example_client_os Malformed" "''bob''" "''secret''" 7 example_world]
  by (auto simp: new_context_def no_array_def)

end
