(* ===== verification/Session_Child.thy ===== *)
theory Session_Child
  imports Client
begin

section \<open>The process of a session: the child side of \<open>sp-daemon/spawnservice.c\<close>\<close>

text \<open>
  What \<open>child_run\<close> does where \<open>fork\<close> returned 0: take over the terminal, go through PAM,
  become the user, report over the pipe, wait until the session is active, and run the job in
  one more process. The child works on a copy of the daemon's state; what it does to the system
  is appended to the trace, and the answers it gets are the record \<open>child_os\<close>. A step that
  gives up reports the reason and answers \<open>False\<close>; \<open>andThen\<close> is the early return.

  PAM is a library: a call of it may ask questions through \<open>_pam_conv\<close> before it answers. Such a
  call is a \<open>pam_talk\<close>: a result, or messages and what follows the responses to them.
\<close>

subsection \<open>The surroundings of the child\<close>

datatype pam_ret =
    PAM_SUCCESS
  | PAM_BUF_ERR
  | PAM_CONV_ERR
  | PAM_ABORT
  | PAM_SYSTEM_ERR
  | PAM_AUTH_ERR
  | PAM_CRED_INSUFFICIENT
  | PAM_MAXTRIES
  | PAM_USER_UNKNOWN
  | Other_pam_ret int

datatype msg_style =
    PAM_PROMPT_ECHO_ON
  | PAM_PROMPT_ECHO_OFF
  | PAM_ERROR_MSG
  | PAM_TEXT_INFO
  | Other_msg_style int

record pam_message =
  pm_style :: msg_style
  pm_msg :: string

datatype pam_talk =
    Pam_result pam_ret
  | Pam_ask "pam_message list" "string option list \<Rightarrow> pam_talk"

record child_os = client_os +
  ch_getpid :: int
  ch_tty_group :: "int option"
  ch_open :: "nat \<Rightarrow> int"
  ch_isatty :: "int \<Rightarrow> bool"
  ch_tcgetsid :: "nat \<Rightarrow> int"
  ch_set_ctty :: "nat \<Rightarrow> bool"
  ch_dup :: "nat \<Rightarrow> int"
  ch_vhangup :: bool
  ch_tcsetpgrp :: bool
  ch_chown :: bool
  ch_chmod :: bool
  ch_pam_start :: "string \<Rightarrow> string \<Rightarrow> pam_ret"
  ch_pam_putenv :: "string \<Rightarrow> pam_ret"
  ch_pam_authenticate :: pam_talk
  ch_pam_setcred :: pam_talk
  ch_pam_open_session :: pam_talk
  ch_pam_getenvlist :: "string list \<Rightarrow> string list option"
  ch_chdir :: bool
  ch_initgroups :: bool
  ch_setgid :: bool
  ch_setuid :: bool
  ch_is_active :: "nat \<Rightarrow> int"
  ch_readable :: "string \<Rightarrow> bool"
  ch_execl :: "string \<Rightarrow> bool"
  ch_greeter :: string
  ch_greeter_fallback :: string

definition andThen ::
  "(bool \<times> 's) res \<Rightarrow> ('s \<Rightarrow> (bool \<times> 's) res) \<Rightarrow> (bool \<times> 's) res" where
  "andThen m f = bindR m (\<lambda>(ok, s). if ok then f s else Inr (False, s))"

definition give_up :: "spawn_try \<Rightarrow> string \<Rightarrow> 'a world_scheme \<Rightarrow> (bool \<times> 'a world_scheme) res" where
  "give_up try reason s = Inr (False, service_com_exit try reason s)"

definition insist :: "spawn_try \<Rightarrow> bool \<Rightarrow> string \<Rightarrow> 'a world_scheme \<Rightarrow> (bool \<times> 'a world_scheme) res" where
  "insist try ok reason s = (if ok then Inr (True, s) else give_up try reason s)"

definition perform :: "sys_op \<Rightarrow> 'a world_scheme \<Rightarrow> (bool \<times> 'a world_scheme) res" where
  "perform p s = Inr (True, emit_sys p s)"

subsection \<open>The terminal\<close>

text \<open>The block that appears twice: become the controlling process of the terminal.\<close>

definition control_tty ::
  "'b child_os_scheme \<Rightarrow> spawn_try \<Rightarrow> nat \<Rightarrow> int \<Rightarrow> 'a world_scheme \<Rightarrow> (bool \<times> 'a world_scheme) res" where
  "control_tty co try k fd s =
     (let tid = ch_tcgetsid co k
      in if tid < 0 \<or> ch_getpid co \<noteq> tid
         then (if \<not> ch_set_ctty co k then give_up try ''Getting control of tty failed'' s
               else perform (Set_ctty fd) s)
         else Inr (True, s))"

definition close_std :: "'a world_scheme \<Rightarrow> 'a world_scheme" where
  "close_std s = emit (Closed 2) (emit (Closed 0) (emit (Closed 1) s))"

text \<open>
  The modes \<open>0620\<close> and \<open>0600\<close> are 400 and 384. The text of the third message stands here without
  its apostrophe, which is not an ASCII character.
\<close>

definition open_tty ::
  "os \<Rightarrow> 'b child_os_scheme \<Rightarrow> spawn_try \<Rightarrow> string \<Rightarrow> 'a world_scheme \<Rightarrow> (bool \<times> 'a world_scheme) res" where
  "open_tty os co try tty s0 =
     (let s = emit_sys Hup_ignored s0
      in case getpwnam os (usr try) of
           None \<Rightarrow> give_up try ''Failed to fetch user'' s
         | Some pwd \<Rightarrow>
             (case ch_tty_group co of
                None \<Rightarrow> give_up try ''Failed to get group tty!'' s
              | Some gid \<Rightarrow>
                  andThen (insist try (ch_open co 0 \<ge> 0) ''Failed to open tty'' s)
                 (\<lambda>s. andThen (perform (Opened tty) s)
                 (\<lambda>s. andThen (insist try (ch_isatty co (ch_open co 0)) ''FD is not a tty'' s)
                 (\<lambda>s. andThen (control_tty co try 0 (ch_open co 0) s)
                 (\<lambda>s. andThen (insist try (ch_open co 0 = 0 \<and> ch_dup co 0 = 1 \<and> ch_dup co 1 = 2)
                           ''TTY fds where not at place 0, 1 and 2'' s)
                 (\<lambda>s. andThen (insist try (ch_vhangup co) ''vhangup failed!'' s)
                 (\<lambda>s. andThen (perform Hung_up s)
                 (\<lambda>s. andThen (insist try (ch_open co 1 \<ge> 0) ''Failed to open tty'' (close_std s))
                 (\<lambda>s. andThen (perform (Opened tty) s)
                 (\<lambda>s. andThen (control_tty co try 1 (ch_open co 1) s)
                 (\<lambda>s. andThen (perform Flushed_input s)
                 (\<lambda>s. andThen (insist try (ch_tcsetpgrp co) ''Failed to get foreground proccess'' s)
                 (\<lambda>s. andThen (perform (Foreground (ch_getpid co)) s)
                 (\<lambda>s. andThen (insist try (ch_open co 1 = 0 \<and> ch_dup co 2 = 1 \<and> ch_dup co 3 = 2)
                           ''TTY fds where not at place 0, 1 and 2'' s)
                 (\<lambda>s. andThen (insist try (ch_chown co) ''Own and mod failed!!!'' s)
                 (\<lambda>s. andThen (perform (Chown tty (pw_uid pwd) gid) s)
                 (\<lambda>s. andThen (insist try (ch_chmod co) ''Own and mod failed!!!'' s)
                 (\<lambda>s. andThen (perform (Chmod tty (if gid \<noteq> 0 then 400 else 384)) s)
                 (\<lambda>s. perform Hup_restored s))))))))))))))))))))"

subsection \<open>PAM\<close>

text \<open>
  The loop of \<open>_pam_conv\<close>. PAM passes the address of one pointer; \<open>rp[i]\<close> reads the \<open>i\<close>-th pointer
  behind that address, so only \<open>i = 0\<close> is inside.
\<close>

fun pam_conv_loop ::
  "spawn_try \<Rightarrow> nat \<Rightarrow> pam_message list \<Rightarrow> string option list \<Rightarrow> 'a world_scheme \<Rightarrow>
    (string option list \<times> 'a world_scheme) res" where
  "pam_conv_loop try i [] resp s = Inr (resp, s)"
| "pam_conv_loop try i (m # ms) resp s =
     (if i \<noteq> 0 then Inl Out_Of_Bounds
      else (case pm_style m of
              PAM_PROMPT_ECHO_OFF \<Rightarrow> pam_conv_loop try (Suc i) ms (resp[i := pw try]) s
            | PAM_ERROR_MSG \<Rightarrow> pam_conv_loop try (Suc i) ms resp (service_com_exit try (pm_msg m) s)
            | PAM_TEXT_INFO \<Rightarrow> pam_conv_loop try (Suc i) ms resp (service_com_exit try (pm_msg m) s)
            | _ \<Rightarrow> pam_conv_loop try (Suc i) ms resp s))"

definition pam_conv ::
  "spawn_try \<Rightarrow> pam_message list \<Rightarrow> 'a world_scheme \<Rightarrow> (string option list \<times> 'a world_scheme) res" where
  "pam_conv try msgs s = pam_conv_loop try 0 msgs (replicate (length msgs) None) s"

primrec pam_call :: "spawn_try \<Rightarrow> pam_talk \<Rightarrow> 'a world_scheme \<Rightarrow> (pam_ret \<times> 'a world_scheme) res" where
  "pam_call try (Pam_result r) s = Inr (r, s)"
| "pam_call try (Pam_ask msgs k) s =
     bindR (pam_conv try msgs s) (\<lambda>(resp, s1). pam_call try (k resp) s1)"

definition handle_error :: "spawn_try \<Rightarrow> pam_ret \<Rightarrow> 'a world_scheme \<Rightarrow> 'a world_scheme" where
  "handle_error try ret = service_com_exit try
     (case ret of
        PAM_BUF_ERR \<Rightarrow> ''Pam error PAM_BUF_ERR happend''
      | PAM_CONV_ERR \<Rightarrow> ''Pam error PAM_CONF_ERR happend''
      | PAM_ABORT \<Rightarrow> ''Pam error PAM_ABORT happend''
      | PAM_SYSTEM_ERR \<Rightarrow> ''Pam error PAM_SYSTEM_ERR happend''
      | PAM_AUTH_ERR \<Rightarrow> ''Pam error PAM_AUTH_ERR happend''
      | PAM_CRED_INSUFFICIENT \<Rightarrow> ''Pam error PAM_CRED_INSUFFICIENT happend''
      | PAM_MAXTRIES \<Rightarrow> ''Pam error PAM_MAX_TRIES happend''
      | PAM_USER_UNKNOWN \<Rightarrow> ''Pam error PAM_USER_UNKNOWN happend''
      | _ \<Rightarrow> ''uncaught state'')"

definition PAM_CHECK :: "spawn_try \<Rightarrow> (pam_ret \<times> 'a world_scheme) res \<Rightarrow> (bool \<times> 'a world_scheme) res" where
  "PAM_CHECK try m =
     bindR m (\<lambda>(ret, s). if ret \<noteq> PAM_SUCCESS then Inr (False, handle_error try ret s) else Inr (True, s))"

text \<open>\<open>pam_putenv\<close> of a text that the buffer, made of its parts' lengths, holds completely.\<close>

definition put_buffer ::
  "'b child_os_scheme \<Rightarrow> spawn_try \<Rightarrow> nat \<Rightarrow> string \<Rightarrow> 'a world_scheme \<Rightarrow> (bool \<times> 'a world_scheme) res" where
  "put_buffer co try cap line s =
     (let buf = snprintf cap line; ret = ch_pam_putenv co buf
      in PAM_CHECK try (Inr (ret, if ret = PAM_SUCCESS then emit_sys (Pam_putenv buf) s else s)))"

definition PE ::
  "'b child_os_scheme \<Rightarrow> spawn_try \<Rightarrow> string \<Rightarrow> string option \<Rightarrow> 'a world_scheme \<Rightarrow> (bool \<times> 'a world_scheme) res" where
  "PE co try k v s =
     bindR (deref v Null_Deref)
       (\<lambda>x. put_buffer co try (length k + 1 + length x + 1) (k @ ''='' @ x) s)"

definition PE_int ::
  "'b child_os_scheme \<Rightarrow> spawn_try \<Rightarrow> string \<Rightarrow> int \<Rightarrow> 'a world_scheme \<Rightarrow> (bool \<times> 'a world_scheme) res" where
  "PE_int co try k v s =
     bindR (INT_LENGTH v)
       (\<lambda>n. put_buffer co try (length k + 1 + n + 1) (k @ ''='' @ show_int v) s)"

definition PE_if_set ::
  "'b child_os_scheme \<Rightarrow> spawn_try \<Rightarrow> string \<Rightarrow> string option cell \<Rightarrow> 'a world_scheme \<Rightarrow> (bool \<times> 'a world_scheme) res" where
  "PE_if_set co try k c s =
     bindR (read_cell c) (\<lambda>v. if v = None then Inr (True, s) else PE co try k v s)"

text \<open>A call of PAM that counts as done only when it succeeds.\<close>

definition pam_step ::
  "spawn_try \<Rightarrow> pam_talk \<Rightarrow> sys_op \<Rightarrow> 'a world_scheme \<Rightarrow> (bool \<times> 'a world_scheme) res" where
  "pam_step try talk p s = andThen (PAM_CHECK try (pam_call try talk s)) (perform p)"

definition pam_env :: "effect list \<Rightarrow> string list" where
  "pam_env tr = List.map_filter (\<lambda>e. case e of Sys (Pam_putenv x) \<Rightarrow> Some x | _ \<Rightarrow> None) tr"

text \<open>
  The environment list is read right after the change of directory, before the identity
  changes; \<open>pam_getenvlist\<close> sees what was put since the transaction was started, which is
  everything in this process.
\<close>

definition pam_auth ::
  "os \<Rightarrow> 'b child_os_scheme \<Rightarrow> spawn_try \<Rightarrow> int \<Rightarrow> 'a world_scheme \<Rightarrow> (bool \<times> 'a world_scheme) res" where
  "pam_auth os co try vtnr s =
     (let ret = ch_pam_start co (service try) (usr try)
      in andThen (PAM_CHECK try (Inr (ret, if ret = PAM_SUCCESS then emit_sys (Pam_start (service try) (usr try)) s else s)))
     (\<lambda>s. bindR (deref (getpwnam os (usr try)) Null_Deref) (\<lambda>pwd.
           andThen (PE co try ''HOME'' (Some (pw_dir pwd)) s)
     (\<lambda>s. andThen (PE co try ''PWD'' (Some (pw_dir pwd)) s)
     (\<lambda>s. andThen (PE co try ''SHELL'' (Some (pw_shell pwd)) s)
     (\<lambda>s. andThen (PE co try ''USER'' (Some (pw_name pwd)) s)
     (\<lambda>s. andThen (PE co try ''LOGNAME'' (Some (pw_name pwd)) s)
     (\<lambda>s. bindR (read_cell (session_seat (settings try))) (\<lambda>seat.
           andThen (PE co try ''XDG_SEAT'' seat s)
     (\<lambda>s. andThen (PE_if_set co try ''XDG_SESSION_DESKTOP'' (session_desktop (settings try)) s)
     (\<lambda>s. andThen (PE_if_set co try ''XDG_SESSION_TYPE'' (session_type (settings try)) s)
     (\<lambda>s. andThen (PE_int co try ''XDG_VTNR'' vtnr s)
     (\<lambda>s. andThen (pam_step try (ch_pam_authenticate co) Pam_authenticated s)
     (\<lambda>s. andThen (pam_step try (ch_pam_setcred co) Pam_established s)
     (\<lambda>s. andThen (pam_step try (ch_pam_open_session co) Pam_opened s)
     (\<lambda>s. andThen (insist try (ch_chdir co) ''Change dir failed'' s)
     (\<lambda>s. andThen (perform (Chdir (pw_dir pwd)) s)
     (\<lambda>s. andThen (insist try (ch_initgroups co) ''init the groups of usr failed'' s)
     (\<lambda>s. andThen (perform (Initgroups (usr try) (pw_gid pwd)) s)
     (\<lambda>s. andThen (insist try (ch_setgid co) ''failed to set gid'' s)
     (\<lambda>s. andThen (perform (Setgid (pw_gid pwd)) s)
     (\<lambda>s. andThen (insist try (ch_setuid co) ''failed to set uid'' s)
     (\<lambda>s. andThen (perform (Setuid (pw_uid pwd)) s)
     (\<lambda>s. perform Pam_ended s))))))))))))))))))))))))"

subsection \<open>The job, in the process of the session\<close>

text \<open>The user a process runs as: root until the last \<open>setuid\<close>.\<close>

definition getuid :: "effect list \<Rightarrow> int" where
  "getuid tr = fold (\<lambda>e u. case e of Sys (Setuid v) \<Rightarrow> v | _ \<Rightarrow> u) tr 0"

text \<open>How a process ends: it has become another program, or it has exited.\<close>

datatype proc_end = Replaced | Exited int | Returned

definition execl ::
  "'b child_os_scheme \<Rightarrow> string \<Rightarrow> string list \<Rightarrow> 'a world_scheme \<Rightarrow> proc_end \<times> 'a world_scheme" where
  "execl co path argv s = (if ch_execl co path then (Replaced, emit_sys (Exec path argv) s) else (Returned, s))"

text \<open>
  \<open>_fire_up\<close> of \<open>x11_temp.c\<close>, \<open>wl_temp.c\<close> and \<open>_tty_fire_up\<close> of \<open>tty_temp.c\<close>. A NULL among the
  arguments of \<open>execl\<close> ends them.
\<close>

definition x11_fire_up ::
  "os \<Rightarrow> 'b child_os_scheme \<Rightarrow> string option \<Rightarrow> 'a world_scheme \<Rightarrow> (proc_end \<times> 'a world_scheme) res" where
  "x11_fire_up os co data s =
     bindR (deref data Null_Deref)
       (\<lambda>d. bindR (deref (getpwuid os (getuid (trace s))) Null_Deref)
         (\<lambda>pwd. let command = snprintf (length ''startx'' + length d + 2) (''startx'' @ '' '' @ d)
                 in Inr (execl co (pw_shell pwd)
                      [c_basename (pw_shell pwd), ''--login'', ''-i'', ''-c'', command] s)))"

definition wl_fire_up ::
  "os \<Rightarrow> 'b child_os_scheme \<Rightarrow> string option \<Rightarrow> 'a world_scheme \<Rightarrow> (proc_end \<times> 'a world_scheme) res" where
  "wl_fire_up os co data s =
     bindR (deref (getpwuid os (getuid (trace s))) Null_Deref)
       (\<lambda>pwd. Inr (execl co (pw_shell pwd)
          ([c_basename (pw_shell pwd), ''--login'', ''-i'', ''-c''] @ (case data of None \<Rightarrow> [] | Some d \<Rightarrow> [d])) s))"

definition tty_fire_up ::
  "os \<Rightarrow> 'b child_os_scheme \<Rightarrow> string option \<Rightarrow> 'a world_scheme \<Rightarrow> (proc_end \<times> 'a world_scheme) res" where
  "tty_fire_up os co data s =
     bindR (deref (getpwuid os (getuid (trace s))) Null_Deref)
       (\<lambda>pwd. Inr (execl co (pw_shell pwd) [c_basename (pw_shell pwd), ''--login'', ''-i''] s))"

definition fire_up ::
  "os \<Rightarrow> 'b child_os_scheme \<Rightarrow> fire_up \<Rightarrow> string option \<Rightarrow> 'a world_scheme \<Rightarrow> (proc_end \<times> 'a world_scheme) res" where
  "fire_up os co f =
     (case f of Tty_Fire_Up \<Rightarrow> tty_fire_up os co | X11_Fire_Up \<Rightarrow> x11_fire_up os co | Wl_Fire_Up \<Rightarrow> wl_fire_up os co)"

text \<open>
  \<open>_session_job\<close> of \<open>server.c\<close> over \<open>template_run\<close>. A template whose program cannot be started
  returns like one that is unknown.
\<close>

definition session_job ::
  "os \<Rightarrow> 'b child_os_scheme \<Rightarrow> string \<Rightarrow> 'a templates_scheme \<Rightarrow> (proc_end \<times> 'a templates_scheme) res" where
  "session_job os co tid s =
     bindR (find_temp tid s)
       (\<lambda>r. case r of
              None \<Rightarrow> Inr (Returned, s)
            | Some (_, t) \<Rightarrow> fire_up os co (t_cb t) (t_data t) s)"

text \<open>Where the greeters are installed is decided by the build.\<close>

definition greeter_cmdpath :: "'b child_os_scheme \<Rightarrow> int \<Rightarrow> string" where
  "greeter_cmdpath co gen =
     (let cmdpath = (if gen < FALLBACK_RUN_GENERATION then (if ch_readable co (ch_greeter co) then Some (ch_greeter co) else None)
                     else None)
      in if gen \<ge> FALLBACK_RUN_GENERATION \<or> cmdpath = None then ch_greeter_fallback co else the cmdpath)"

definition greeter_job ::
  "'b child_os_scheme \<Rightarrow> ref \<Rightarrow> 'a greeter_state_scheme \<Rightarrow> (proc_end \<times> 'a greeter_state_scheme) res" where
  "greeter_job co data s =
     bindR (greeter_deref data s)
       (\<lambda>g. let cmdpath = greeter_cmdpath co (run_gen g); cmd = c_basename cmdpath
            in case execl co cmdpath (if \<not> debug s then [cmd] else [cmd, ''--debug'']) s of
                 (Replaced, t) \<Rightarrow> Inr (Replaced, t)
               | (_, t) \<Rightarrow> Inr (Exited 1, t))"

definition run_job ::
  "os \<Rightarrow> 'b child_os_scheme \<Rightarrow> job_fn \<Rightarrow> 'a daemon_scheme \<Rightarrow> (proc_end \<times> 'a daemon_scheme) res" where
  "run_job os co jb s =
     (case jb of Greeter_job data \<Rightarrow> greeter_job co data s | Session_job tid \<Rightarrow> session_job os co tid s)"

text \<open>\<open>_reexecute_greeter\<close> of \<open>server.c\<close>: the daemon's own arguments go to the client library.\<close>

definition reexecute_greeter :: "'b child_os_scheme \<Rightarrow> string list \<Rightarrow> 'a world_scheme \<Rightarrow> 'a world_scheme" where
  "reexecute_greeter co argv s =
     (if \<not> no_greeter_restart s then snd (sp_client_greeter_start co (Some argv) s) else s)"

text \<open>
  \<open>_session_proc_fire_up\<close>, in both processes its \<open>fork\<close> makes: where it answers 0 the job runs,
  where it answers a process the end of that process is waited for. No path returns.
\<close>

definition session_proc_fire_up ::
  "os \<Rightarrow> 'b child_os_scheme \<Rightarrow> string list \<Rightarrow> spawn_try \<Rightarrow> 'a daemon_scheme \<Rightarrow> (proc_end \<times> 'a daemon_scheme) res" where
  "session_proc_fire_up os co argv try s =
     (let pid = os_fork os (nforks s); s1 = s\<lparr>nforks := Suc (nforks s)\<rparr>
      in if pid = 0 then
           bindR (run_job os co (job try) s1)
             (\<lambda>(e, t). Inr (if e = Returned then Exited 1 else e, t))
         else if pid = -1 then Inr (Exited 1, s1)
         else let s2 = emit_sys (Reaped pid) s1
              in Inr (Exited 1, case session_ended try of
                                  None \<Rightarrow> s2
                                | Some Reexecute_greeter \<Rightarrow> reexecute_greeter co argv s2))"

subsection \<open>The whole child\<close>

definition current_session_get :: "os \<Rightarrow> 'b child_os_scheme \<Rightarrow> string option" where
  "current_session_get os co = session_get os (ch_getpid co)"

text \<open>
  The wait may last for ever, which is \<open>None\<close>; otherwise the number of the answer that ended it
  (an error, which is negative, ends it too).
\<close>

partial_function (option) wait_session_active :: "'b child_os_scheme \<Rightarrow> nat \<Rightarrow> nat option" where
  "wait_session_active co k = (if ch_is_active co k = 0 then wait_session_active co (Suc k) else Some k)"

declare wait_session_active.simps [code]

text \<open>From \<open>fork\<close> to \<open>SETUP_DONE\<close>; \<open>False\<close> is an exit before.\<close>

definition child_setup ::
  "os \<Rightarrow> 'b child_os_scheme \<Rightarrow> spawn_try \<Rightarrow> string \<Rightarrow> 'a spawner_scheme \<Rightarrow> (bool \<times> 'a spawner_scheme) res" where
  "child_setup os co try tty s0 =
     (let s = service_message try CONNECT None (emit (Closed (com_read try)) (emit_sys Setsid (manager_fork_eval s0)))
      in andThen (open_tty os co try tty (close_std s))
           (\<lambda>s. andThen (pam_auth os co try (tty_counter s) s)
             (\<lambda>s. bindR (deref (ch_pam_getenvlist co (pam_env (trace s))) Null_Deref)
               (\<lambda>env. let s1 = fold (\<lambda>e. emit_sys (Putenv e)) env (emit_sys Clearenv s);
                          s2 = emit_sys (Set_default_env ''TERM'' ''linux'') s1
                      in case current_session_get os co of
                           None \<Rightarrow> give_up try ''session is not valid'' s2
                         | Some session \<Rightarrow> Inr (True, service_message try SETUP_DONE None s2)))))"

definition child_main ::
  "os \<Rightarrow> 'b child_os_scheme \<Rightarrow> string list \<Rightarrow> nat \<Rightarrow> string \<Rightarrow> 'a daemon_scheme \<Rightarrow>
    (proc_end \<times> 'a daemon_scheme) res option" where
  "child_main os co argv t tty s0 =
     (case tries s0 t of
        None \<Rightarrow> Some (Inl Use_After_Free)
      | Some try \<Rightarrow>
          (case child_setup os co try tty s0 of
             Inl e \<Rightarrow> Some (Inl e)
           | Inr (False, s) \<Rightarrow> Some (Inr (Exited (-1), s))
           | Inr (True, s) \<Rightarrow>
               Option.bind (wait_session_active co 0)
                 (\<lambda>_. let s1 = emit (Closed (com_write try)) (service_message try SESSION_ACTIVE None s)
                      in Some (session_proc_fire_up os co argv try s1))))"

subsection \<open>Views of the trace\<close>

definition view :: "(effect \<Rightarrow> 'b option) \<Rightarrow> effect list \<Rightarrow> 'b list" where
  "view f tr = List.map_filter f tr"

lemma view_append [simp]: "view f (xs @ ys) = view f xs @ view f ys"
  by (simp add: view_def List.map_filter_def)

lemma view_Nil [simp]: "view f [] = []"
  by (simp add: view_def List.map_filter_def)

lemma view_Cons [simp]: "view f (x # xs) = (case f x of None \<Rightarrow> [] | Some y \<Rightarrow> [y]) @ view f xs"
  by (simp add: view_def List.map_filter_def split: option.split)

text \<open>What the child told the daemon, and the steps that make it the user.\<close>

fun spoken :: "effect \<Rightarrow> spawn_message_type option" where
  "spoken (Service_message fd m) = Some (sp_type m)"
| "spoken _ = None"

fun credential :: "effect \<Rightarrow> sys_op option" where
  "credential (Sys Pam_authenticated) = Some Pam_authenticated"
| "credential (Sys Pam_established) = Some Pam_established"
| "credential (Sys Pam_opened) = Some Pam_opened"
| "credential (Sys (Initgroups u g)) = Some (Initgroups u g)"
| "credential (Sys (Setgid g)) = Some (Setgid g)"
| "credential (Sys (Setuid u)) = Some (Setuid u)"
| "credential _ = None"

fun pam_put :: "effect \<Rightarrow> string option" where
  "pam_put (Sys (Pam_putenv x)) = Some x"
| "pam_put _ = None"

text \<open>The same with the whole messages, and the pipe they were written to.\<close>

fun heard :: "effect \<Rightarrow> (int \<times> spawn_message) option" where
  "heard (Service_message fd m) = Some (fd, m)"
| "heard _ = None"

lemma spoken_heard: "view spoken tr = map (sp_type \<circ> snd) (view heard tr)"
proof (induction tr)
  case (Cons e tr)
  have "spoken e = map_option (sp_type \<circ> snd) (heard e)" by (cases e) simp_all
  with Cons show ?case by (simp split: option.split)
qed simp

text \<open>An error as it is written to the pipe.\<close>

definition reason :: "spawn_try \<Rightarrow> string \<Rightarrow> int \<times> spawn_message" where
  "reason y x = (com_write y, \<lparr>sp_type = ERROR_EXIT, sp_exit = Some x\<rparr>)"

lemma pam_env_view: "pam_env tr = view pam_put tr"
proof -
  have "(case e of Sys (Pam_putenv x) \<Rightarrow> Some x | _ \<Rightarrow> None) = pam_put e" for e
    by (cases e rule: pam_put.cases) simp_all
  then show ?thesis by (simp add: pam_env_def view_def)
qed

lemma getuid_view:
  "getuid tr = fold (\<lambda>p u. case p of Setuid v \<Rightarrow> v | _ \<Rightarrow> u) (view credential tr) 0"
proof -
  have step: "(case e of Sys (Setuid v) \<Rightarrow> v | _ \<Rightarrow> u) =
      fold (\<lambda>p u. case p of Setuid v \<Rightarrow> v | _ \<Rightarrow> u) (case credential e of None \<Rightarrow> [] | Some y \<Rightarrow> [y]) u" for e u
    by (cases e rule: credential.cases) simp_all
  have "fold (\<lambda>e u. case e of Sys (Setuid v) \<Rightarrow> v | _ \<Rightarrow> u) tr u =
      fold (\<lambda>p u. case p of Setuid v \<Rightarrow> v | _ \<Rightarrow> u) (view credential tr) u" for u
    by (induction tr arbitrary: u) (simp_all add: step)
  then show ?thesis by (simp add: getuid_def)
qed

text \<open>
  A step \<open>follows\<close> a list of effects of a view when it appends a beginning of the list, and all of
  it when it succeeds.
\<close>

definition follows ::
  "(effect \<Rightarrow> 'v option) \<Rightarrow> 'v list \<Rightarrow> 'a world_scheme \<Rightarrow> (bool \<times> 'a world_scheme) res \<Rightarrow> bool" where
  "follows f L s m \<longleftrightarrow> (\<forall>ok t. m = Inr (ok, t) \<longrightarrow>
     (\<exists>k. view f (trace t) = view f (trace s) @ take k L) \<and> (ok \<longrightarrow> view f (trace t) = view f (trace s) @ L))"

text \<open>
  A step \<open>reports\<close> when it tells the daemon nothing but errors, each with its reason, and at least one
  if it fails; if it is quiet, exactly one if it fails and none otherwise.
\<close>

definition reports :: "bool \<Rightarrow> spawn_try \<Rightarrow> 'a world_scheme \<Rightarrow> (bool \<times> 'a world_scheme) res \<Rightarrow> bool" where
  "reports quiet y s m \<longleftrightarrow> (\<forall>ok t. m = Inr (ok, t) \<longrightarrow>
     (\<exists>texts. view heard (trace t) = view heard (trace s) @ map (reason y) texts \<and> (\<not> ok \<longrightarrow> texts \<noteq> []) \<and>
        (quiet \<longrightarrow> length texts = (if ok then 0 else 1))))"

named_theorems child_steps "how a step of the child acts on the views"

lemma follows_andThen [child_steps]:
  assumes "follows f L s m" and "\<And>t. follows f L' t (g t)"
  shows "follows f (L @ L') s (andThen m g)"
  unfolding follows_def
proof (intro allI impI)
  fix ok t
  assume "andThen m g = Inr (ok, t)"
  then obtain b u where m: "m = Inr (b, u)" and g: "if b then g u = Inr (ok, t) else (ok, t) = (False, u)"
    by (auto simp: andThen_def elim!: bindR_InrE split: if_splits)
  show "(\<exists>k. view f (trace t) = view f (trace s) @ take k (L @ L')) \<and>
      (ok \<longrightarrow> view f (trace t) = view f (trace s) @ L @ L')"
  proof (cases b)
    case True
    then have u: "view f (trace u) = view f (trace s) @ L"
      using m assms(1) unfolding follows_def by blast
    from True g have "g u = Inr (ok, t)" by simp
    with assms(2) [of u] obtain k where "view f (trace t) = view f (trace u) @ take k L'"
      "ok \<longrightarrow> view f (trace t) = view f (trace u) @ L'" unfolding follows_def by blast
    with u show ?thesis by (auto intro!: exI [of _ "length L + k"])
  next
    case False
    with m assms(1) g obtain k where "view f (trace t) = view f (trace s) @ take k L" "\<not> ok"
      by (auto simp: follows_def)
    then have "view f (trace t) = view f (trace s) @ take (min k (length L)) (L @ L')" by (simp add: min_def)
    with \<open>\<not> ok\<close> show ?thesis by blast
  qed
qed

lemma follows_andThen_Nil:
  "follows f [] s m \<Longrightarrow> (\<And>t. follows f L t (g t)) \<Longrightarrow> follows f L s (andThen m g)"
  using follows_andThen [of f "[]" s m L g] by simp

lemma reports_andThen:
  assumes "reports q y s m" and "\<And>t. reports q y t (g t)"
  shows "reports q y s (andThen m g)"
  unfolding reports_def
proof (intro allI impI)
  fix ok t
  assume "andThen m g = Inr (ok, t)"
  then obtain b u where m: "m = Inr (b, u)" and g: "if b then g u = Inr (ok, t) else (ok, t) = (False, u)"
    by (auto simp: andThen_def elim!: bindR_InrE split: if_splits)
  with assms(1) obtain xs where xs: "view heard (trace u) = view heard (trace s) @ map (reason y) xs"
    "\<not> b \<longrightarrow> xs \<noteq> []" "q \<longrightarrow> length xs = (if b then 0 else 1)" unfolding reports_def by blast
  show "\<exists>texts. view heard (trace t) = view heard (trace s) @ map (reason y) texts \<and> (\<not> ok \<longrightarrow> texts \<noteq> []) \<and>
      (q \<longrightarrow> length texts = (if ok then 0 else 1))"
  proof (cases b)
    case True
    with g assms(2) [of u] obtain ys where "view heard (trace t) = view heard (trace u) @ map (reason y) ys"
      "\<not> ok \<longrightarrow> ys \<noteq> []" "q \<longrightarrow> length ys = (if ok then 0 else 1)" unfolding reports_def by auto
    with xs True show ?thesis by (intro exI [of _ "xs @ ys"]) auto
  next
    case False
    with g xs show ?thesis by auto
  qed
qed

lemma followsD: "follows f L s m \<Longrightarrow> m = Inr (True, t) \<Longrightarrow> view f (trace t) = view f (trace s) @ L"
  unfolding follows_def by blast

lemma reportsD: "reports q y s m \<Longrightarrow> m = Inr (ok, t) \<Longrightarrow>
    \<exists>texts. view heard (trace t) = view heard (trace s) @ map (reason y) texts \<and> (\<not> ok \<longrightarrow> texts \<noteq> []) \<and>
      (q \<longrightarrow> length texts = (if ok then 0 else 1))"
  unfolding reports_def by blast

lemma follows_bind:
  "(\<And>x. follows f L s (g x)) \<Longrightarrow> follows f L s (bindR (deref v e) g)"
  "(\<And>x. follows f L s (h x)) \<Longrightarrow> follows f L s (bindR (read_cell c) h)"
  "(\<And>x. follows f L s (l x)) \<Longrightarrow> follows f L s (bindR (INT_LENGTH i) l)"
  by (auto simp: follows_def elim!: bindR_InrE)

lemma reports_bind:
  "(\<And>x. reports q y s (g x)) \<Longrightarrow> reports q y s (bindR (deref v e) g)"
  "(\<And>x. reports q y s (h x)) \<Longrightarrow> reports q y s (bindR (read_cell c) h)"
  "(\<And>x. reports q y s (l x)) \<Longrightarrow> reports q y s (bindR (INT_LENGTH i) l)"
  unfolding reports_def by (blast elim!: bindR_InrE)+

text \<open>The elementary steps.\<close>

lemma service_message_views [simp]:
  "view heard (trace (service_message y ty msg s)) =
     view heard (trace s) @ [(com_write y, \<lparr>sp_type = ty, sp_exit = msg\<rparr>)]"
  "view credential (trace (service_message y ty msg s)) = view credential (trace s)"
  "view pam_put (trace (service_message y ty msg s)) = view pam_put (trace s)"
  by (simp_all add: service_message_def)

lemma com_exit_views [simp]:
  "view heard (trace (service_com_exit y msg s)) = view heard (trace s) @ [reason y msg]"
  "view credential (trace (service_com_exit y msg s)) = view credential (trace s)"
  "view pam_put (trace (service_com_exit y msg s)) = view pam_put (trace s)"
  by (simp_all add: service_com_exit_def reason_def)

lemma handle_error_views [simp]:
  "\<exists>msg. view heard (trace (handle_error y r s)) = view heard (trace s) @ [reason y msg]"
  "view credential (trace (handle_error y r s)) = view credential (trace s)"
  "view pam_put (trace (handle_error y r s)) = view pam_put (trace s)"
  by (simp_all add: handle_error_def) blast

lemma follows_insist [child_steps]:
  "follows credential [] s (insist y ok msg s)" "follows pam_put [] s (insist y ok msg s)"
  by (auto simp: follows_def insist_def give_up_def)

lemma follows_give_up [child_steps]:
  "follows credential [] s (give_up y msg s)" "follows pam_put [] s (give_up y msg s)"
  by (auto simp: follows_def give_up_def)

lemma follows_perform:
  "follows f (case f (Sys p) of None \<Rightarrow> [] | Some v \<Rightarrow> [v]) s (perform p s)"
  by (auto simp: follows_def perform_def intro: exI [of _ 1] split: option.split)

lemma follows_perform_silent: "f (Sys p) = None \<Longrightarrow> follows f [] s (perform p s)"
  using follows_perform [of f p s] by simp

lemma follows_perform_said: "f (Sys p) = Some v \<Longrightarrow> follows f [v] s (perform p s)"
  using follows_perform [of f p s] by simp

lemma reports_said:
  "view heard (trace t) = view heard (trace s) @ [reason y msg] \<Longrightarrow> reports q y s (Inr (False, t))"
  by (auto simp: reports_def intro!: exI [of _ "[msg]"])

lemma reports_insist: "reports q y s (insist y ok msg s)"
  by (simp add: insist_def give_up_def reports_said) (simp add: reports_def)

lemma reports_give_up: "reports q y s (give_up y msg s)"
  by (simp add: give_up_def reports_said)

lemma reports_silent: "view heard (trace t) = view heard (trace s) \<Longrightarrow> reports q y s (Inr (True, t))"
  by (simp add: reports_def)

lemma reports_perform: "reports q y s (perform p s)"
  by (simp add: perform_def reports_silent)

lemma reports_done: "reports q y s (Inr (True, s))"
  by (auto simp: reports_def)

lemma follows_done: "follows f [] s (Inr (True, s))"
  by (simp add: follows_def)

lemma reports_option:
  "reports q y s a \<Longrightarrow> (\<And>x. c = Some x \<Longrightarrow> reports q y s (b x)) \<Longrightarrow>
   reports q y s (case c of None \<Rightarrow> a | Some x \<Rightarrow> b x)"
  by (cases c) simp_all

lemma control_tty_steps:
  "follows credential [] s (control_tty co y k fd s)" "follows pam_put [] s (control_tty co y k fd s)"
  by (auto simp: control_tty_def Let_def give_up_def perform_def follows_def)

lemma reports_control_tty: "reports q y s (control_tty co y k fd s)"
  by (auto simp: control_tty_def Let_def intro: reports_give_up reports_perform reports_done)

subsection \<open>What is said during a conversation with PAM\<close>

text \<open>A talk is quiet when, whatever is answered, it never has a text or an error to show.\<close>

inductive quiet_talk :: "pam_talk \<Rightarrow> bool" where
  result: "quiet_talk (Pam_result r)"
| ask: "(\<And>m. m \<in> set msgs \<Longrightarrow> pm_style m \<noteq> PAM_ERROR_MSG \<and> pm_style m \<noteq> PAM_TEXT_INFO) \<Longrightarrow>
    (\<And>resp. quiet_talk (k resp)) \<Longrightarrow> quiet_talk (Pam_ask msgs k)"

inductive_simps quiet_talk_ask: "quiet_talk (Pam_ask msgs k)"

lemma pam_conv_views:
  assumes "pam_conv_loop y i msgs resp s = Inr (r, t)"
  shows "view credential (trace t) = view credential (trace s) \<and> view pam_put (trace t) = view pam_put (trace s) \<and>
    (\<exists>texts. view heard (trace t) = view heard (trace s) @ map (reason y) texts \<and>
      ((\<forall>m \<in> set msgs. pm_style m \<noteq> PAM_ERROR_MSG \<and> pm_style m \<noteq> PAM_TEXT_INFO) \<longrightarrow> texts = []))"
  using assms
proof (induction y i msgs resp s rule: pam_conv_loop.induct)
  case (2 y i m ms resp s)
  show ?case
  proof (cases "ms = [] \<and> i = 0")
    case True
    with "2.prems" show ?thesis
      by (cases "pm_style m") (auto intro: exI [of _ "[pm_msg m]"])
  next
    case False
    then obtain m' ms' where "i = 0 \<Longrightarrow> ms = m' # ms'" by (cases ms) auto
    with "2.prems" show ?thesis by (cases "pm_style m") (auto split: if_splits)
  qed
qed auto

lemma pam_call_views:
  assumes "pam_call y talk s = Inr (r, t)"
  shows "view credential (trace t) = view credential (trace s) \<and> view pam_put (trace t) = view pam_put (trace s) \<and>
    (\<exists>texts. view heard (trace t) = view heard (trace s) @ map (reason y) texts \<and> (quiet_talk talk \<longrightarrow> texts = []))"
  using assms
proof (induction talk arbitrary: s)
  case (Pam_ask msgs k)
  then obtain resp u where c: "pam_conv y msgs s = Inr (resp, u)" and k: "pam_call y (k resp) u = Inr (r, t)"
    by (auto elim!: bindR_InrE)
  from Pam_ask.IH [OF _ k] obtain xs where xs: "view heard (trace t) = view heard (trace u) @ map (reason y) xs"
    "quiet_talk (k resp) \<longrightarrow> xs = []" "view credential (trace t) = view credential (trace u)"
    "view pam_put (trace t) = view pam_put (trace u)" by auto
  from pam_conv_views [OF c [unfolded pam_conv_def]] obtain ys where
    "view heard (trace u) = view heard (trace s) @ map (reason y) ys"
    "(\<forall>m \<in> set msgs. pm_style m \<noteq> PAM_ERROR_MSG \<and> pm_style m \<noteq> PAM_TEXT_INFO) \<longrightarrow> ys = []"
    "view credential (trace u) = view credential (trace s)" "view pam_put (trace u) = view pam_put (trace s)" by auto
  with xs show ?case
    by (auto simp: quiet_talk_ask intro!: exI [of _ "ys @ xs"])
qed simp

lemma PAM_CHECK_call:
  "follows credential [] s (PAM_CHECK y (pam_call y talk s))" "follows pam_put [] s (PAM_CHECK y (pam_call y talk s))"
  "(q \<Longrightarrow> quiet_talk talk) \<Longrightarrow> reports q y s (PAM_CHECK y (pam_call y talk s))"
proof -
  have call: "\<exists>r u texts. pam_call y talk s = Inr (r, u) \<and> ok = (r = PAM_SUCCESS) \<and>
      t = (if ok then u else handle_error y r u) \<and>
      view credential (trace u) = view credential (trace s) \<and> view pam_put (trace u) = view pam_put (trace s) \<and>
      view heard (trace u) = view heard (trace s) @ map (reason y) texts \<and> (quiet_talk talk \<longrightarrow> texts = [])"
    if "PAM_CHECK y (pam_call y talk s) = Inr (ok, t)" for ok t
  proof -
    from that obtain r u where c: "pam_call y talk s = Inr (r, u)"
      and "ok = (r = PAM_SUCCESS)" "t = (if ok then u else handle_error y r u)"
      by (auto simp: PAM_CHECK_def elim!: bindR_InrE split: if_splits)
    with pam_call_views [OF c] show ?thesis by auto
  qed
  then show "follows credential [] s (PAM_CHECK y (pam_call y talk s))" "follows pam_put [] s (PAM_CHECK y (pam_call y talk s))"
    by (fastforce simp: follows_def)+
  assume q: "q \<Longrightarrow> quiet_talk talk"
  show "reports q y s (PAM_CHECK y (pam_call y talk s))"
    unfolding reports_def
  proof (intro allI impI)
    fix ok t
    assume "PAM_CHECK y (pam_call y talk s) = Inr (ok, t)"
    from call [OF this] obtain r u texts where u: "t = (if ok then u else handle_error y r u)"
      "view heard (trace u) = view heard (trace s) @ map (reason y) texts" "quiet_talk talk \<longrightarrow> texts = []" by blast
    obtain msg where "view heard (trace (handle_error y r u)) = view heard (trace u) @ [reason y msg]"
      using handle_error_views(1) by blast
    with u q show "\<exists>texts. view heard (trace t) = view heard (trace s) @ map (reason y) texts \<and>
        (\<not> ok \<longrightarrow> texts \<noteq> []) \<and> (q \<longrightarrow> length texts = (if ok then 0 else 1))"
      by (intro exI [of _ "texts @ (if ok then [] else [msg])"]) auto
  qed
qed

lemma follows_andThen_Cons:
  "follows f [x] s m \<Longrightarrow> (\<And>t. follows f L t (g t)) \<Longrightarrow> follows f (x # L) s (andThen m g)"
  using follows_andThen [of f "[x]" s m L g] by simp

lemma reports_PAM_CHECK_ret: "reports q y s (PAM_CHECK y (Inr (r, if r = PAM_SUCCESS then emit_sys p s else s)))"
proof -
  obtain msg where "view heard (trace (handle_error y r s)) = view heard (trace s) @ [reason y msg]"
    using handle_error_views(1) by blast
  then show ?thesis by (cases "r = PAM_SUCCESS") (auto simp: PAM_CHECK_def intro: reports_said reports_silent)
qed

lemma put_buffer_steps:
  "follows credential [] s (put_buffer co y cap line s)" "follows pam_put [snprintf cap line] s (put_buffer co y cap line s)"
  "reports q y s (put_buffer co y cap line s)"
proof -
  show "follows credential [] s (put_buffer co y cap line s)" "follows pam_put [snprintf cap line] s (put_buffer co y cap line s)"
    by (auto simp: put_buffer_def Let_def PAM_CHECK_def follows_def intro: exI [of _ 0] exI [of _ 1])
  show "reports q y s (put_buffer co y cap line s)"
    unfolding put_buffer_def Let_def by (rule reports_PAM_CHECK_ret)
qed

text \<open>The buffers are long enough: what is put is the whole definition.\<close>

definition env_def :: "string \<Rightarrow> string \<Rightarrow> string" where
  "env_def k v = k @ ''='' @ v"

lemma PE_steps:
  "follows credential [] s (PE co y k v s)"
  "follows pam_put (case v of None \<Rightarrow> [] | Some x \<Rightarrow> [env_def k x]) s (PE co y k v s)"
  "reports q y s (PE co y k v s)"
proof -
  have fits: "snprintf (length k + 1 + length x + 1) (k @ ''='' @ x) = env_def k x" for x
    by (simp add: snprintf_fits env_def_def)
  show "follows credential [] s (PE co y k v s)" "reports q y s (PE co y k v s)"
    unfolding PE_def by - (intro follows_bind reports_bind put_buffer_steps)+
  show "follows pam_put (case v of None \<Rightarrow> [] | Some x \<Rightarrow> [env_def k x]) s (PE co y k v s)"
  proof (cases v)
    case (Some x)
    with put_buffer_steps(2) [where cap = "length k + 1 + length x + 1" and line = "k @ ''='' @ x"] fits [of x]
    show ?thesis by (simp add: PE_def)
  qed (simp add: PE_def follows_def)
qed

lemma PE_Some: "follows pam_put [env_def k x] s (PE co y k (Some x) s)"
  using PE_steps(2) [of k "Some x"] by simp

lemma PE_if_set_steps:
  "follows credential [] s (PE_if_set co y k c s)" "reports q y s (PE_if_set co y k c s)"
  unfolding PE_if_set_def
  by - (intro follows_bind reports_bind; simp add: PE_steps follows_done reports_done)+

lemma PE_if_set_put:
  "follows pam_put (case v of None \<Rightarrow> [] | Some x \<Rightarrow> [env_def k x]) s (PE_if_set co y k (Val v) s)"
  using PE_Some by (cases v) (simp_all add: PE_if_set_def follows_def)

lemma PE_int_steps:
  "follows credential [] s (PE_int co y k v s)" "reports q y s (PE_int co y k v s)"
  "follows pam_put [env_def k (show_int v)] s (PE_int co y k v s)"
proof -
  show "follows credential [] s (PE_int co y k v s)" "reports q y s (PE_int co y k v s)"
    unfolding PE_int_def by - (intro follows_bind reports_bind put_buffer_steps)+
  show "follows pam_put [env_def k (show_int v)] s (PE_int co y k v s)"
  proof (cases "INT_LENGTH v")
    case (Inl e)
    then show ?thesis by (simp add: PE_int_def follows_def)
  next
    case (Inr n)
    then have "v \<noteq> - (2 ^ 31)" by (auto simp: INT_LENGTH_def)
    with Inr length_show_int [of v] have "n = length (show_int v)" by simp
    then have "snprintf (length k + 1 + n + 1) (k @ ''='' @ show_int v) = env_def k (show_int v)"
      by (simp add: snprintf_fits env_def_def)
    with Inr put_buffer_steps(2) [where cap = "length k + 1 + n + 1" and line = "k @ ''='' @ show_int v"]
    show ?thesis by (simp add: PE_int_def)
  qed
qed

lemma pam_step_said: "credential (Sys p) = Some v \<Longrightarrow> follows credential [v] s (pam_step y talk p s)"
  unfolding pam_step_def by (intro follows_andThen_Nil PAM_CHECK_call follows_perform_said)

lemma pam_step_put: "pam_put (Sys p) = None \<Longrightarrow> follows pam_put [] s (pam_step y talk p s)"
  unfolding pam_step_def by (intro follows_andThen_Nil PAM_CHECK_call follows_perform_silent)

lemma pam_step_reports: "(q \<Longrightarrow> quiet_talk talk) \<Longrightarrow> reports q y s (pam_step y talk p s)"
  unfolding pam_step_def by (intro reports_andThen PAM_CHECK_call reports_perform)

lemma PAM_CHECK_start:
  "follows credential [] s (PAM_CHECK y (Inr (r, if r = PAM_SUCCESS then emit_sys (Pam_start a b) s else s)))"
  "follows pam_put [] s (PAM_CHECK y (Inr (r, if r = PAM_SUCCESS then emit_sys (Pam_start a b) s else s)))"
  by (auto simp: PAM_CHECK_def follows_def)

lemmas silent_steps =
  follows_insist follows_give_up control_tty_steps PE_steps(1) PE_if_set_steps(1) PE_int_steps(1)

lemmas report_steps =
  reports_insist reports_give_up reports_perform reports_control_tty PE_steps(3) PE_if_set_steps(2)
  PE_int_steps(2) reports_PAM_CHECK_ret reports_done

lemma close_std_views [simp]:
  "view heard (trace (close_std s)) = view heard (trace s)"
  "view credential (trace (close_std s)) = view credential (trace s)"
  "view pam_put (trace (close_std s)) = view pam_put (trace s)"
  by (simp_all add: close_std_def)

lemma follows_start:
  "view f (trace s') = view f (trace s) \<Longrightarrow> follows f L s' m \<Longrightarrow> follows f L s m"
  by (simp add: follows_def)

lemma reports_start:
  "view heard (trace s') = view heard (trace s) \<Longrightarrow> reports q y s' m \<Longrightarrow> reports q y s m"
  by (simp add: reports_def)

lemma open_tty_reports: "reports q y s (open_tty os co y tty s)"
proof -
  have close: "reports q y t (andThen (insist y b msg (close_std t)) g)" if "\<And>u. reports q y u (g u)" for t :: "'a world_scheme" and b msg g
    by (rule reports_start [of "close_std t"]) (simp, intro reports_andThen reports_insist that)
  have "reports q y (emit_sys Hup_ignored s) (open_tty os co y tty s)"
    unfolding open_tty_def Let_def by (intro close reports_option reports_andThen report_steps)
  then show ?thesis by (rule reports_start [rotated]) simp
qed

lemma pam_auth_reports:
  assumes "q \<Longrightarrow> quiet_talk (ch_pam_authenticate co) \<and> quiet_talk (ch_pam_setcred co) \<and> quiet_talk (ch_pam_open_session co)"
  shows "reports q y s (pam_auth os co y vtnr s)"
  unfolding pam_auth_def Let_def
  using assms by (intro reports_andThen reports_bind report_steps pam_step_reports) simp_all

lemma follows_option:
  "follows f [] s a \<Longrightarrow> (\<And>x. c = Some x \<Longrightarrow> follows f [] s (b x)) \<Longrightarrow>
   follows f [] s (case c of None \<Rightarrow> a | Some x \<Rightarrow> b x)"
  by (cases c) simp_all

text \<open>Opening the terminal neither changes who the process is nor what it puts into the environment.\<close>

lemma open_tty_silent:
  "follows credential [] s (open_tty os co y tty s)" "follows pam_put [] s (open_tty os co y tty s)"
proof -
  have close: "follows credential [] t (insist y b msg (close_std t))" "follows pam_put [] t (insist y b msg (close_std t))"
    for t :: "'a world_scheme" and b msg
    by (rule follows_start [of _ "close_std t"]; simp add: silent_steps)+
  have "follows credential [] (emit_sys Hup_ignored s) (open_tty os co y tty s)"
    unfolding open_tty_def Let_def
    by (intro close follows_option follows_andThen_Nil silent_steps follows_perform_silent credential.simps)
  then show "follows credential [] s (open_tty os co y tty s)" by (rule follows_start [rotated]) simp
  have "follows pam_put [] (emit_sys Hup_ignored s) (open_tty os co y tty s)"
    unfolding open_tty_def Let_def
    by (intro close follows_option follows_andThen_Nil silent_steps follows_perform_silent pam_put.simps)
  then show "follows pam_put [] s (open_tty os co y tty s)" by (rule follows_start [rotated]) simp
qed

text \<open>The steps by which the child becomes the user, in their order.\<close>

definition become_user :: "spawn_try \<Rightarrow> passwd \<Rightarrow> sys_op list" where
  "become_user y pwd = [Pam_authenticated, Pam_established, Pam_opened,
     Initgroups (usr y) (pw_gid pwd), Setgid (pw_gid pwd), Setuid (pw_uid pwd)]"

lemma pam_auth_credentials:
  assumes "getpwnam os (usr y) = Some pwd"
  shows "follows credential (become_user y pwd) s (pam_auth os co y vtnr s)"
  unfolding pam_auth_def Let_def become_user_def assms deref_Some bindR_Inr
  by ((rule follows_bind(2) | rule follows_andThen_Nil, (rule silent_steps PAM_CHECK_start
        | rule follows_perform_silent, rule credential.simps)
      | rule follows_andThen_Cons, (rule pam_step_said, rule credential.simps
        | rule follows_perform_said, rule credential.simps)
      | rule follows_perform_silent, rule credential.simps)+)

text \<open>What the session finds in its environment.\<close>

definition session_env :: "passwd \<Rightarrow> string \<Rightarrow> string option \<Rightarrow> string option \<Rightarrow> int \<Rightarrow> string list" where
  "session_env pwd seat desktop type vtnr =
     [env_def ''HOME'' (pw_dir pwd), env_def ''PWD'' (pw_dir pwd), env_def ''SHELL'' (pw_shell pwd),
      env_def ''USER'' (pw_name pwd), env_def ''LOGNAME'' (pw_name pwd), env_def ''XDG_SEAT'' seat] @
     (case desktop of None \<Rightarrow> [] | Some d \<Rightarrow> [env_def ''XDG_SESSION_DESKTOP'' d]) @
     (case type of None \<Rightarrow> [] | Some t \<Rightarrow> [env_def ''XDG_SESSION_TYPE'' t]) @
     [env_def ''XDG_VTNR'' (show_int vtnr)]"

lemma pam_auth_environment:
  assumes "getpwnam os (usr y) = Some pwd"
    and "settings y = \<lparr>session_type = Val type, session_desktop = Val desktop, session_seat = Val (Some seat)\<rparr>"
  shows "follows pam_put (session_env pwd seat desktop type vtnr) s (pam_auth os co y vtnr s)"
proof -
  have app: "follows pam_put (L @ L') s (andThen m g)"
    if "follows pam_put L s m" "\<And>t. follows pam_put L' t (g t)" for L L' and s :: "'a world_scheme" and m g
    using that by (rule follows_andThen)
  show ?thesis
    unfolding pam_auth_def Let_def session_env_def assms deref_Some bindR_Inr append_Cons append_Nil
      xdg_settings.select_convs read_cell.simps
    by (rule follows_andThen_Nil, rule PAM_CHECK_start,
        (rule follows_andThen_Cons, rule PE_Some)+,
        (rule app, rule PE_if_set_put)+,
        rule follows_andThen_Cons, rule PE_int_steps,
        (rule follows_andThen_Nil, (rule silent_steps | rule pam_step_put, rule pam_put.simps
          | rule follows_perform_silent, rule pam_put.simps))+,
        rule follows_perform_silent, rule pam_put.simps)
qed

subsection \<open>The child as a whole\<close>

lemma fold_emit_trace: "trace (fold (\<lambda>x. emit (g x)) xs s) = trace s @ map g xs"
  by (induction xs arbitrary: s) simp_all

lemma fold_emit_more: "world.more (manager_fork_eval s) = world.more s"
proof -
  have "world.more (fold (\<lambda>x. emit (g x)) xs u) = world.more u" for g :: "'c \<Rightarrow> effect" and xs and u :: "'b world_scheme"
    by (induction xs arbitrary: u) simp_all
  then show ?thesis by (simp add: manager_fork_eval_def)
qed

lemma more_tty_counter:
  fixes u v :: "'a spawner_scheme"
  shows "world.more u = world.more v \<Longrightarrow> tty_counter u = tty_counter v"
  by (cases u; cases v) simp

lemma view_silent: "(\<And>x. f (g x) = None) \<Longrightarrow> view f (map g xs) = []"
  by (induction xs) simp_all

lemma manager_fork_eval_views [simp]:
  "view heard (trace (manager_fork_eval s)) = view heard (trace s)"
  "view credential (trace (manager_fork_eval s)) = view credential (trace s)"
  "view pam_put (trace (manager_fork_eval s)) = view pam_put (trace s)"
  by (simp_all add: manager_fork_eval_def fold_emit_trace view_silent)

lemma andThenE:
  assumes "andThen m g = Inr (ok, t)"
  obtains "m = Inr (False, t)" "\<not> ok" | u where "m = Inr (True, u)" "g u = Inr (ok, t)"
  using assms by (auto simp: andThen_def elim!: bindR_InrE split: if_splits)

text \<open>Opening the terminal changes nothing of the daemon's state but the trace.\<close>

definition frames :: "'a world_scheme \<Rightarrow> (bool \<times> 'a world_scheme) res \<Rightarrow> bool" where
  "frames s m \<longleftrightarrow> (\<forall>ok t. m = Inr (ok, t) \<longrightarrow> world.more t = world.more s)"

lemma frames_steps:
  "frames s (insist y ok msg s)" "frames s (give_up y msg s)" "frames s (perform p s)"
  "frames s (control_tty co y k fd s)" "frames s (insist y ok msg (close_std s))"
  by (auto simp: frames_def insist_def give_up_def perform_def control_tty_def Let_def close_std_def
      service_com_exit_def service_message_def)

lemma frames_andThen:
  assumes "frames s m" and "\<And>t. frames t (g t)"
  shows "frames s (andThen m g)"
  unfolding frames_def
proof (intro allI impI)
  fix ok t
  assume "andThen m g = Inr (ok, t)"
  then show "world.more t = world.more s"
  proof (cases rule: andThenE)
    case 1
    with assms(1) show ?thesis unfolding frames_def by blast
  next
    case (2 u)
    with assms(1) have "world.more u = world.more s" unfolding frames_def by blast
    moreover have "world.more t = world.more u" using 2 assms(2) [of u] unfolding frames_def by blast
    ultimately show ?thesis by simp
  qed
qed

lemma frames_option:
  "frames s a \<Longrightarrow> (\<And>x. c = Some x \<Longrightarrow> frames s (b x)) \<Longrightarrow> frames s (case c of None \<Rightarrow> a | Some x \<Rightarrow> b x)"
  by (cases c) simp_all

lemma open_tty_frames:
  assumes "open_tty os co y tty s = Inr (ok, t)"
  shows "world.more t = world.more s"
proof -
  have "frames (emit_sys Hup_ignored s) (open_tty os co y tty s)"
    unfolding open_tty_def Let_def by (intro frames_option frames_andThen frames_steps)
  with assms show ?thesis by (simp add: frames_def)
qed

text \<open>The end of \<open>child_setup\<close>: the environment is replaced and the session looked up.\<close>

definition setup_tail ::
  "os \<Rightarrow> 'b child_os_scheme \<Rightarrow> spawn_try \<Rightarrow> 'a world_scheme \<Rightarrow> (bool \<times> 'a world_scheme) res" where
  "setup_tail os co y s =
     bindR (deref (ch_pam_getenvlist co (pam_env (trace s))) Null_Deref)
       (\<lambda>env. let s1 = fold (\<lambda>e. emit_sys (Putenv e)) env (emit_sys Clearenv s);
                  s2 = emit_sys (Set_default_env ''TERM'' ''linux'') s1
              in case current_session_get os co of
                   None \<Rightarrow> give_up y ''session is not valid'' s2
                 | Some session \<Rightarrow> Inr (True, service_message y SETUP_DONE None s2))"

definition setup_start :: "spawn_try \<Rightarrow> 'a spawner_scheme \<Rightarrow> 'a spawner_scheme" where
  "setup_start y s = service_message y CONNECT None (emit (Closed (com_read y)) (emit_sys Setsid (manager_fork_eval s)))"

lemma child_setup_parts:
  assumes "child_setup os co y tty s = Inr (ok, t)"
  obtains (tty) "\<not> ok" "open_tty os co y tty (close_std (setup_start y s)) = Inr (False, t)"
  | (pam) u where "\<not> ok" "open_tty os co y tty (close_std (setup_start y s)) = Inr (True, u)"
      "pam_auth os co y (tty_counter u) u = Inr (False, t)"
  | (tail) u v where "open_tty os co y tty (close_std (setup_start y s)) = Inr (True, u)"
      "pam_auth os co y (tty_counter u) u = Inr (True, v)" "setup_tail os co y v = Inr (ok, t)"
proof -
  have "child_setup os co y tty s = andThen (open_tty os co y tty (close_std (setup_start y s)))
      (\<lambda>u. andThen (pam_auth os co y (tty_counter u) u) (setup_tail os co y))"
    by (simp add: child_setup_def setup_tail_def [abs_def] setup_start_def Let_def)
  with assms have "andThen (open_tty os co y tty (close_std (setup_start y s)))
      (\<lambda>u. andThen (pam_auth os co y (tty_counter u) u) (setup_tail os co y)) = Inr (ok, t)" by simp
  then show thesis
  proof (cases rule: andThenE)
    case 1
    then show thesis by (intro tty)
  next
    case (2 u)
    from 2(2) show thesis
    proof (cases rule: andThenE)
      case 1
      with 2 show thesis by (intro pam)
    next
      case (2 v)
      with \<open>open_tty os co y tty (close_std (setup_start y s)) = Inr (True, u)\<close> show thesis by (intro tail)
    qed
  qed
qed

lemma setup_tail_effect:
  assumes "setup_tail os co y v = Inr (ok, t)"
  shows "\<exists>env. ch_pam_getenvlist co (pam_env (trace v)) = Some env \<and>
    trace t = trace v @ [Sys Clearenv] @ map (\<lambda>e. Sys (Putenv e)) env @
      [Sys (Set_default_env ''TERM'' ''linux''),
       Service_message (com_write y) \<lparr>sp_type = if ok then SETUP_DONE else ERROR_EXIT,
         sp_exit = if ok then None else Some ''session is not valid''\<rparr>]"
  using assms
  by (auto simp: setup_tail_def Let_def fold_emit_trace give_up_def service_com_exit_def service_message_def deref_eq_Inr
      elim!: bindR_InrE split: option.splits)

lemma child_setup_credentials:
  assumes "child_setup os co y tty s = Inr (True, t)"
  shows "\<exists>pwd. getpwnam os (usr y) = Some pwd \<and>
    view credential (trace t) = view credential (trace s) @ become_user y pwd"
  using assms
proof (cases rule: child_setup_parts)
  case (tail u v)
  obtain pwd where pwd: "getpwnam os (usr y) = Some pwd"
    using tail(1) by (cases "getpwnam os (usr y)") (auto simp: open_tty_def Let_def give_up_def)
  have "view credential (trace u) = view credential (trace s)"
    using followsD [OF open_tty_silent(1) tail(1)] by (simp add: setup_start_def)
  moreover have "view credential (trace v) = view credential (trace u) @ become_user y pwd"
    by (rule followsD [OF pam_auth_credentials [OF pwd] tail(2)])
  moreover obtain env where "trace t = trace v @ [Sys Clearenv] @ map (\<lambda>e. Sys (Putenv e)) env @
      [Sys (Set_default_env ''TERM'' ''linux''), Service_message (com_write y) \<lparr>sp_type = SETUP_DONE, sp_exit = None\<rparr>]"
    using setup_tail_effect [OF tail(3)] by auto
  ultimately show ?thesis using pwd by (simp add: view_silent)
qed simp_all

text \<open>Everything the child tells the daemon until its session is set up, with the reasons.\<close>

definition said :: "spawn_try \<Rightarrow> spawn_message_type \<Rightarrow> int \<times> spawn_message" where
  "said y ty = (com_write y, \<lparr>sp_type = ty, sp_exit = None\<rparr>)"

definition quiet_pam :: "'b child_os_scheme \<Rightarrow> bool" where
  "quiet_pam co \<longleftrightarrow> quiet_talk (ch_pam_authenticate co) \<and> quiet_talk (ch_pam_setcred co) \<and>
     quiet_talk (ch_pam_open_session co)"

lemma child_setup_says:
  assumes "child_setup os co y tty s = Inr (ok, t)"
  shows "\<exists>texts. view heard (trace t) = view heard (trace s) @
      said y CONNECT # map (reason y) texts @ (if ok then [said y SETUP_DONE] else []) \<and> (\<not> ok \<longrightarrow> texts \<noteq> []) \<and>
    (quiet_pam co \<longrightarrow> length texts = (if ok then 0 else 1))"
proof -
  let ?q = "quiet_pam co"
  let ?s0 = "close_std (setup_start y s)"
  have s0: "view heard (trace ?s0) = view heard (trace s) @ [said y CONNECT]" by (simp add: setup_start_def said_def)
  have auth: "reports ?q y u (pam_auth os co y v u)" for v u
    by (rule pam_auth_reports) (simp add: quiet_pam_def)
  from assms show ?thesis
  proof (cases rule: child_setup_parts)
    case tty
    with reportsD [OF open_tty_reports [of ?q] tty(2)] s0 show ?thesis by auto
  next
    case (pam u)
    from reportsD [OF open_tty_reports [of ?q] pam(2)] obtain xs where
      "view heard (trace u) = view heard (trace ?s0) @ map (reason y) xs" "?q \<longrightarrow> xs = []" by auto
    moreover from reportsD [OF auth pam(3)] obtain ys where
      "view heard (trace t) = view heard (trace u) @ map (reason y) ys" "ys \<noteq> []" "?q \<longrightarrow> length ys = 1" by auto
    ultimately show ?thesis using s0 pam(1) by (intro exI [of _ "xs @ ys"]) auto
  next
    case (tail u v)
    from reportsD [OF open_tty_reports [of ?q] tail(1)] obtain xs where
      "view heard (trace u) = view heard (trace ?s0) @ map (reason y) xs" "?q \<longrightarrow> xs = []" by auto
    moreover from reportsD [OF auth tail(2)] obtain ys where
      "view heard (trace v) = view heard (trace u) @ map (reason y) ys" "?q \<longrightarrow> ys = []" by auto
    moreover from setup_tail_effect [OF tail(3)] have "view heard (trace t) = view heard (trace v) @
        [if ok then said y SETUP_DONE else reason y ''session is not valid'']"
      by (auto simp: view_silent said_def reason_def)
    ultimately show ?thesis using s0
      by (intro exI [of _ "xs @ ys @ (if ok then [] else [''session is not valid''])"]) auto
  qed
qed

lemma run_job_replaced:
  assumes "run_job os co jb s = Inr (Replaced, t)"
  shows "\<exists>path argv. trace t = trace s @ [Sys (Exec path argv)]"
  using assms
  by (auto simp: run_job_def greeter_job_def session_job_def fire_up_def tty_fire_up_def x11_fire_up_def wl_fire_up_def
      execl_def Let_def elim!: bindR_InrE split: job_fn.splits fire_up.splits option.splits prod.splits if_splits proc_end.splits)

lemma getuid_become_user:
  assumes "view credential tr = view credential tr0 @ become_user y pwd"
  shows "getuid tr = pw_uid pwd"
  by (simp add: getuid_view assms become_user_def)

subsection \<open>Properties\<close>

text \<open>C2: A session runs as its user: when a child has turned itself into another program, it has before, in
  this order and completely, been authenticated, given credentials and a session by PAM and taken on
  the user's groups, group and identity, and the user it runs as is the one it was started for.\<close>

theorem session_runs_as_user:
  assumes "child_main os co argv n tty s = Some (Inr (Replaced, t))"
  shows "\<exists>y pwd tr path args. tries s n = Some y \<and> getpwnam os (usr y) = Some pwd \<and>
    trace t = tr @ [Sys (Exec path args)] \<and>
    view credential tr = view credential (trace s) @ become_user y pwd \<and> getuid tr = pw_uid pwd"
proof -
  obtain y where y: "tries s n = Some y" using assms by (auto simp: child_main_def split: option.splits)
  then obtain u where u: "child_setup os co y tty s = Inr (True, u)"
    and f: "session_proc_fire_up os co argv y (emit (Closed (com_write y)) (service_message y SESSION_ACTIVE None u))
       = Inr (Replaced, t)" (is "session_proc_fire_up _ _ _ _ ?u = _")
    using assms by (auto simp: child_main_def Option.bind_eq_Some_conv Let_def split: sum.splits bool.splits prod.splits)
  obtain pwd where pwd: "getpwnam os (usr y) = Some pwd"
    and c: "view credential (trace u) = view credential (trace s) @ become_user y pwd"
    using child_setup_credentials [OF u] by blast
  from f have "run_job os co (job y) (?u\<lparr>nforks := Suc (nforks ?u)\<rparr>) = Inr (Replaced, t)"
    by (auto simp: session_proc_fire_up_def Let_def split: if_splits elim!: bindR_InrE)
  from run_job_replaced [OF this] obtain path args where tr: "trace t = trace ?u @ [Sys (Exec path args)]" by auto
  have "view credential (trace ?u) = view credential (trace s) @ become_user y pwd" by (simp add: c)
  with y pwd tr getuid_become_user show ?thesis by blast
qed

definition starting_bob :: daemon where
  "starting_bob = tty_registered\<lparr>tty_counter := 11, tries := [0 \<mapsto>
     \<lparr>com_read = 7, com_write = 8, job = Session_job ''t0'', session_ended = Some Reexecute_greeter,
      done_cb = Some Session_done, done_data = Client_ref 0, service = SP_PAM_SERVICE, usr = ''bob'',
      pw = Some ''secret'', st_session = None, error_msg = None, exit_success = SPAWN_SERVICE_ERROR,
      try_pid = 0, settings = \<lparr>session_type = Val (Some ''tty''), session_desktop = Val (Some ''tty''),
        session_seat = Val (Some ''seat0'')\<rparr>\<rparr>]\<rparr>"

definition bobs_try :: spawn_try where
  "bobs_try = the (tries starting_bob 0)"

text \<open>A system on which everything succeeds; PAM asks for the password and accepts \<open>secret\<close>.\<close>

definition ask_password :: pam_talk where
  "ask_password = Pam_ask [\<lparr>pm_style = PAM_PROMPT_ECHO_OFF, pm_msg = ''Password: ''\<rparr>]
     (\<lambda>resp. Pam_result (if resp = [Some ''secret''] then PAM_SUCCESS else PAM_AUTH_ERR))"

definition example_child_os :: "pam_talk \<Rightarrow> child_os" where
  "example_child_os talk =
     \<lparr>so_listen_fds = 0, so_socket = 3, so_bind = True, so_listen = True, so_chmod = True,
      so_connect = (\<lambda>_. True), so_readable = (\<lambda>_ _. True), so_mkdir = (\<lambda>_ _. True),
      co_write = (\<lambda>_ _ _. True), co_read = (\<lambda>_ _. Closed_by_peer),
      ch_getpid = 100, ch_tty_group = Some 5, ch_open = (\<lambda>_. 0), ch_isatty = (\<lambda>_. True),
      ch_tcgetsid = (\<lambda>_. -1), ch_set_ctty = (\<lambda>_. True), ch_dup = (\<lambda>k. if even k then 1 else 2),
      ch_vhangup = True, ch_tcsetpgrp = True, ch_chown = True, ch_chmod = True,
      ch_pam_start = (\<lambda>_ _. PAM_SUCCESS), ch_pam_putenv = (\<lambda>_. PAM_SUCCESS),
      ch_pam_authenticate = talk, ch_pam_setcred = Pam_result PAM_SUCCESS,
      ch_pam_open_session = Pam_result PAM_SUCCESS, ch_pam_getenvlist = Some,
      ch_chdir = True, ch_initgroups = True, ch_setgid = True, ch_setuid = True,
      ch_is_active = (\<lambda>k. if k < 3 then 0 else 1), ch_readable = (\<lambda>_. True), ch_execl = (\<lambda>_. True),
      ch_greeter = ''/usr/lib/spawny/greeter'', ch_greeter_fallback = ''/usr/lib/spawny/sp-fallback-greeter''\<rparr>"

definition forked_os :: os where
  "forked_os = (example_os Malformed)\<lparr>os_fork := \<lambda>_. 0\<rparr>"

lemma session_runs_as_user_witness:
  "\<exists>t tr path args. child_main forked_os (example_child_os ask_password) [''sp-daemon''] 0 ''/dev/tty11'' starting_bob
      = Some (Inr (Replaced, t)) \<and> trace t = tr @ [Sys (Exec path args)] \<and> getuid tr = 1000"
proof -
  have "case child_main forked_os (example_child_os ask_password) [''sp-daemon''] 0 ''/dev/tty11'' starting_bob of
      Some (Inr (Replaced, t)) \<Rightarrow> True | _ \<Rightarrow> False" by code_simp
  then obtain t where t: "child_main forked_os (example_child_os ask_password) [''sp-daemon''] 0 ''/dev/tty11'' starting_bob
      = Some (Inr (Replaced, t))" by (auto split: option.splits sum.splits prod.splits proc_end.splits)
  moreover have "getpwnam forked_os (usr bobs_try) = Some bob" "tries starting_bob 0 = Some bobs_try" "pw_uid bob = 1000"
    by (simp_all add: forked_os_def example_os_def bobs_try_def starting_bob_def bob_def)
  ultimately show ?thesis using session_runs_as_user [OF t] by auto
qed

text \<open>C21: The session finds its home, user, seat and terminal in the environment: whatever PAM's list adds,
  as long as it contains what was put into it, every definition of the code arrives in full, with the
  number of the terminal that was chosen for it.\<close>

theorem session_environment:
  assumes "child_setup os co y tty s = Inr (True, t)" and "getpwnam os (usr y) = Some pwd"
    and "settings y = \<lparr>session_type = Val type, session_desktop = Val desktop, session_seat = Val (Some seat)\<rparr>"
    and "\<And>puts env. ch_pam_getenvlist co puts = Some env \<Longrightarrow> set puts \<subseteq> set env"
  shows "\<exists>env. set (session_env pwd seat desktop type (tty_counter s)) \<subseteq> set env \<and>
    trace t = take (length (trace t) - length env - 3) (trace t) @ [Sys Clearenv] @ map (\<lambda>e. Sys (Putenv e)) env @
      [Sys (Set_default_env ''TERM'' ''linux''), Service_message (com_write y) \<lparr>sp_type = SETUP_DONE, sp_exit = None\<rparr>]"
  using assms(1)
proof (cases rule: child_setup_parts)
  case (tail u v)
  obtain env where env: "ch_pam_getenvlist co (pam_env (trace v)) = Some env"
    and tr: "trace t = trace v @ [Sys Clearenv] @ map (\<lambda>e. Sys (Putenv e)) env @
      [Sys (Set_default_env ''TERM'' ''linux''), Service_message (com_write y) \<lparr>sp_type = SETUP_DONE, sp_exit = None\<rparr>]"
    using setup_tail_effect [OF tail(3)] by auto
  have "world.more u = world.more s"
    using open_tty_frames [OF tail(1)] by (simp add: close_std_def setup_start_def service_message_def fold_emit_more)
  then have vt: "tty_counter u = tty_counter s" by (rule more_tty_counter)
  have "view pam_put (trace v) = view pam_put (trace u) @ session_env pwd seat desktop type (tty_counter u)"
    by (rule followsD [OF pam_auth_environment [OF assms(2,3)] tail(2)])
  then have "set (session_env pwd seat desktop type (tty_counter s)) \<subseteq> set (pam_env (trace v))"
    by (simp add: pam_env_view vt)
  also have "\<dots> \<subseteq> set env" using env by (rule assms(4))
  finally show ?thesis using tr by (intro exI [of _ env]) auto
qed simp_all

lemma session_environment_witness:
  "\<exists>t env. child_setup forked_os (example_child_os ask_password) bobs_try ''/dev/tty11'' starting_bob = Inr (True, t) \<and>
     {''HOME=/home/bob'', ''USER=bob'', ''XDG_SEAT=seat0'', ''XDG_VTNR=11''} \<subseteq> set env \<and>
     (\<forall>e \<in> set env. Sys (Putenv e) \<in> set (trace t))"
proof -
  let ?co = "example_child_os ask_password"
  have "case child_setup forked_os ?co bobs_try ''/dev/tty11'' starting_bob of Inr (True, t) \<Rightarrow> True | _ \<Rightarrow> False"
    by code_simp
  then obtain t where t: "child_setup forked_os ?co bobs_try ''/dev/tty11'' starting_bob = Inr (True, t)"
    by (auto split: sum.splits prod.splits bool.splits)
  have pwd: "getpwnam forked_os (usr bobs_try) = Some bob"
    by (simp add: forked_os_def example_os_def bobs_try_def starting_bob_def)
  have sett: "settings bobs_try = \<lparr>session_type = Val (Some ''tty''), session_desktop = Val (Some ''tty''),
      session_seat = Val (Some ''seat0'')\<rparr>"
    by (simp add: bobs_try_def starting_bob_def)
  have "set puts \<subseteq> set env" if "ch_pam_getenvlist ?co puts = Some env" for puts env
    using that by (simp add: example_child_os_def)
  from session_environment [OF t pwd sett this] obtain env where
    sub: "set (session_env bob ''seat0'' (Some ''tty'') (Some ''tty'') (tty_counter starting_bob)) \<subseteq> set env"
    and tr: "trace t = take (length (trace t) - length env - 3) (trace t) @ [Sys Clearenv] @ map (\<lambda>e. Sys (Putenv e)) env @
      [Sys (Set_default_env ''TERM'' ''linux''), Service_message (com_write bobs_try) \<lparr>sp_type = SETUP_DONE, sp_exit = None\<rparr>]"
    by blast
  have "\<forall>e \<in> set env. Sys (Putenv e) \<in> set (trace t)" by (subst tr) auto
  moreover have "{''HOME=/home/bob'', ''USER=bob'', ''XDG_SEAT=seat0'', ''XDG_VTNR=11''} \<subseteq> set env"
  proof -
    have "tty_counter starting_bob = 11" by (simp add: starting_bob_def)
    moreover have "show_int 11 = ''11''" by code_simp
    ultimately show ?thesis using sub by (simp add: session_env_def env_def_def bob_def)
  qed
  ultimately show ?thesis using t by blast
qed

text \<open>A PAM module that puts two messages into one conversation makes the child read behind the pointer it
  was given; only conversations of at most one message are answered.\<close>

theorem pam_conv_one_message:
  "(\<exists>r. pam_conv y msgs s = Inr r) \<longleftrightarrow> length msgs \<le> 1"
proof (cases msgs)
  case (Cons m ms)
  then show ?thesis
    by (cases ms; cases "pm_style m") (simp_all add: pam_conv_def)
qed (simp add: pam_conv_def)

text \<open>The wait ends with the first answer of logind that is not 0; without one it never does.\<close>

lemma wait_session_active_answer:
  "wait_session_active co n = (if \<exists>k \<ge> n. ch_is_active co k \<noteq> 0 then Some (LEAST k. n \<le> k \<and> ch_is_active co k \<noteq> 0) else None)"
proof (cases "\<exists>k \<ge> n. ch_is_active co k \<noteq> 0")
  case True
  define k where "k = (LEAST k. n \<le> k \<and> ch_is_active co k \<noteq> 0)"
  have k: "n \<le> k \<and> ch_is_active co k \<noteq> 0" and least: "\<And>j. n \<le> j \<Longrightarrow> j < k \<Longrightarrow> ch_is_active co j = 0"
    unfolding k_def using LeastI_ex [of "\<lambda>k. n \<le> k \<and> ch_is_active co k \<noteq> 0"] True not_less_Least by auto
  from k least have "wait_session_active co n = Some k"
  proof (induction "k - n" arbitrary: n)
    case 0
    then show ?case by (auto simp: wait_session_active.simps [of co k])
  next
    case (Suc d)
    then have "wait_session_active co (Suc n) = Some k" by (intro Suc.hyps(1)) auto
    moreover have "ch_is_active co n = 0" using Suc by (intro Suc.prems(2)) auto
    ultimately show ?case by (simp add: wait_session_active.simps [of co n])
  qed
  with True k_def show ?thesis by simp
next
  case False
  have "wait_session_active co n \<noteq> Some k" for k
  proof
    assume ret: "wait_session_active co n = Some k"
    have "n \<le> k \<and> ch_is_active co k \<noteq> 0"
    proof (rule wait_session_active.raw_induct [where P = "\<lambda>co n k. n \<le> k \<and> ch_is_active co k \<noteq> 0", OF _ ret])
      fix f n k and co :: "'b child_os_scheme"
      assume "\<And>co n k. f co n = Some k \<Longrightarrow> n \<le> k \<and> ch_is_active co k \<noteq> 0"
        and "(if ch_is_active co n = 0 then f co (Suc n) else Some n) = Some k"
      then show "n \<le> k \<and> ch_is_active co k \<noteq> 0" by (auto split: if_splits dest: Suc_leD)
    qed
    with False show False by blast
  qed
  with False show ?thesis by (cases "wait_session_active co n") auto
qed

text \<open>C32: The wait for the session to become active ends exactly if logind ever answers something else than
  "not active", and at the first such answer; otherwise it never returns. An error is such an answer: the wait
  ends with an error, and the session goes on without being active, exactly if an error comes before the
  first answer "active". The header \<open>sessionmgt.h\<close> promises to block until the session is activated.\<close>

theorem wait_session_active_returns:
  "wait_session_active co n = (if \<exists>k \<ge> n. ch_is_active co k \<noteq> 0 then Some (LEAST k. n \<le> k \<and> ch_is_active co k \<noteq> 0) else None) \<and>
   ((\<exists>k. wait_session_active co n = Some k \<and> ch_is_active co k < 0) \<longleftrightarrow>
    (\<exists>k \<ge> n. ch_is_active co k < 0 \<and> \<not> (\<exists>j. n \<le> j \<and> j < k \<and> 0 < ch_is_active co j)))"
proof (rule conjI [OF wait_session_active_answer iffI])
  let ?a = "ch_is_active co"
  let ?L = "LEAST k. n \<le> k \<and> ?a k \<noteq> 0"
  have first: "?a j = 0" if "n \<le> j" "j < ?L" for j using that not_less_Least by blast
  {
    assume "\<exists>k. wait_session_active co n = Some k \<and> ?a k < 0"
    then have ex: "\<exists>k. n \<le> k \<and> ?a k \<noteq> 0" and neg: "?a ?L < 0"
      by (auto simp: wait_session_active_answer split: if_splits)
    with LeastI_ex [OF ex] first show "\<exists>k \<ge> n. ?a k < 0 \<and> \<not> (\<exists>j. n \<le> j \<and> j < k \<and> 0 < ?a j)"
      by (metis less_irrefl)
  next
    assume "\<exists>k \<ge> n. ?a k < 0 \<and> \<not> (\<exists>j. n \<le> j \<and> j < k \<and> 0 < ?a j)"
    then obtain k where k: "n \<le> k" "?a k < 0" "\<not> (\<exists>j. n \<le> j \<and> j < k \<and> 0 < ?a j)" by blast
    then have ex: "\<exists>k. n \<le> k \<and> ?a k \<noteq> 0" by fastforce
    have "?L \<le> k" using k by (intro Least_le) simp
    with LeastI_ex [OF ex] k have "?a ?L < 0" by (metis linorder_neqE_linordered_idom le_neq_implies_less)
    with ex show "\<exists>k. wait_session_active co n = Some k \<and> ?a k < 0" by (simp add: wait_session_active_answer)
  }
qed

lemma wait_session_active_returns_witness:
  "let co = (example_child_os ask_password)\<lparr>ch_is_active := \<lambda>k. if k < 2 then 0 else -2\<rparr>
   in wait_session_active co 0 = Some 2 \<and>
     (\<exists>t. child_main forked_os co [''sp-daemon''] 0 ''/dev/tty11'' starting_bob = Some (Inr (Replaced, t)))"
proof -
  let ?co = "(example_child_os ask_password)\<lparr>ch_is_active := \<lambda>k. if k < 2 then 0 else -2\<rparr>"
  have a: "ch_is_active ?co k = (if k < 2 then 0 else -2)" for k by simp
  have "(LEAST k. (0::nat) \<le> k \<and> ch_is_active ?co k \<noteq> 0) = 2" by (rule Least_equality) (simp_all split: if_splits)
  moreover have "\<exists>k \<ge> 0. ch_is_active ?co k \<noteq> 0" by (rule exI [of _ 2]) simp
  ultimately have "wait_session_active ?co 0 = Some 2"
    using conjunct1 [OF wait_session_active_returns [of ?co 0]] by simp
  moreover have "case child_main forked_os ?co [''sp-daemon''] 0 ''/dev/tty11'' starting_bob of
      Some (Inr (Replaced, t)) \<Rightarrow> True | _ \<Rightarrow> False" by code_simp
  ultimately show ?thesis by (auto simp: Let_def split: option.splits sum.splits prod.splits proc_end.splits)
qed

text \<open>C38: A text that PAM merely wants to show ends the login, although PAM goes on to accept it: the child sends
  the text as \<open>ERROR_EXIT\<close> and carries on, and the daemon, on reading this, stops listening to the
  child, so that nothing it says later (\<open>SETUP_DONE\<close>, \<open>SESSION_ACTIVE\<close>) is ever read.\<close>

theorem pam_text_ends_login:
  assumes "tries s u = Some y" and "pm_style m = PAM_TEXT_INFO"
    and "recv_child os (nreads s) = Message \<lparr>sp_type = ERROR_EXIT, sp_exit = Some (pm_msg m)\<rparr>"
  shows "pam_call y (Pam_ask [m] (\<lambda>_. Pam_result PAM_SUCCESS)) w =
      Inr (PAM_SUCCESS, emit (Service_message (com_write y) \<lparr>sp_type = ERROR_EXIT, sp_exit = Some (pm_msg m)\<rparr>) w) \<and>
    (\<exists>t. child_data os run_done (Try_ref u) fd s = Inr t \<and> (\<forall>cb d. (com_read y, cb, d) \<notin> set (live t)) \<and>
       tries t u = Some (y\<lparr>error_msg := Some (pm_msg m)\<rparr>))"
proof -
  let ?s1 = "s\<lparr>nreads := Suc (nreads s)\<rparr>"
  let ?t = "upd_try u (\<lambda>y. y\<lparr>error_msg := Some (pm_msg m)\<rparr>) (manager_unregister_fd (com_read y) ?s1)"
  have "pam_call y (Pam_ask [m] (\<lambda>_. Pam_result PAM_SUCCESS)) w =
      Inr (PAM_SUCCESS, emit (Service_message (com_write y) \<lparr>sp_type = ERROR_EXIT, sp_exit = Some (pm_msg m)\<rparr>) w)"
    using assms(2) by (simp add: pam_conv_def service_com_exit_def service_message_def)
  moreover have "child_data os run_done (Try_ref u) fd s = Inr ?t"
    using assms(1,3) by (simp add: child_data_def Let_def)
  moreover have "live ?t = live (manager_unregister_fd (com_read y) ?s1)" by (simp add: live_def upd_try_def)
  then have "\<forall>cb d. (com_read y, cb, d) \<notin> set (live ?t)" by (simp add: live_unregister)
  moreover have "tries ?t u = Some (y\<lparr>error_msg := Some (pm_msg m)\<rparr>)"
    using assms(1) by (simp add: upd_try_def)
  ultimately show ?thesis by blast
qed

lemma pam_text_ends_login_witness:
  "\<exists>t. child_data ((example_os Malformed)\<lparr>recv_child := \<lambda>_. Message \<lparr>sp_type = ERROR_EXIT,
       sp_exit = Some ''Your password expires soon''\<rparr>\<rparr>) (\<lambda>_ _ _. Inr) (Try_ref 0) 7 starting_bob = Inr t \<and>
     tries t 0 = Some (bobs_try\<lparr>error_msg := Some ''Your password expires soon''\<rparr>)"
proof -
  let ?m = "\<lparr>pm_style = PAM_TEXT_INFO, pm_msg = ''Your password expires soon''\<rparr>"
  let ?os = "(example_os Malformed)\<lparr>recv_child := \<lambda>_. Message \<lparr>sp_type = ERROR_EXIT, sp_exit = Some (pm_msg ?m)\<rparr>\<rparr>"
  have "tries starting_bob 0 = Some bobs_try" by (simp add: bobs_try_def starting_bob_def)
  moreover have "recv_child ?os (nreads starting_bob) = Message \<lparr>sp_type = ERROR_EXIT, sp_exit = Some (pm_msg ?m)\<rparr>"
    by simp
  ultimately show ?thesis
    using pam_text_ends_login [of starting_bob 0 bobs_try ?m ?os example_world "\<lambda>_ _ _. Inr" 7] by auto
qed

end
