(* ===== verification/Login.thy ===== *)
theory Login
  imports Daemon_Loop Session_Child
begin

section \<open>A login from end to end: the child and the daemon together\<close>

text \<open>
  The child of theory \<open>Session_Child\<close> writes into a pipe, the loop of theory \<open>Daemon_Loop\<close> reads from it:
  what the one writes (\<open>child_messages\<close>) is what the other is given, in as many reads as there are turns in
  which the pipe is ready (\<open>group_reads\<close>), until the last message (\<open>active_read\<close>, \<open>error_read\<close>) or the exit of the
  child (\<open>exit_read\<close>) decides. \<open>steady\<close> says how little the end of a login changes the two arrays that are
  being walked over.
\<close>

subsection \<open>What the end of a login leaves alone\<close>

definition steady :: "'a daemon_scheme \<Rightarrow> 'a daemon_scheme \<Rightarrow> bool" where
  "steady s t \<longleftrightarrow> pending t = pending s \<and> eval_mode t = eval_mode s \<and> readout t = readout s \<and>
     stop t = stop s \<and> (readout s \<longrightarrow> descriptors t = descriptors s)"

lemma steady_trans [trans]: "steady s t \<Longrightarrow> steady t u \<Longrightarrow> steady s u"
  by (simp add: steady_def)

lemma steady_steps:
  "steady s s" "steady s (emit e s)" "steady s (upd_client c f s)" "steady s (manager_unregister_fd fd s)"
  "steady s (s\<lparr>greeters := g\<rparr>)" "steady s (upd_try t tf s)" "steady s (s\<lparr>clients := cs\<rparr>)" "steady s (s\<lparr>nreads := k\<rparr>)"
  "steady s (send_message ty fb data fd s)" "steady s (server_spawnservice_feedback ok msg fd s)"
  by (simp_all add: steady_def descriptors_def emit_def upd_client_def upd_try_def
      send_message_def server_spawnservice_feedback_def)
     (auto simp: manager_unregister_fd_def Let_def clear_objects_def comp_def unset_cb_def if_distrib
      split: option.split cong: if_cong)

lemma steady_client_free: "client_free c s = Inr u \<Longrightarrow> steady s u"
proof -
  assume "client_free c s = Inr u"
  then obtain fd where "u = (emit (Closed fd) (manager_unregister_fd fd s))
      \<lparr>clients := (clients (emit (Closed fd) (manager_unregister_fd fd s)))(c := None)\<rparr>"
    by (auto simp: client_free_def Let_def elim!: bindR_InrE)
  then show ?thesis by (simp only:) (rule steady_trans [OF steady_trans [OF steady_steps(4) steady_steps(2)] steady_steps(7)])
qed

lemma steady_lockout: "greeter_lockout seat s = Inr u \<Longrightarrow> steady s u"
  by (auto simp: greeter_lockout_def elim!: bindR_InrE split: option.splits intro: steady_steps)

lemma steady_session_done:
  assumes "session_done os d e s = Inr u"
  shows "steady s u"
proof -
  from assms obtain c where d: "d = Client_ref c" by (cases d) (simp_all add: session_done_def)
  have said: "steady x (upd_client c f (server_spawnservice_feedback ok m fd x))"
    for x :: "'a daemon_scheme" and f ok m fd
    using steady_steps(10) steady_steps(3) by (rule steady_trans)
  from assms d obtain cl where cl: "get_client c s = Inr cl"
    by (auto simp: session_done_def elim!: bindR_InrE)
  show ?thesis
  proof (cases "end_success e = SPAWN_SERVICE_ERROR")
    case True
    with assms d cl have "u = upd_client c (\<lambda>x. x\<lparr>cl_try := None\<rparr>)
      (server_spawnservice_feedback False (end_message e) (cl_fd cl) s)" by (simp add: session_done_def)
    then show ?thesis using said by simp
  next
    case False
    with assms d cl obtain s1 where s1: "greeter_lockout (seat_get os (cl_pid cl)) s = Inr s1"
      "client_goodbye c (upd_client c (\<lambda>x. x\<lparr>cl_try := None\<rparr>)
        (server_spawnservice_feedback True (Some ''You are logged in!'') (cl_fd cl) s1)) = Inr u"
      by (auto simp: session_done_def elim!: bindR_InrE)
    let ?v = "upd_client c (\<lambda>x. x\<lparr>cl_try := None\<rparr>)
        (server_spawnservice_feedback True (Some ''You are logged in!'') (cl_fd cl) s1)"
    from s1(2) obtain cl' :: client where "client_free c (send_message LEAVE None None (cl_fd cl') ?v) = Inr u"
      by (auto simp: client_goodbye_def elim!: bindR_InrE)
    then have "steady (send_message LEAVE None None (cl_fd cl') ?v) u" by (rule steady_client_free)
    with steady_steps(9) have "steady ?v u" by (rule steady_trans)
    with said have "steady s1 u" by (rule steady_trans)
    with steady_lockout [OF s1(1)] show ?thesis by (rule steady_trans)
  qed
qed

lemma session_done_tries:
  "session_done os d e s = Inr u \<Longrightarrow> tries u = tries s"
  by (auto simp: session_done_def client_goodbye_def client_free_def greeter_lockout_def Let_def frame_simps
      upd_client_def server_spawnservice_feedback_def send_message_def
      elim!: bindR_InrE split: ref.splits if_splits option.splits)

lemma spawn_try_free_shape:
  fixes s u :: "'a daemon_scheme"
  assumes "spawn_try_free (try_done os) t s = Inr u" and "tries s t = Some y" and "done_cb y = Some Session_done"
    and pid: "try_pid y = pid"
  shows "\<exists>v. steady s v \<and> u = free_try t (spawnregistery_unlisten pid Spawned_session_disappear (Try_ref t) v)"
proof -
  let ?s1 = "emit (Closed (com_read y)) (manager_unregister_fd (com_read y) s)"
  from assms(1-3) obtain v y2 where v: "session_done os (done_data y)
      \<lparr>end_success = exit_success y, end_message = error_msg y\<rparr> ?s1 = Inr v" and y2: "tries v t = Some y2"
    and u: "u = free_try t (spawnregistery_unlisten (try_pid y2) Spawned_session_disappear (Try_ref t) v)"
    by (auto simp: spawn_try_free_def try_done_def Let_def deref_eq_Inr elim!: bindR_InrE)
  have "tries v = tries s" using session_done_tries [OF v] by (simp add: frame_simps)
  then have "y2 = y" using y2 assms(2) by simp
  moreover have "steady s v"
    using steady_trans [OF steady_trans [OF steady_steps(4) steady_steps(2)] steady_session_done [OF v]] .
  ultimately show ?thesis using u pid by blast
qed

subsection \<open>What a child says in its whole life\<close>

lemma greeter_start_silent:
  "view heard (trace (snd (sp_client_greeter_start co argv s))) = view heard (trace s)"
  by (auto simp: sp_client_greeter_start_def sp_client_start_greeter_def write_msg_def sp_service_connect_def Let_def
      split: prod.split input.split)

lemma run_job_silent:
  assumes "run_job os co jb s = Inr (e, t)"
  shows "view heard (trace t) = view heard (trace s) \<and> e \<noteq> Exited (-1)"
  using assms
  by (auto simp: run_job_def greeter_job_def session_job_def fire_up_def tty_fire_up_def x11_fire_up_def wl_fire_up_def
      execl_def Let_def elim!: bindR_InrE split: job_fn.splits fire_up.splits option.splits prod.splits if_splits proc_end.splits)

lemma fire_up_silent:
  assumes "session_proc_fire_up os co argv y s = Inr (e, t)"
  shows "view heard (trace t) = view heard (trace s) \<and> e \<noteq> Exited (-1)"
proof -
  let ?pid = "os_fork os (nforks s)" and ?s1 = "s\<lparr>nforks := Suc (nforks s)\<rparr>"
  consider "?pid = 0" | "?pid = -1" | "?pid \<noteq> 0" "?pid \<noteq> -1" by blast
  then show ?thesis
  proof cases
    case 1
    with assms obtain e' where "run_job os co (job y) ?s1 = Inr (e', t)" "e = (if e' = Returned then Exited 1 else e')"
      by (auto simp: session_proc_fire_up_def Let_def elim!: bindR_InrE)
    with run_job_silent [of os co "job y" ?s1 e' t] show ?thesis by simp
  next
    case 2
    with assms show ?thesis by (auto simp: session_proc_fire_up_def Let_def)
  next
    case 3
    with assms show ?thesis
      by (auto simp: session_proc_fire_up_def Let_def reexecute_greeter_def greeter_start_silent
          split: option.splits ended_fn.splits)
  qed
qed

lemma child_says:
  assumes run: "child_main os co argv n tty s = Some (Inr (e, t))" and y: "tries s n = Some y"
  shows "\<exists>texts. view heard (trace t) = view heard (trace s) @ said y CONNECT # map (reason y) texts @
      (if e = Exited (-1) then [] else [said y SETUP_DONE, said y SESSION_ACTIVE]) \<and>
    (e = Exited (-1) \<longrightarrow> texts \<noteq> []) \<and>
    (quiet_pam co \<longrightarrow> length texts = (if e = Exited (-1) then 1 else 0)) \<and>
    (e \<noteq> Exited (-1) \<longrightarrow> current_session_get os co \<noteq> None)"
proof (cases "child_setup os co y tty s")
  case (Inl f)
  with run y show ?thesis by (simp add: child_main_def)
next
  case (Inr r)
  obtain ok u where r: "r = (ok, u)" by (cases r)
  from child_setup_says [OF Inr [unfolded r]] obtain texts where
    texts: "view heard (trace u) = view heard (trace s) @ said y CONNECT # map (reason y) texts @ (if ok then [said y SETUP_DONE] else [])"
    "\<not> ok \<longrightarrow> texts \<noteq> []" "quiet_pam co \<longrightarrow> length texts = (if ok then 0 else 1)" by blast
  show ?thesis
  proof (cases ok)
    case False
    with run y Inr r have "e = Exited (-1)" "t = u" by (simp_all add: child_main_def)
    with texts False show ?thesis by auto
  next
    case True
    let ?u = "emit (Closed (com_write y)) (service_message y SESSION_ACTIVE None u)"
    from run y Inr r True have "session_proc_fire_up os co argv y ?u = Inr (e, t)"
      by (auto simp: child_main_def Option.bind_eq_Some_conv Let_def)
    from fire_up_silent [OF this] have "view heard (trace t) = view heard (trace u) @ [said y SESSION_ACTIVE]" "e \<noteq> Exited (-1)"
      by (simp_all add: said_def)
    moreover have "current_session_get os co \<noteq> None"
    proof -
      from Inr r True obtain v where "setup_tail os co y v = Inr (True, u)" by (auto elim: child_setup_parts)
      then show ?thesis by (auto simp: setup_tail_def Let_def give_up_def elim!: bindR_InrE split: option.splits)
    qed
    ultimately show ?thesis using texts True by auto
  qed
qed

text \<open>C9: What the daemon hears of a child in its whole life, from the fork to the program it becomes or the
  exit: first \<open>CONNECT\<close>, then nothing but reasons for giving up, and then, exactly if it does not give up,
  \<open>SETUP_DONE\<close> and \<open>SESSION_ACTIVE\<close>, in this order and with nothing after them, not even from the session it
  runs. A child that gives up has said why; where PAM has no text to show it says so once, and a child that
  does not give up then never does. One that does not give up is in a session that logind knows.\<close>

theorem child_protocol:
  assumes "child_main os co argv n tty s = Some (Inr (e, t))" and "tries s n = Some y"
  shows "\<exists>texts. view heard (trace t) = view heard (trace s) @ said y CONNECT # map (reason y) texts @
      (if e = Exited (-1) then [] else [said y SETUP_DONE, said y SESSION_ACTIVE]) \<and>
    (e = Exited (-1) \<longrightarrow> texts \<noteq> []) \<and>
    (quiet_talk (ch_pam_authenticate co) \<and> quiet_talk (ch_pam_setcred co) \<and> quiet_talk (ch_pam_open_session co) \<longrightarrow>
       length texts = (if e = Exited (-1) then 1 else 0)) \<and>
    (e \<noteq> Exited (-1) \<longrightarrow> current_session_get os co \<noteq> None)"
  using child_says [OF assms] unfolding quiet_pam_def .

lemma child_protocol_witness:
  "(\<exists>t why. child_main forked_os (example_child_os (Pam_result PAM_AUTH_ERR)) [''sp-daemon''] 0 ''/dev/tty11'' starting_bob
       = Some (Inr (Exited (-1), t)) \<and>
     view heard (trace t) = [(8, \<lparr>sp_type = CONNECT, sp_exit = None\<rparr>), (8, \<lparr>sp_type = ERROR_EXIT, sp_exit = Some why\<rparr>)]) \<and>
   (\<exists>t. child_main forked_os (example_child_os (Pam_result PAM_SUCCESS)) [''sp-daemon''] 0 ''/dev/tty11'' starting_bob
       = Some (Inr (Replaced, t)) \<and>
     view heard (trace t) = map (\<lambda>ty. (8, \<lparr>sp_type = ty, sp_exit = None\<rparr>)) [CONNECT, SETUP_DONE, SESSION_ACTIVE])"
proof -
  have y: "tries starting_bob 0 = Some bobs_try" by (simp add: bobs_try_def starting_bob_def)
  have fd: "com_write bobs_try = 8" by (simp add: bobs_try_def starting_bob_def)
  have tr: "view heard (trace starting_bob) = []" by (simp add: starting_bob_def tty_registered_def globals_def)
  have quiet: "quiet_talk (ch_pam_authenticate (example_child_os (Pam_result r)))"
      "quiet_talk (ch_pam_setcred (example_child_os (Pam_result r)))"
      "quiet_talk (ch_pam_open_session (example_child_os (Pam_result r)))" for r
    by (simp_all add: example_child_os_def quiet_talk.result)
  have "case child_main forked_os (example_child_os (Pam_result PAM_AUTH_ERR)) [''sp-daemon''] 0 ''/dev/tty11'' starting_bob of
      Some (Inr (Exited z, t)) \<Rightarrow> z = -1 | _ \<Rightarrow> False" by code_simp
  then obtain t where t: "child_main forked_os (example_child_os (Pam_result PAM_AUTH_ERR)) [''sp-daemon''] 0 ''/dev/tty11'' starting_bob
      = Some (Inr (Exited (-1), t))" by (auto split: option.splits sum.splits prod.splits proc_end.splits)
  have "case child_main forked_os (example_child_os (Pam_result PAM_SUCCESS)) [''sp-daemon''] 0 ''/dev/tty11'' starting_bob of
      Some (Inr (Replaced, t)) \<Rightarrow> True | _ \<Rightarrow> False" by code_simp
  then obtain u where u: "child_main forked_os (example_child_os (Pam_result PAM_SUCCESS)) [''sp-daemon''] 0 ''/dev/tty11'' starting_bob
      = Some (Inr (Replaced, u))" by (auto split: option.splits sum.splits prod.splits proc_end.splits)
  from child_protocol [OF t y] quiet tr fd obtain why where
    "view heard (trace t) = [(8, \<lparr>sp_type = CONNECT, sp_exit = None\<rparr>), (8, \<lparr>sp_type = ERROR_EXIT, sp_exit = Some why\<rparr>)]"
    by (auto simp: length_Suc_conv said_def reason_def)
  moreover from child_protocol [OF u y] quiet tr fd have
    "view heard (trace u) = map (\<lambda>ty. (8, \<lparr>sp_type = ty, sp_exit = None\<rparr>)) [CONNECT, SETUP_DONE, SESSION_ACTIVE]"
    by (auto simp: said_def)
  ultimately show ?thesis using t u by blast
qed

text \<open>A child writes one message last, that its session is active or why it has given up, and these before.\<close>

definition before_last :: "proc_end \<Rightarrow> spawn_message list" where
  "before_last e = map (\<lambda>ty. \<lparr>sp_type = ty, sp_exit = None\<rparr>) (if e = Exited (-1) then [CONNECT] else [CONNECT, SETUP_DONE])"

lemma child_messages:
  assumes run: "child_main os co argv t tty s0 = Some (Inr (e, w))" "tries s0 t = Some y" "quiet_pam co"
    and pipe: "view heard (trace w) = view heard (trace s0) @ map (Pair (com_write y)) msgs"
  shows "\<exists>sid why. (e \<noteq> Exited (-1) \<longrightarrow> current_session_get os co = Some sid) \<and>
    msgs = before_last e @ [if e = Exited (-1) then \<lparr>sp_type = ERROR_EXIT, sp_exit = Some why\<rparr> else \<lparr>sp_type = SESSION_ACTIVE, sp_exit = None\<rparr>]"
proof -
  from child_says [OF run(1,2)] run(3) obtain texts where
    texts: "view heard (trace w) = view heard (trace s0) @ said y CONNECT # map (reason y) texts @
      (if e = Exited (-1) then [] else [said y SETUP_DONE, said y SESSION_ACTIVE])"
    "length texts = (if e = Exited (-1) then 1 else 0)" and sid: "e \<noteq> Exited (-1) \<longrightarrow> current_session_get os co \<noteq> None"
    by blast
  have inj: "inj (Pair (com_write y) :: spawn_message \<Rightarrow> _)" by (rule injI) simp
  obtain why where why: "texts = (if e = Exited (-1) then [why] else [])"
    using texts(2) by (cases "e = Exited (-1)") (auto simp: length_Suc_conv)
  have "map (Pair (com_write y)) msgs = map (Pair (com_write y))
      (before_last e @ [if e = Exited (-1) then \<lparr>sp_type = ERROR_EXIT, sp_exit = Some why\<rparr> else \<lparr>sp_type = SESSION_ACTIVE, sp_exit = None\<rparr>])"
    using texts(1) pipe why by (simp add: said_def reason_def before_last_def)
  then have "msgs = (before_last e @ [if e = Exited (-1) then \<lparr>sp_type = ERROR_EXIT, sp_exit = Some why\<rparr> else \<lparr>sp_type = SESSION_ACTIVE, sp_exit = None\<rparr>])"
    using inj by (simp only: inj_map_eq_map)
  with sid show ?thesis by blast
qed

subsection \<open>Turns of the loop in which the pipe of the child is ready\<close>

lemma child_turn:
  assumes s: "tidy s" "nulls s = 0" and reg: "(fd, Child_data, Try_ref t) \<in> set (live s)" and n: "fds_len s \<le> n"
    and run: "child_data os (try_done os) (Try_ref t) fd (s\<lparr>readout := True\<rparr>) = Inr v"
    and same: "descriptors v = descriptors s"
  shows "manager_iter n (fd_dispatch os) (only_ready fd) s =
    Inr (Running (flush_changes (changes v) (v\<lparr>readout := False\<rparr>)))"
  by (rule single_turn [OF s reg n _ same]) (simp add: fd_dispatch_def run)

lemma no_readout: "\<not> readout s \<Longrightarrow> s\<lparr>readout := False\<rparr> = s"
  by simp

lemma turn_connect:
  assumes s: "tidy s" "nulls s = 0" "\<not> readout s" and reg: "(fd, Child_data, Try_ref t) \<in> set (live s)"
    and n: "fds_len s \<le> n" and msg: "recv_child os (nreads s) = Message \<lparr>sp_type = CONNECT, sp_exit = None\<rparr>"
  shows "manager_iter n (fd_dispatch os) (only_ready fd) s = Inr (Running (s\<lparr>nreads := Suc (nreads s)\<rparr>))"
proof -
  let ?v = "s\<lparr>readout := True, nreads := Suc (nreads s)\<rparr>"
  have "child_data os (try_done os) (Try_ref t) fd (s\<lparr>readout := True\<rparr>) = Inr ?v"
    using msg by (simp add: child_data_def)
  moreover have "descriptors ?v = descriptors s" by (simp add: descriptors_def)
  moreover have "changes ?v = 0" using s by (simp add: tidy_def)
  ultimately show ?thesis using child_turn [OF s(1,2) reg n] s(3) by simp
qed

lemma turn_setup_done:
  assumes s: "tidy s" "nulls s = 0" "\<not> readout s" and reg: "(fd, Child_data, Try_ref t) \<in> set (live s)"
    and n: "fds_len s \<le> n" and msg: "recv_child os (nreads s) = Message \<lparr>sp_type = SETUP_DONE, sp_exit = None\<rparr>"
    and t: "tries s t = Some y" "session_get os (try_pid y) = Some sid"
  shows "manager_iter n (fd_dispatch os) (only_ready fd) s = Inr (Running
    (emit (Activated (snprintf (4096 - 18) sid)) (upd_try t (\<lambda>y. y\<lparr>st_session := Some sid\<rparr>) (s\<lparr>nreads := Suc (nreads s)\<rparr>))))"
proof -
  let ?v = "emit (Activated (snprintf (4096 - 18) sid)) (upd_try t (\<lambda>y. y\<lparr>st_session := Some sid\<rparr>)
    (s\<lparr>readout := True, nreads := Suc (nreads s)\<rparr>))"
  have "child_data os (try_done os) (Try_ref t) fd (s\<lparr>readout := True\<rparr>) = Inr ?v"
    using msg t by (simp add: child_data_def session_activate_def)
  moreover have "descriptors ?v = descriptors s" by (simp add: descriptors_def emit_def upd_try_def)
  moreover have "changes ?v = 0" using s by (simp add: tidy_def emit_def upd_try_def)
  ultimately show ?thesis using child_turn [OF s(1,2) reg n] s(3) by (simp add: emit_def upd_try_def)
qed

lemma flush_frames:
  "trace (flush_changes k s) = trace s" "clients (flush_changes k s) = clients s"
  "tries (flush_changes k s) = tries s" "greeters (flush_changes k s) = greeters s"
  "pending (flush_changes k s) = pending s" "eval_mode (flush_changes k s) = eval_mode s"
  "stop (flush_changes k s) = stop s"
proof -
  obtain x c where "flush_changes k s = s\<lparr>fds := x, changes := c\<rparr>" using flush_changes_shape by blast
  then show "trace (flush_changes k s) = trace s" "clients (flush_changes k s) = clients s"
    "tries (flush_changes k s) = tries s" "greeters (flush_changes k s) = greeters s"
    "pending (flush_changes k s) = pending s" "eval_mode (flush_changes k s) = eval_mode s"
    "stop (flush_changes k s) = stop s"
    by simp_all
qed

lemma turn_error:
  assumes s: "tidy s" "nulls s = 0" "\<not> readout s" and reg: "(com_read y, Child_data, Try_ref t) \<in> set (live s)"
    and n: "fds_len s \<le> n" and msg: "recv_child os (nreads s) = Message \<lparr>sp_type = ERROR_EXIT, sp_exit = Some why\<rparr>"
    and t: "tries s t = Some y"
  shows "\<exists>u. manager_iter n (fd_dispatch os) (only_ready (com_read y)) s = Inr (Running u) \<and>
    trace u = trace s \<and> clients u = clients s \<and> greeters u = greeters s \<and>
    tries u = (tries s)(t \<mapsto> y\<lparr>error_msg := Some why\<rparr>) \<and> pending u = pending s \<and> eval_mode u = eval_mode s \<and>
    stop u = stop s"
proof -
  let ?m = "manager_unregister_fd (com_read y) (s\<lparr>readout := True, nreads := Suc (nreads s)\<rparr>)"
  let ?v = "upd_try t (\<lambda>y. y\<lparr>error_msg := Some why\<rparr>) ?m"
  have "child_data os (try_done os) (Try_ref t) (com_read y) (s\<lparr>readout := True\<rparr>) = Inr ?v"
    using msg t by (simp add: child_data_def)
  moreover have "descriptors ?m = descriptors (s\<lparr>readout := True, nreads := Suc (nreads s)\<rparr>)"
    by (rule descriptors_unregister) simp
  then have "descriptors ?v = descriptors s" by (simp add: descriptors_def upd_try_def)
  ultimately have "manager_iter n (fd_dispatch os) (only_ready (com_read y)) s =
      Inr (Running (flush_changes (changes ?v) (?v\<lparr>readout := False\<rparr>)))"
    by (intro child_turn [OF s(1,2) reg n])
  moreover have "steady (s\<lparr>readout := True, nreads := Suc (nreads s)\<rparr>) ?v"
    using steady_steps(4,6) by (rule steady_trans)
  then have "pending ?v = pending s" "eval_mode ?v = eval_mode s" "stop ?v = stop s" by (simp_all add: steady_def)
  ultimately show ?thesis using t
    by (intro exI [of _ "flush_changes (changes ?v) (?v\<lparr>readout := False\<rparr>)"])
       (simp add: flush_frames frame_simps)
qed

lemma turn_active:
  assumes s: "tidy s" "nulls s = 0" "\<not> readout s" and reg: "(com_read y, Child_data, Try_ref t) \<in> set (live s)"
    and n: "fds_len s \<le> n" and msg: "recv_child os (nreads s) = Message \<lparr>sp_type = SESSION_ACTIVE, sp_exit = None\<rparr>"
    and t: "tries s t = Some y" and cb: "done_cb y = Some Session_done" "done_data y = Client_ref c"
    and c: "clients s c = Some cl" and seat: "seat_get os (cl_pid cl) = Some seat"
    and a: "greeters s = Live_ptr a" and i: "find_index (\<lambda>g. g_seat g = seat) (cells a) = Some i"
  shows "\<exists>u. manager_iter n (fd_dispatch os) (only_ready (com_read y)) s = Inr (Running u) \<and>
    trace u = trace s @ [Closed (com_read y),
      Sent (cl_fd cl) \<lparr>sm_type = LOGIN_FEEDBACK,
        sm_feedback = Some \<lparr>fb_success = True, fb_msg = Some ''You are logged in!''\<rparr>, sm_data = None\<rparr>,
      Sent (cl_fd cl) \<lparr>sm_type = LEAVE, sm_feedback = None, sm_data = None\<rparr>, Closed (cl_fd cl)] \<and>
    clients u = (clients s)(c := None) \<and> tries u = (tries s)(t := None) \<and>
    greeters u = Live_ptr (tarray_set a i ((cells a ! i)\<lparr>g_end := True\<rparr>)) \<and> stop u = stop s"
proof -
  let ?s1 = "s\<lparr>readout := True\<rparr>"
  have m: "recv_child os (nreads ?s1) = Message \<lparr>sp_type = SESSION_ACTIVE, sp_exit = None\<rparr>" using msg by simp
  obtain v where v: "child_data os (try_done os) (Try_ref t) (com_read y) ?s1 = Inr v"
    "trace v = trace s @ [Closed (com_read y),
      Sent (cl_fd cl) \<lparr>sm_type = LOGIN_FEEDBACK,
        sm_feedback = Some \<lparr>fb_success = True, fb_msg = Some ''You are logged in!''\<rparr>, sm_data = None\<rparr>,
      Sent (cl_fd cl) \<lparr>sm_type = LEAVE, sm_feedback = None, sm_data = None\<rparr>, Closed (cl_fd cl)]"
    "clients v = (clients s)(c := None)" "tries v = (tries s)(t := None)"
    "greeters v = Live_ptr (tarray_set a i ((cells a ! i)\<lparr>g_end := True\<rparr>))"
    using session_active_effect [OF m, of t y c cl seat a i "com_read y"] t cb c seat a i by auto
  let ?m = "manager_unregister_fd (com_read y) (?s1\<lparr>nreads := Suc (nreads s)\<rparr>)"
  let ?y = "y\<lparr>exit_success := SPAWN_SERVICE_SUCCESS\<rparr>"
  let ?w = "upd_try t (\<lambda>y. y\<lparr>exit_success := SPAWN_SERVICE_SUCCESS\<rparr>) ?m"
  from v(1) msg t have free: "spawn_try_free (try_done os) t ?w = Inr v" by (simp add: child_data_def)
  have w: "tries ?w t = Some ?y" using t by (simp add: frame_simps)
  obtain x where x: "steady ?w x" "v = free_try t (spawnregistery_unlisten (try_pid y) Spawned_session_disappear (Try_ref t) x)"
    using spawn_try_free_shape [OF free w] cb by auto
  have "steady (?s1\<lparr>nreads := Suc (nreads s)\<rparr>) ?w" using steady_steps(4,6) by (rule steady_trans)
  then have "steady (?s1\<lparr>nreads := Suc (nreads s)\<rparr>) x" using x(1) by (rule steady_trans)
  then have "descriptors x = descriptors s" "stop x = stop s" by (simp_all add: steady_def descriptors_def)
  moreover have "stop (spawnregistery_unlisten p h d x) = stop x" for p h d by (subst unlisten_shape) simp
  ultimately have st: "stop v = stop s" and "descriptors v = descriptors s"
    unfolding x(2) by (simp_all add: descriptors_def free_try_def)
  then have "manager_iter n (fd_dispatch os) (only_ready (com_read y)) s =
      Inr (Running (flush_changes (changes v) (v\<lparr>readout := False\<rparr>)))"
    by (intro child_turn [OF s(1,2) reg n v(1)])
  then show ?thesis using v(2-) st
    by (intro exI [of _ "flush_changes (changes v) (v\<lparr>readout := False\<rparr>)"]) (simp add: flush_frames)
qed

lemma resting_turns:
  assumes "resting s"
  shows "tidy s" "nulls s = 0" "\<not> readout s" "\<not> eval_mode s" "reg_ok s"
  using assms by (auto simp: resting_def daemon_inv_def tidy_def)

subsection \<open>What is read before the last message\<close>

text \<open>
  As long as the child has only said \<open>CONNECT\<close> and \<open>SETUP_DONE\<close> the daemon waits: what it has read has
  brought the session to the front (\<open>activations\<close>) and has left everything else as it was (\<open>awaiting\<close>);
  \<open>undecided\<close> leaves open whether the pipe is still watched.
\<close>

definition activations :: "string \<Rightarrow> spawn_message list \<Rightarrow> effect list" where
  "activations sid ms =
     concat (map (\<lambda>m. if sp_type m = SETUP_DONE then [Activated (snprintf (4096 - 18) sid)] else []) ms)"

definition undecided :: "'a daemon_scheme \<Rightarrow> nat \<Rightarrow> spawn_try \<Rightarrow> 'a daemon_scheme \<Rightarrow> bool" where
  "undecided s t y u \<longleftrightarrow> pending u = pending s \<and> eval_mode u = eval_mode s \<and> stop u = stop s \<and>
     clients u = clients s \<and> greeters u = greeters s \<and> tries u = (tries s)(t \<mapsto> y)"

definition awaiting :: "'a daemon_scheme \<Rightarrow> nat \<Rightarrow> spawn_try \<Rightarrow> 'a daemon_scheme \<Rightarrow> bool" where
  "awaiting s t y u \<longleftrightarrow> undecided s t y u \<and> fds u = fds s \<and> changes u = changes s \<and> readout u = readout s"

lemma awaiting_trans: "awaiting s t y u \<Longrightarrow> awaiting u t z v \<Longrightarrow> awaiting s t z v"
  by (simp add: awaiting_def undecided_def)

lemma awaiting_keeps:
  assumes "awaiting s t y u"
  shows "tidy u \<longleftrightarrow> tidy s" "nulls u = nulls s" "live u = live s" "fds_len u = fds_len s" "readout u = readout s"
    "stop u = stop s" "tries u t = Some y" "clients u = clients s" "greeters u = greeters s"
    "(tries u)(t := x) = (tries s)(t := x)" "listeners u = listeners s" "pending_len u = pending_len s"
    "reg_ok u \<longleftrightarrow> reg_ok s" "eval_mode u = eval_mode s"
  using assms by (simp_all add: awaiting_def undecided_def tidy_def live_def nulls_def listeners_def reg_ok_def zeroed_def)

definition quiet_message :: "spawn_message \<Rightarrow> bool" where
  "quiet_message m \<longleftrightarrow> sp_exit m = None \<and> sp_type m \<in> {CONNECT, SETUP_DONE}"

lemma quiet_turn:
  assumes s: "tidy s" "nulls s = 0" "\<not> readout s" and reg: "(fd, Child_data, Try_ref t) \<in> set (live s)"
    and n: "fds_len s \<le> n" and msg: "recv_child os (nreads s) = Message m" "quiet_message m"
    and t: "tries s t = Some y" "sp_type m = SETUP_DONE \<Longrightarrow> session_get os (try_pid y) = Some sid"
  shows "\<exists>u x. manager_iter n (fd_dispatch os) (only_ready fd) s = Inr (Running u) \<and>
    awaiting s t (y\<lparr>st_session := x\<rparr>) u \<and> nreads u = Suc (nreads s) \<and> trace u = trace s @ activations sid [m]"
proof (cases "sp_type m = SETUP_DONE")
  case True
  with msg have "m = \<lparr>sp_type = SETUP_DONE, sp_exit = None\<rparr>" by (simp add: quiet_message_def)
  with turn_setup_done [OF s reg n _ t(1) t(2) [OF True]] msg(1) show ?thesis
    by (intro exI [of _ "emit (Activated (snprintf (4096 - 18) sid)) (upd_try t (\<lambda>y. y\<lparr>st_session := Some sid\<rparr>)
          (s\<lparr>nreads := Suc (nreads s)\<rparr>))"] exI [of _ "Some sid"])
       (simp add: awaiting_def undecided_def activations_def emit_def upd_try_def t(1))
next
  case False
  with msg have m: "m = \<lparr>sp_type = CONNECT, sp_exit = None\<rparr>" by (simp add: quiet_message_def)
  have "y\<lparr>st_session := st_session y\<rparr> = y" by simp
  with turn_connect [OF s reg n] msg(1) m t(1) show ?thesis
    by (intro exI [of _ "s\<lparr>nreads := Suc (nreads s)\<rparr>"] exI [of _ "st_session y"])
       (simp add: awaiting_def undecided_def activations_def fun_upd_idem)
qed

lemma quiet_reads:
  assumes s: "tidy s" "nulls s = 0" "\<not> readout s" "\<not> stop s" and reg: "(fd, Child_data, Try_ref t) \<in> set (live s)"
    and n: "fds_len s \<le> n"
    and read: "\<And>i. i < length ms \<Longrightarrow> recv_child os (nreads s + i) = Message (ms ! i)" "\<forall>m \<in> set ms. quiet_message m"
    and t: "tries s t = Some y" "\<exists>m \<in> set ms. sp_type m = SETUP_DONE \<Longrightarrow> session_get os (try_pid y) = Some sid"
  shows "\<exists>u x. (\<forall>sels. manager_run n (fd_dispatch os) (replicate (length ms) (only_ready fd) @ sels) s =
        manager_run n (fd_dispatch os) sels u) \<and>
    awaiting s t (y\<lparr>st_session := x\<rparr>) u \<and> nreads u = nreads s + length ms \<and> trace u = trace s @ activations sid ms"
  using s reg n read t
proof (induction ms arbitrary: s y)
  case Nil
  have "awaiting s t (y\<lparr>st_session := st_session y\<rparr>) s" using Nil.prems(9) by (simp add: awaiting_def undecided_def fun_upd_idem)
  then show ?case by (intro exI [of _ s] exI [of _ "st_session y"]) (simp add: activations_def)
next
  case (Cons m ms)
  note p = Cons.prems
  obtain u x where u: "manager_iter n (fd_dispatch os) (only_ready fd) s = Inr (Running u)"
    "awaiting s t (y\<lparr>st_session := x\<rparr>) u" "nreads u = Suc (nreads s)" "trace u = trace s @ activations sid [m]"
    using quiet_turn [OF p(1-3,5,6) _ _ p(9), of os m sid] p(7) [of 0] p(8,10) by auto
  note k = awaiting_keeps [OF u(2)]
  have next_read: "recv_child os (nreads u + i) = Message (ms ! i)" if "i < length ms" for i
    using p(7) [of "Suc i"] that u(3) by simp
  obtain v z where v: "\<forall>sels. manager_run n (fd_dispatch os) (replicate (length ms) (only_ready fd) @ sels) u =
        manager_run n (fd_dispatch os) sels v"
    "awaiting u t (y\<lparr>st_session := x, st_session := z\<rparr>) v" "nreads v = nreads u + length ms" "trace v = trace u @ activations sid ms"
    using Cons.IH [of u "y\<lparr>st_session := x\<rparr>"] p k next_read by auto
  have "awaiting s t (y\<lparr>st_session := z\<rparr>) v" using awaiting_trans [OF u(2) v(2)] by simp
  moreover have "manager_run n (fd_dispatch os) (replicate (length (m # ms)) (only_ready fd) @ sels) s =
      manager_run n (fd_dispatch os) sels v" for sels
    using run_turn [OF p(4) u(1), of "replicate (length ms) (only_ready fd) @ sels"] v(1) by simp
  ultimately show ?case using u v by (intro exI [of _ v] exI [of _ z]) (simp add: activations_def)
qed

lemma heard_mem: "(fd, m) \<in> set (view heard tr) \<longleftrightarrow> Service_message fd m \<in> set tr"
proof (induction tr)
  case (Cons e tr)
  then show ?case by (cases e) auto
qed simp

lemma reaped_frames:
  "trace (spawnregistery_cleanup s) = trace s" "clients (spawnregistery_cleanup s) = clients s"
  "tries (spawnregistery_cleanup s) = tries s" "greeters (spawnregistery_cleanup s) = greeters s"
  by (subst cleanup_shape, simp)+

lemma exit_delivered:
  fixes s :: "'a daemon_scheme"
  assumes rg: "reg_ok s" "\<not> eval_mode s" and n: "pending_len s \<le> n"
    and only: "filter (\<lambda>l. fst l = pid) (listeners s) = [(pid, Spawned_session_disappear, Try_ref t)]" "0 < pid"
    and t: "tries s t = Some y" and cb: "done_cb y = Some Session_done" "done_data y = Client_ref c"
    and e: "exit_success y = SPAWN_SERVICE_ERROR" "try_pid y = pid" and c: "clients s c = Some cl"
  shows "\<exists>v. child_exit os n SIGCHLD [(pid, status)] s = Inr v \<and>
    trace v = trace s @ [Closed (com_read y), Sent (cl_fd cl) \<lparr>sm_type = LOGIN_FEEDBACK,
        sm_feedback = Some \<lparr>fb_success = False, fb_msg = error_msg y\<rparr>, sm_data = None\<rparr>] \<and>
    clients v = (clients s)(c \<mapsto> cl\<lparr>cl_try := None\<rparr>) \<and> tries v = (tries s)(t := None) \<and> greeters v = greeters s"
proof -
  let ?m = "s\<lparr>eval_mode := True\<rparr>"
  have m: "tries ?m t = Some y" "clients ?m c = Some cl" using t c by simp_all
  obtain x where x: "wait_dispatch os Spawned_session_disappear (Try_ref t) status pid ?m = Inr x"
    "trace x = trace s @ [Closed (com_read y), Sent (cl_fd cl) \<lparr>sm_type = LOGIN_FEEDBACK,
        sm_feedback = Some \<lparr>fb_success = False, fb_msg = error_msg y\<rparr>, sm_data = None\<rparr>]"
    "clients x = (clients s)(c \<mapsto> cl\<lparr>cl_try := None\<rparr>)" "tries x = (tries s)(t := None)" "greeters x = greeters s"
    using child_lost_effect [OF m(1) cb e(1) m(2), of os status pid] by auto
  have free: "spawn_try_free (try_done os) t ?m = Inr x"
    using x(1) by (simp add: wait_dispatch_def spawned_session_disappear_def)
  obtain z where z: "steady ?m z" "x = free_try t (spawnregistery_unlisten pid Spawned_session_disappear (Try_ref t) z)"
    using spawn_try_free_shape [OF free m(1) cb(1) e(2)] by blast
  have mode: "eval_mode x"
    using z(1) unfolding z(2) by (simp add: steady_def free_try_def spawnregistery_unlisten_def Let_def)
  have p: "cells (pending x) = map (zero_waiting pid Spawned_session_disappear (Try_ref t)) (cells (pending s))"
    using z(1) unfolding z(2) by (simp add: steady_def free_try_def spawnregistery_unlisten_def Let_def)
  let ?v = "spawnregistery_cleanup ((spawnregistery_unlisten pid Spawned_session_disappear (Try_ref t) x)\<lparr>eval_mode := False\<rparr>)"
  have "child_exit os n SIGCHLD [(pid, status)] s = Inr ?v"
    using single_reap [where run = "wait_dispatch os", OF rg only(2,1) n x(1) mode p] by (simp add: child_exit_def)
  then show ?thesis using x(2-) by (intro exI [of _ ?v]) (simp add: reaped_frames unlisten_frames)
qed

subsection \<open>Reads of several messages\<close>

text \<open>
  A pipe keeps no boundaries: one \<open>read\<close> may find several messages, one behind the other. They are
  unpacked as one; \<open>unpack_ok\<close> is what the documentation of the format promises of that, the last
  value of each field.
\<close>

definition unpack_ok :: "(spawn_message list \<Rightarrow> spawn_message) \<Rightarrow> bool" where
  "unpack_ok unpack \<longleftrightarrow> (\<forall>ms m. sp_type (unpack (ms @ [m])) = sp_type m \<and>
     sp_exit (unpack (ms @ [m])) = (if sp_exit m = None \<and> ms \<noteq> [] then sp_exit (unpack ms) else sp_exit m))"

lemma unpack_snoc:
  assumes "unpack_ok unpack"
  shows "sp_type (unpack (ms @ [m])) = sp_type m"
    "sp_exit (unpack (ms @ [m])) = (if sp_exit m = None \<and> ms \<noteq> [] then sp_exit (unpack ms) else sp_exit m)"
  using assms unfolding unpack_ok_def by blast+

lemma unpack_silent:
  assumes "unpack_ok unpack" and "ms \<noteq> []" "\<forall>m \<in> set ms. sp_exit m = None"
  shows "sp_exit (unpack ms) = None"
  using assms(2,3)
proof (induction ms rule: rev_induct)
  case (snoc m ms)
  then show ?case unfolding unpack_snoc [OF assms(1)] by simp
qed simp

lemma unpack_type: "unpack_ok unpack \<Longrightarrow> ms \<noteq> [] \<Longrightarrow> sp_type (unpack ms) = sp_type (last ms)"
  using append_butlast_last_id [of ms] using unpack_snoc(1) by metis

lemma unpack_quiet:
  assumes "unpack_ok unpack" "[] \<notin> set groups" "\<forall>m \<in> set (concat groups). quiet_message m"
  shows "\<forall>m \<in> set (map unpack groups). quiet_message m"
    "\<exists>m \<in> set (map unpack groups). sp_type m = SETUP_DONE \<Longrightarrow> \<exists>m \<in> set (concat groups). sp_type m = SETUP_DONE"
proof -
  have *: "sp_exit (unpack g) = None" "sp_type (unpack g) = sp_type (last g)" "last g \<in> set (concat groups)"
    if "g \<in> set groups" for g
  proof -
    have "g \<noteq> []" using that assms(2) by auto
    moreover have "\<forall>m \<in> set g. sp_exit m = None" using that assms(3) by (auto simp: quiet_message_def)
    ultimately show "sp_exit (unpack g) = None" "sp_type (unpack g) = sp_type (last g)"
      by (simp_all add: unpack_silent [OF assms(1)] unpack_type [OF assms(1)])
    have "last g \<in> set g" using \<open>g \<noteq> []\<close> by (rule last_in_set)
    with that show "last g \<in> set (concat groups)" unfolding set_concat by (rule UN_I)
  qed
  show "\<forall>m \<in> set (map unpack groups). quiet_message m"
    using assms(3) * unfolding quiet_message_def by (metis imageE set_map)
  show "\<exists>m \<in> set (map unpack groups). sp_type m = SETUP_DONE \<Longrightarrow> \<exists>m \<in> set (concat groups). sp_type m = SETUP_DONE"
    using *(2,3) by (metis imageE set_map)
qed

lemma last_group:
  assumes "concat groups = ms @ [m]" "[] \<notin> set groups"
  shows "\<exists>gs g. groups = gs @ [g @ [m]] \<and> concat gs @ g = ms"
proof -
  have "groups \<noteq> []" using assms(1) by auto
  then obtain gs h where gs: "groups = gs @ [h]" by (metis append_butlast_last_id)
  moreover have "h \<noteq> []" using assms(2) gs by auto
  then obtain g x where "h = g @ [x]" by (metis append_butlast_last_id)
  ultimately show ?thesis using assms(1) by auto
qed

lemma unpack_last:
  assumes "unpack_ok unpack" and "set g \<subseteq> set (before_last e)"
  shows "unpack (g @ [m]) = m"
proof -
  have "\<forall>x \<in> set g. sp_exit x = None" using assms(2) by (auto simp: before_last_def split: if_splits)
  then have "sp_exit (unpack (g @ [m])) = sp_exit m" "sp_type (unpack (g @ [m])) = sp_type m"
    using unpack_snoc [OF assms(1), of g m] unpack_silent [OF assms(1), of g] by simp_all
  then show ?thesis by simp
qed

lemma group_reads:
  assumes s: "tidy s" "nulls s = 0" "\<not> readout s" "\<not> stop s" and reg: "(fd, Child_data, Try_ref t) \<in> set (live s)"
    and n: "fds_len s \<le> n" and t: "tries s t = Some y" "e \<noteq> Exited (-1) \<longrightarrow> session_get os (try_pid y) = Some sid"
    and unpack: "unpack_ok unpack" and gs: "set (concat gs) \<subseteq> set (before_last e)" "[] \<notin> set gs"
    and read: "\<And>i. i < length gs \<Longrightarrow> recv_child os (nreads s + i) = Message (unpack (gs ! i))"
  shows "\<exists>u x. manager_run n (fd_dispatch os) (replicate (length gs) (only_ready fd) @ sels) s =
        manager_run n (fd_dispatch os) sels u \<and> awaiting s t (y\<lparr>st_session := x\<rparr>) u \<and>
      nreads u = nreads s + length gs \<and> trace u = trace s @ activations sid (map unpack gs)"
proof -
  have "\<forall>m \<in> set (before_last e). quiet_message m"
    by (auto simp: before_last_def quiet_message_def)
  then have q: "\<forall>m \<in> set (concat gs). quiet_message m" using gs(1) by blast
  have "e \<noteq> Exited (-1)" if "\<exists>m \<in> set (map unpack gs). sp_type m = SETUP_DONE"
    using unpack_quiet(2) [OF unpack gs(2) q that] gs(1) by (auto simp: before_last_def split: if_splits)
  with quiet_reads [OF s reg n _ unpack_quiet(1) [OF unpack gs(2) q] t(1), of os sid] t(2) read
  show ?thesis by fastforce
qed

subsection \<open>The three ways a login comes to its end\<close>

definition told_success :: "spawn_try \<Rightarrow> client \<Rightarrow> effect list" where
  "told_success y cl = [Closed (com_read y),
     Sent (cl_fd cl) \<lparr>sm_type = LOGIN_FEEDBACK,
       sm_feedback = Some \<lparr>fb_success = True, fb_msg = Some ''You are logged in!''\<rparr>, sm_data = None\<rparr>,
     Sent (cl_fd cl) \<lparr>sm_type = LEAVE, sm_feedback = None, sm_data = None\<rparr>, Closed (cl_fd cl)]"

definition told_failure :: "spawn_try \<Rightarrow> client \<Rightarrow> string option \<Rightarrow> effect list" where
  "told_failure y cl why = [Closed (com_read y), Sent (cl_fd cl) \<lparr>sm_type = LOGIN_FEEDBACK,
     sm_feedback = Some \<lparr>fb_success = False, fb_msg = why\<rparr>, sm_data = None\<rparr>]"

definition of_client :: "spawn_try \<Rightarrow> nat \<Rightarrow> bool" where
  "of_client y c \<longleftrightarrow> done_cb y = Some Session_done \<and> done_data y = Client_ref c \<and> exit_success y = SPAWN_SERVICE_ERROR"

lemma exit_read:
  assumes u: "undecided s t z u" and s: "reg_ok s" "\<not> eval_mode s" "pending_len s \<le> n"
    and only: "filter (\<lambda>l. fst l = try_pid z) (listeners s) = [(try_pid z, Spawned_session_disappear, Try_ref t)]" "0 < try_pid z"
    and z: "of_client z c" and c: "clients s c = Some cl"
  shows "\<exists>v. child_exit os n SIGCHLD [(try_pid z, status)] u = Inr v \<and>
    trace v = trace u @ told_failure z cl (error_msg z) \<and>
    clients v = (clients s)(c \<mapsto> cl\<lparr>cl_try := None\<rparr>) \<and> tries v = (tries s)(t := None) \<and> greeters v = greeters s"
proof -
  have k: "reg_ok u" "\<not> eval_mode u" "pending_len u \<le> n" "listeners u = listeners s" "tries u t = Some z"
    "clients u = clients s" "greeters u = greeters s" "(tries u)(t := None) = (tries s)(t := None)"
    using u s by (simp_all add: undecided_def reg_ok_def zeroed_def listeners_def)
  from exit_delivered [OF k(1-3) only [folded k(4)] k(5) _ _ _ refl c [folded k(6)], of os status] z k(6-8)
  show ?thesis by (simp add: of_client_def told_failure_def)
qed

lemma error_read:
  assumes u: "awaiting s t z u" and s: "tidy s" "nulls s = 0" "\<not> readout s" "fds_len s \<le> n"
    and reg: "(com_read z, Child_data, Try_ref t) \<in> set (live s)"
    and msg: "recv_child os (nreads u) = Message \<lparr>sp_type = ERROR_EXIT, sp_exit = Some why\<rparr>"
  shows "\<exists>v. manager_iter n (fd_dispatch os) (only_ready (com_read z)) u = Inr (Running v) \<and>
    trace v = trace u \<and> undecided s t (z\<lparr>error_msg := Some why\<rparr>) v"
proof -
  note k = awaiting_keeps [OF u]
  from turn_error [of u z t n os why] s reg msg k u
  show ?thesis by (auto simp: awaiting_def undecided_def)
qed

lemma active_read:
  assumes u: "awaiting s t z u" and s: "tidy s" "nulls s = 0" "\<not> readout s" "fds_len s \<le> n"
    and reg: "(com_read z, Child_data, Try_ref t) \<in> set (live s)"
    and msg: "recv_child os (nreads u) = Message \<lparr>sp_type = SESSION_ACTIVE, sp_exit = None\<rparr>"
    and z: "of_client z c" and c: "clients s c = Some cl" and seat: "seat_get os (cl_pid cl) = Some seat"
    and a: "greeters s = Live_ptr a" and i: "find_index (\<lambda>g. g_seat g = seat) (cells a) = Some i"
  shows "\<exists>v. manager_iter n (fd_dispatch os) (only_ready (com_read z)) u = Inr (Running v) \<and>
    trace v = trace u @ told_success z cl \<and> clients v = (clients s)(c := None) \<and> tries v = (tries s)(t := None) \<and>
    greeters v = Live_ptr (tarray_set a i ((cells a ! i)\<lparr>g_end := True\<rparr>)) \<and> stop v = stop s"
proof -
  note k = awaiting_keeps [OF u]
  have r: "tidy u" "nulls u = 0" "\<not> readout u" "(com_read z, Child_data, Try_ref t) \<in> set (live u)" "fds_len u \<le> n"
    "clients u c = Some cl" "greeters u = Live_ptr a"
    using s reg c a k by simp_all
  from turn_active [OF r(1-5) msg k(7) _ _ r(6) seat r(7) i] z
  show ?thesis unfolding told_success_def k(6,8,10) of_client_def by blast
qed

text \<open>A daemon that has started the child \<open>pid\<close> as the try \<open>t\<close> of the client \<open>c\<close>, and is between two turns.\<close>

definition waits_for :: "'a daemon_scheme \<Rightarrow> nat \<Rightarrow> nat \<Rightarrow> int \<Rightarrow> spawn_try \<Rightarrow> nat \<Rightarrow> client \<Rightarrow> bool" where
  "waits_for s n t pid y c cl \<longleftrightarrow> resting s \<and> \<not> stop s \<and> fds_len s \<le> n \<and> pending_len s \<le> n \<and>
     tries s t = Some (y\<lparr>try_pid := pid\<rparr>) \<and> of_client y c \<and> error_msg y = None \<and>
     (com_read y, Child_data, Try_ref t) \<in> set (live s) \<and> 0 < pid \<and>
     filter (\<lambda>l. fst l = pid) (listeners s) = [(pid, Spawned_session_disappear, Try_ref t)] \<and> clients s c = Some cl"

lemma waits_for_facts:
  assumes "waits_for s n t pid y c cl"
  shows "tidy s" "nulls s = 0" "\<not> readout s" "\<not> stop s" "fds_len s \<le> n" "tries s t = Some (y\<lparr>try_pid := pid\<rparr>)"
    "(com_read y, Child_data, Try_ref t) \<in> set (live s)" "clients s c = Some cl" "reg_ok s" "\<not> eval_mode s" "pending_len s \<le> n"
    "filter (\<lambda>l. fst l = pid) (listeners s) = [(pid, Spawned_session_disappear, Try_ref t)]" "0 < pid"
    "of_client (y\<lparr>try_pid := pid, st_session := x\<rparr>) c" "error_msg y = None"
  using assms by (simp_all add: waits_for_def resting_turns of_client_def)

lemma told_same:
  "told_success (y\<lparr>try_pid := pid, st_session := x\<rparr>) = told_success y"
  "told_failure (y\<lparr>try_pid := pid, st_session := x\<rparr>) = told_failure y"
  "told_failure (y\<lparr>error_msg := m\<rparr>) = told_failure y"
  by (simp_all add: told_success_def [abs_def] told_failure_def [abs_def])

lemma waiting_reads:
  assumes w: "waits_for s n t pid y c cl" and sid: "e \<noteq> Exited (-1) \<longrightarrow> session_get os pid = Some sid"
    and g: "unpack_ok unpack" "set (concat gs) \<subseteq> set (before_last e)" "[] \<notin> set gs"
      "\<And>i. i < length gs \<Longrightarrow> recv_child os (nreads s + i) = Message (unpack (gs ! i))"
  shows "\<exists>u x. manager_run n (fd_dispatch os) (replicate (length gs) (only_ready (com_read y)) @ sels) s =
        manager_run n (fd_dispatch os) sels u \<and> awaiting s t (y\<lparr>try_pid := pid, st_session := x\<rparr>) u \<and>
      nreads u = nreads s + length gs \<and> trace u = trace s @ activations sid (map unpack gs)"
proof -
  have "e \<noteq> Exited (-1) \<longrightarrow> session_get os (try_pid (y\<lparr>try_pid := pid\<rparr>)) = Some sid" using sid by simp
  from group_reads [OF waits_for_facts(1-4) [OF w] waits_for_facts(7,5,6) [OF w] this g] show ?thesis .
qed

lemma partly_read:
  assumes w: "waits_for s n t pid y c cl" and sid: "e \<noteq> Exited (-1) \<longrightarrow> session_get os pid = Some sid"
    and g: "unpack_ok unpack" "set (concat gs) \<subseteq> set (before_last e)" "[] \<notin> set gs"
      "\<And>i. i < length gs \<Longrightarrow> recv_child os (nreads s + i) = Message (unpack (gs ! i))"
  shows "\<exists>u v. manager_run n (fd_dispatch os) (replicate (length gs) (only_ready (com_read y))) s = Inr (Running u) \<and>
    child_exit os n SIGCHLD [(pid, status)] u = Inr v \<and>
    trace v = trace s @ activations sid (map unpack gs) @ told_failure y cl None \<and>
    clients v = (clients s)(c \<mapsto> cl\<lparr>cl_try := None\<rparr>) \<and> tries v = (tries s)(t := None) \<and> greeters v = greeters s"
proof -
  obtain u x where u: "manager_run n (fd_dispatch os) (replicate (length gs) (only_ready (com_read y))) s =
      manager_run n (fd_dispatch os) [] u" "awaiting s t (y\<lparr>try_pid := pid, st_session := x\<rparr>) u"
    "trace u = trace s @ activations sid (map unpack gs)"
    using waiting_reads [OF w sid g, where sels = "[]"] by auto
  have "manager_run n (fd_dispatch os) [] u = Inr (Running u)"
    using awaiting_keeps(6) [OF u(2)] waits_for_facts(4) [OF w] by simp
  moreover have "undecided s t (y\<lparr>try_pid := pid, st_session := x\<rparr>) u" using u(2) by (simp add: awaiting_def)
  from exit_read [OF this waits_for_facts(9-11) [OF w] _ _ waits_for_facts(14,8) [OF w], of os status] waits_for_facts(12,13,15) [OF w]
  obtain v where "child_exit os n SIGCHLD [(pid, status)] u = Inr v" "trace v = trace u @ told_failure y cl None"
    "clients v = (clients s)(c \<mapsto> cl\<lparr>cl_try := None\<rparr>)" "tries v = (tries s)(t := None)" "greeters v = greeters s"
    by (auto simp: told_same)
  ultimately show ?thesis using u(1,3) by (intro exI [of _ u] exI [of _ v]) simp
qed

lemma until_last:
  assumes w: "waits_for s n t pid y c cl" and sid: "e \<noteq> Exited (-1) \<longrightarrow> session_get os pid = Some sid"
    and unpack: "unpack_ok unpack" and groups: "concat groups = before_last e @ [lst]" "[] \<notin> set groups"
    and read: "\<And>i. i < length groups \<Longrightarrow> recv_child os (nreads s + i) = Message (unpack (groups ! i))"
    and lst: "sp_type lst \<noteq> SETUP_DONE"
  shows "\<exists>u x. awaiting s t (y\<lparr>try_pid := pid, st_session := x\<rparr>) u \<and> recv_child os (nreads u) = Message lst \<and>
    trace u = trace s @ activations sid (map unpack groups) \<and>
    (\<forall>v. manager_iter n (fd_dispatch os) (only_ready (com_read y)) u = Inr (Running v) \<longrightarrow> \<not> stop v \<longrightarrow>
       manager_run n (fd_dispatch os) (replicate (length groups) (only_ready (com_read y))) s = Inr (Running v))"
proof -
  let ?ready = "only_ready (com_read y)"
  obtain gs g where g: "groups = gs @ [g @ [lst]]" "concat gs @ g = before_last e"
    using last_group [OF groups] by blast
  have sub: "set (concat gs) \<subseteq> set (before_last e)" "set g \<subseteq> set (before_last e)" unfolding g(2) [symmetric] by auto
  have gs: "[] \<notin> set gs" using groups(2) unfolding g(1) by simp
  have rd: "recv_child os (nreads s + i) = Message (unpack (gs ! i))" if "i < length gs" for i
    using read [of i] that unfolding g(1) by (simp add: nth_append)
  obtain u x where u: "manager_run n (fd_dispatch os) (replicate (length gs) ?ready @ [?ready]) s =
      manager_run n (fd_dispatch os) [?ready] u" "awaiting s t (y\<lparr>try_pid := pid, st_session := x\<rparr>) u"
    "nreads u = nreads s + length gs" "trace u = trace s @ activations sid (map unpack gs)"
    using waiting_reads [OF w sid unpack sub(1) gs rd, where sels = "[?ready]"] by blast
  have l: "unpack (g @ [lst]) = lst" by (rule unpack_last [OF unpack sub(2)])
  have "recv_child os (nreads u) = Message lst" using read [of "length gs"] u(3) l by (simp add: g(1))
  moreover have "activations sid (map unpack groups) = activations sid (map unpack gs)"
    using l lst by (simp add: g(1) activations_def)
  moreover have "\<not> stop u" using awaiting_keeps(6) [OF u(2)] waits_for_facts(4) [OF w] by simp
  ultimately show ?thesis using u run_turn [where sels = "[]"]
    by (intro exI [of _ u] exI [of _ x]) (simp add: g(1) replicate_append_same)
qed

subsection \<open>Properties\<close>

text \<open>C4: A login from end to end, however the daemon comes to read it. Where PAM only asks, take a child that
  runs to the end of its process and a daemon that has started it for a client. Let the daemon read
  any part of what the child has written, any number of messages at a time. If that was all of it
  and the child has not given up, the client has been told of the success, sent away and freed, the
  try is freed and the greeter of its seat marked to end. Otherwise the delivery of the child's exit
  tells the client that the login failed, and leaves it connected and free to try again; the reason
  is the child's own if the child has given up and it was read before the exit, and none if the exit
  came first. The session is brought to the front exactly if \<open>SETUP_DONE\<close> was the last message of a
  read. Nothing else is sent or done in any case.\<close>

theorem login_outcome:
  fixes s :: "'a daemon_scheme"
  assumes child: "child_main os co argv t tty s0 = Some (Inr (e, w))" "tries s0 t = Some y" "quiet_pam co"
    and pipe: "view heard (trace w) = view heard (trace s0) @ map (Pair (com_write y)) msgs"
    and groups: "concat groups = take k msgs" "[] \<notin> set groups" and unpack: "unpack_ok unpack"
    and read: "\<And>i. i < length groups \<Longrightarrow> recv_child os (nreads s + i) = Message (unpack (groups ! i))"
    and waits: "waits_for s n t (ch_getpid co) y c cl" and seat: "seat_get os (cl_pid cl) = Some seat"
    and a: "greeters s = Live_ptr a" and i: "find_index (\<lambda>g. g_seat g = seat) (cells a) = Some i"
  shows "\<exists>sid u. (e \<noteq> Exited (-1) \<longrightarrow> current_session_get os co = Some sid) \<and>
    manager_run n (fd_dispatch os) (replicate (length groups) (only_ready (com_read y))) s = Inr (Running u) \<and>
    (if e \<noteq> Exited (-1) \<and> concat groups = msgs
     then trace u = trace s @ activations sid (map unpack groups) @ told_success y cl \<and>
        clients u = (clients s)(c := None) \<and> tries u = (tries s)(t := None) \<and>
        greeters u = Live_ptr (tarray_set a i ((cells a ! i)\<lparr>g_end := True\<rparr>))
     else \<exists>v why. child_exit os n SIGCHLD [(ch_getpid co, status)] u = Inr v \<and>
        trace v = trace s @ activations sid (map unpack groups) @ told_failure y cl why \<and>
        (if e = Exited (-1) \<and> concat groups = msgs
         then why \<noteq> None \<and> Service_message (com_write y) \<lparr>sp_type = ERROR_EXIT, sp_exit = why\<rparr> \<in> set (trace w)
         else why = None) \<and>
        clients v = (clients s)(c \<mapsto> cl\<lparr>cl_try := None\<rparr>) \<and> tries v = (tries s)(t := None) \<and> greeters v = greeters s)"
proof -
  note w = waits_for_facts [OF waits]
  obtain sid why lst where sid: "e \<noteq> Exited (-1) \<longrightarrow> current_session_get os co = Some sid"
    and msgs: "msgs = before_last e @ [lst]"
      "lst = (if e = Exited (-1) then \<lparr>sp_type = ERROR_EXIT, sp_exit = Some why\<rparr> else \<lparr>sp_type = SESSION_ACTIVE, sp_exit = None\<rparr>)"
    using child_messages [OF child pipe] by blast
  have sid': "e \<noteq> Exited (-1) \<longrightarrow> session_get os (ch_getpid co) = Some sid" using sid by (simp add: current_session_get_def)
  show ?thesis
  proof (cases "concat groups = msgs")
    case False
    have "set (concat groups) \<subseteq> set (before_last e)"
      using groups(1) msgs(1) False by (cases "k \<le> length (before_last e)") (auto dest: in_set_takeD)
    from partly_read [OF waits sid' unpack this groups(2) read, of status] show ?thesis using False sid by auto
  next
    case True
    with until_last [OF waits sid' unpack _ groups(2) read, of lst] msgs obtain u x where
      u: "awaiting s t (y\<lparr>try_pid := ch_getpid co, st_session := x\<rparr>) u" "recv_child os (nreads u) = Message lst"
      "trace u = trace s @ activations sid (map unpack groups)"
      and run: "\<And>v. manager_iter n (fd_dispatch os) (only_ready (com_read y)) u = Inr (Running v) \<Longrightarrow> \<not> stop v \<Longrightarrow>
        manager_run n (fd_dispatch os) (replicate (length groups) (only_ready (com_read y))) s = Inr (Running v)"
      by (auto split: if_splits)
    show ?thesis
    proof (cases "e = Exited (-1)")
      case e: True
      with error_read [OF u(1) w(1-3,5), of os why] u(2) w(7) msgs(2) obtain v where
        v: "manager_iter n (fd_dispatch os) (only_ready (com_read y)) u = Inr (Running v)" "trace v = trace u"
        "undecided s t (y\<lparr>try_pid := ch_getpid co, st_session := x, error_msg := Some why\<rparr>) v" by auto
      have "Service_message (com_write y) \<lparr>sp_type = ERROR_EXIT, sp_exit = Some why\<rparr> \<in> set (trace w)"
        using pipe msgs e by (simp flip: heard_mem)
      moreover have "of_client (y\<lparr>try_pid := ch_getpid co, st_session := x, error_msg := Some why\<rparr>) c"
        using w(14) [of x] by (simp add: of_client_def)
      moreover have "\<not> stop v" using v(3) w(4) by (simp add: undecided_def)
      ultimately show ?thesis
        using exit_read [OF v(3) w(9-11) _ _ _ w(8), of os status] run [OF v(1)] w(12,13) v(2) u(3) e True
        by (intro exI [of _ sid] exI [of _ v]) (auto simp: told_same)
    next
      case e: False
      with active_read [OF u(1) w(1-3,5) _ _ w(14,8) seat a i] u(2) w(7) msgs(2) obtain v where
        v: "manager_iter n (fd_dispatch os) (only_ready (com_read y)) u = Inr (Running v)"
        "trace v = trace u @ told_success y cl" "clients v = (clients s)(c := None)" "tries v = (tries s)(t := None)"
        "greeters v = Live_ptr (tarray_set a i ((cells a ! i)\<lparr>g_end := True\<rparr>))" "stop v = stop s"
        by (auto simp: told_same)
      then show ?thesis using run [OF v(1)] w(4) u(3) e True sid by auto
    qed
  qed
qed

definition waiting_for_bob :: daemon where
  "waiting_for_bob = starting_bob\<lparr>tries := [0 \<mapsto> bobs_try\<lparr>try_pid := 100\<rparr>], next_try := 1,
     clients := [0 \<mapsto> \<lparr>cl_fd = 5, cl_pid = 50, cl_try = Some 0\<rparr>], next_client := 1,
     greeters := Live_ptr \<lparr>cells = [\<lparr>g_seat = ''seat0'', run_gen = 0, run_try = None, run_pid = 90, g_end = False\<rparr>], blk = 1\<rparr>,
     fds := \<lparr>cells = [\<lparr>reg_cb = Some Client_data, reg_fd = 5, reg_data = Client_ref 0\<rparr>,
       \<lparr>reg_cb = Some Child_data, reg_fd = 7, reg_data = Try_ref 0\<rparr>], blk = 2\<rparr>,
     pending := \<lparr>cells = [\<lparr>w_pid = 100, w_handler = Some Spawned_session_disappear, w_data = Try_ref 0\<rparr>], blk = 1\<rparr>\<rparr>"

definition bobs_messages :: "spawn_message list" where
  "bobs_messages = map (\<lambda>ty. \<lparr>sp_type = ty, sp_exit = None\<rparr>) [CONNECT, SETUP_DONE, SESSION_ACTIVE]"

definition relaying_os :: "spawn_message list \<Rightarrow> os" where
  "relaying_os msgs = forked_os\<lparr>recv_child := (\<lambda>k. if k < length msgs then Message (msgs ! k) else Closed_by_peer)\<rparr>"

lemma waiting_for_bob_resting: "resting waiting_for_bob"
  by (simp add: waiting_for_bob_def bobs_try_def starting_bob_def tty_registered_def globals_def resting_def
      daemon_inv_def refs_ok_def fd_refs_ok_def wait_refs_ok_def fresh_ok_def gens_ok_def tidy_def reg_ok_def
      live_def listeners_def nulls_def zeroed_def tarray_new_def no_cb_def no_handler_def)

definition last_fields :: "spawn_message list \<Rightarrow> spawn_message" where
  "last_fields ms = \<lparr>sp_type = sp_type (last ms), sp_exit = fold (\<lambda>m x. if sp_exit m = None then x else sp_exit m) ms None\<rparr>"

lemma last_fields_ok: "unpack_ok last_fields"
  by (simp add: unpack_ok_def last_fields_def)

text \<open>The second and the third message are read together: the client is told of a success, and nothing was activated.\<close>

definition bobs_reads :: "spawn_message list list" where
  "bobs_reads = [take 1 bobs_messages, drop 1 bobs_messages]"

lemma login_outcome_witness:
  "\<exists>w u. child_main (relaying_os (map last_fields bobs_reads)) (example_child_os ask_password) [''sp-daemon''] 0 ''/dev/tty11'' starting_bob
      = Some (Inr (Replaced, w)) \<and>
    manager_run 2 (fd_dispatch (relaying_os (map last_fields bobs_reads))) (replicate 2 (only_ready 7)) waiting_for_bob = Inr (Running u) \<and>
    clients u 0 = None \<and> trace u = told_success bobs_try \<lparr>cl_fd = 5, cl_pid = 50, cl_try = Some 0\<rparr>"
proof -
  let ?os = "relaying_os (map last_fields bobs_reads)" and ?co = "example_child_os ask_password"
  let ?s = waiting_for_bob and ?cl = "\<lparr>cl_fd = 5, cl_pid = 50, cl_try = Some 0\<rparr>"
  let ?a = "\<lparr>cells = [\<lparr>g_seat = ''seat0'', run_gen = 0, run_try = None, run_pid = 90, g_end = False\<rparr>], blk = 1\<rparr>"
  have "case child_main ?os ?co [''sp-daemon''] 0 ''/dev/tty11'' starting_bob of
      Some (Inr (Replaced, w)) \<Rightarrow> view heard (trace w) = map (Pair 8) bobs_messages | _ \<Rightarrow> False" by code_simp
  then obtain w where w: "child_main ?os ?co [''sp-daemon''] 0 ''/dev/tty11'' starting_bob = Some (Inr (Replaced, w))"
    "view heard (trace w) = map (Pair 8) bobs_messages"
    by (auto split: option.splits sum.splits prod.splits proc_end.splits)
  have y: "tries starting_bob 0 = Some bobs_try" "com_write bobs_try = 8" "com_read bobs_try = 7"
    "of_client bobs_try 0" "error_msg bobs_try = None" "trace starting_bob = []"
    by (simp_all add: bobs_try_def starting_bob_def tty_registered_def globals_def of_client_def)
  have q: "quiet_pam ?co"
    by (simp add: quiet_pam_def example_child_os_def ask_password_def quiet_talk_ask quiet_talk.result)
  have pid: "ch_getpid ?co = 100" by (simp add: example_child_os_def)
  have s: "\<not> stop ?s" "fds_len ?s \<le> 2" "pending_len ?s \<le> 2" "tries ?s 0 = Some (bobs_try\<lparr>try_pid := ch_getpid ?co\<rparr>)"
    "(com_read bobs_try, Child_data, Try_ref 0) \<in> set (live ?s)"
    "filter (\<lambda>l. fst l = ch_getpid ?co) (listeners ?s) = [(ch_getpid ?co, Spawned_session_disappear, Try_ref 0)]"
    "0 < ch_getpid ?co" "clients ?s 0 = Some ?cl" "greeters ?s = Live_ptr ?a" "nreads ?s = 0" "trace ?s = []"
    by (simp_all add: waiting_for_bob_def pid y live_def listeners_def no_cb_def no_handler_def
        starting_bob_def tty_registered_def globals_def)
  have groups: "concat bobs_reads = take 3 bobs_messages" "[] \<notin> set bobs_reads" "length bobs_reads = 2"
    "concat bobs_reads = bobs_messages" "activations sid (map last_fields bobs_reads) = []" for sid
    by (simp_all add: bobs_reads_def bobs_messages_def activations_def last_fields_def)
  have read: "recv_child ?os (nreads ?s + i) = Message (last_fields (bobs_reads ! i))" if "i < length bobs_reads" for i
    using that s(10) by (simp add: relaying_os_def)
  have seat: "seat_get ?os (cl_pid ?cl) = Some ''seat0''"
    by (simp add: relaying_os_def forked_os_def example_os_def seat_get_def session_get_def)
  have pipe: "view heard (trace w) = view heard (trace starting_bob) @ map (Pair (com_write bobs_try)) bobs_messages"
    using w(2) y by simp
  have i: "find_index (\<lambda>g. g_seat g = ''seat0'') (cells ?a) = Some 0" by simp
  have "waits_for ?s 2 0 (ch_getpid ?co) bobs_try 0 ?cl"
    unfolding waits_for_def using waiting_for_bob_resting s y(4,5) by blast
  from login_outcome [OF w(1) y(1) q pipe groups(1,2) last_fields_ok read this seat s(9) i]
  show ?thesis using w(1) y(3) s(11) groups(3-5) by fastforce
qed

end
