(* ===== verification/Desktop.thy ===== *)
theory Desktop
  imports Templatereg
begin

section \<open>Desktop entries: \<open>sp-daemon/desktop_common.c\<close> and the three sources of templates\<close>

text \<open>
  At its start the daemon registers a template for a plain terminal and one for every desktop entry
  it finds in four directories. Reading a directory and parsing an ini file are the record
  \<open>desk_os\<close>: \<open>ini_parse\<close> of the inih library answers 0 or an error, after having called the handler
  for each line it understood.

  \<open>parse_dir\<close> compares the last eight bytes of a name with the extension. For a shorter name (every
  directory has two) these start before the field \<open>d_name\<close>; \<open>d_before\<close> are the bytes of the entry
  in front of it.
\<close>

record dirent =
  d_before :: string
  d_name :: string

record desk_os =
  dk_opendir :: "string \<Rightarrow> dirent list option"
  dk_ini :: "string \<Rightarrow> int \<times> (string \<times> string \<times> string) list"

record session_file =
  sf_name :: "string option"
  sf_exec :: "string option"
  sf_icon :: "string option"

definition EXT :: string where "EXT = ''.desktop''"

subsection \<open>One file\<close>

definition parse_file_handler :: "string \<times> string \<times> string \<Rightarrow> session_file \<Rightarrow> session_file" where
  "parse_file_handler ev x =
     (case ev of (sect, name, val) \<Rightarrow>
        if name = ''Name'' then x\<lparr>sf_name := Some val\<rparr>
        else if name = ''Exec'' then x\<lparr>sf_exec := Some val\<rparr>
        else if name = ''Icon'' then x\<lparr>sf_icon := Some val\<rparr>
        else x)"

definition parse_ini_verbose :: "desk_os \<Rightarrow> string \<Rightarrow> session_file \<Rightarrow> bool \<times> session_file" where
  "parse_ini_verbose dk path user =
     (let ret = fst (dk_ini dk path); u = fold parse_file_handler (snd (dk_ini dk path)) user
      in if ret = 0 then (True, u) else (False, u))"

definition parse_file ::
  "desk_os \<Rightarrow> string \<Rightarrow> string \<Rightarrow> fire_up \<Rightarrow> 'a templates_scheme \<Rightarrow> 'a templates_scheme res" where
  "parse_file dk path type fire s =
     (let (ok, x) = parse_ini_verbose dk path \<lparr>sf_name = None, sf_exec = None, sf_icon = None\<rparr>
      in if \<not> ok then Inr s
         else let reg = (if sf_exec x = None then False else if sf_name x = None then False else True)
              in if reg
                 then bindR (template_register (sf_name x) (sf_icon x) (Some type) (Some fire) (sf_exec x) s)
                        (\<lambda>(_, s1). Inr s1)
                 else Inr s)"

subsection \<open>One directory\<close>

definition ends_in_ext :: "dirent \<Rightarrow> bool" where
  "ends_in_ext e =
     (let len = length (d_name e)
      in if len \<ge> length EXT then drop (len - length EXT) (d_name e) = EXT
         else drop (length (d_before e) - (length EXT - len)) (d_before e) @ d_name e = EXT)"

definition dir_entry_path :: "string \<Rightarrow> dirent \<Rightarrow> string" where
  "dir_entry_path dir e = snprintf (length dir + 1 + length (d_name e) + 1) (dir @ ''/'' @ d_name e)"

definition parse_dir ::
  "desk_os \<Rightarrow> string \<Rightarrow> string \<Rightarrow> fire_up \<Rightarrow> 'a templates_scheme \<Rightarrow> 'a templates_scheme res" where
  "parse_dir dk dir type fire s =
     (case dk_opendir dk dir of
        None \<Rightarrow> Inr s
      | Some entries \<Rightarrow>
          foldR (\<lambda>e s. if ends_in_ext e then parse_file dk (dir_entry_path dir e) type fire s else Inr s) entries s)"

subsection \<open>The three sources\<close>

definition tty_template_init :: "'a templates_scheme \<Rightarrow> 'a templates_scheme res" where
  "tty_template_init s =
     bindR (template_register (Some ''tty'') (Some ''utilities-terminal'') (Some ''tty'') (Some Tty_Fire_Up) None s)
       (\<lambda>(_, s1). Inr s1)"

definition x11_template_init :: "desk_os \<Rightarrow> 'a templates_scheme \<Rightarrow> 'a templates_scheme res" where
  "x11_template_init dk s =
     bindR (parse_dir dk ''/usr/share/xsessions/'' ''x11'' X11_Fire_Up s)
       (parse_dir dk ''/usr/local/share/xsessions/'' ''x11'' X11_Fire_Up)"

definition wl_template_init :: "desk_os \<Rightarrow> 'a templates_scheme \<Rightarrow> 'a templates_scheme res" where
  "wl_template_init dk s =
     bindR (parse_dir dk ''/usr/share/wayland-sessions/'' ''wayland'' Wl_Fire_Up s)
       (parse_dir dk ''/usr/local/share/wayland-sessions/'' ''wayland'' Wl_Fire_Up)"

definition templates_init :: "desk_os \<Rightarrow> 'a templates_scheme \<Rightarrow> 'a templates_scheme res" where
  "templates_init dk s = bindR (tty_template_init s) (\<lambda>s. bindR (x11_template_init dk s) (wl_template_init dk))"

subsection \<open>What ends up in the registry\<close>

text \<open>
  The specification: a file gives a template if it can be parsed and has a name and a command; of
  several definitions of a key the last one counts, in whatever section it is.
\<close>

type_synonym template_content = "string \<times> string option \<times> string \<times> fire_up \<times> string option"

definition content :: "template \<Rightarrow> template_content" where
  "content t = (t_name t, t_icon t, t_type t, t_cb t, t_data t)"

definition last_value :: "string \<Rightarrow> (string \<times> string \<times> string) list \<Rightarrow> string option" where
  "last_value key evs = map_of (rev (map snd evs)) key"

definition file_content :: "desk_os \<Rightarrow> string \<Rightarrow> fire_up \<Rightarrow> string \<Rightarrow> template_content option" where
  "file_content dk type fire path =
     (case dk_ini dk path of (ret, evs) \<Rightarrow>
        if ret \<noteq> 0 then None
        else (case (last_value ''Name'' evs, last_value ''Exec'' evs) of
                (Some name, Some cmd) \<Rightarrow> Some (name, last_value ''Icon'' evs, type, fire, Some cmd)
              | _ \<Rightarrow> None))"

definition dir_files :: "desk_os \<Rightarrow> string \<Rightarrow> string list" where
  "dir_files dk dir =
     (case dk_opendir dk dir of None \<Rightarrow> [] | Some es \<Rightarrow> map (\<lambda>e. dir @ ''/'' @ d_name e) (filter ends_in_ext es))"

definition dir_contents :: "desk_os \<Rightarrow> string \<Rightarrow> fire_up \<Rightarrow> string \<Rightarrow> template_content list" where
  "dir_contents dk type fire dir = List.map_filter (file_content dk type fire) (dir_files dk dir)"

definition all_contents :: "desk_os \<Rightarrow> template_content list" where
  "all_contents dk =
     (''tty'', Some ''utilities-terminal'', ''tty'', Tty_Fire_Up, None) #
     dir_contents dk ''x11'' X11_Fire_Up ''/usr/share/xsessions/'' @
     dir_contents dk ''x11'' X11_Fire_Up ''/usr/local/share/xsessions/'' @
     dir_contents dk ''wayland'' Wl_Fire_Up ''/usr/share/wayland-sessions/'' @
     dir_contents dk ''wayland'' Wl_Fire_Up ''/usr/local/share/wayland-sessions/''"

lemma handler_last_value:
  "fold parse_file_handler evs x =
     \<lparr>sf_name = (case last_value ''Name'' evs of None \<Rightarrow> sf_name x | Some v \<Rightarrow> Some v),
      sf_exec = (case last_value ''Exec'' evs of None \<Rightarrow> sf_exec x | Some v \<Rightarrow> Some v),
      sf_icon = (case last_value ''Icon'' evs of None \<Rightarrow> sf_icon x | Some v \<Rightarrow> Some v)\<rparr>"
proof (induction evs arbitrary: x rule: rev_induct)
  case (snoc ev evs)
  then show ?case
    by (cases ev) (auto simp: parse_file_handler_def last_value_def)
qed (simp add: last_value_def)

lemma entry_path: "dir_entry_path dir e = dir @ ''/'' @ d_name e"
  by (simp add: dir_entry_path_def snprintf_fits)

text \<open>
  \<open>adds cs s m\<close>: the step registers templates with these contents behind those there are and leaves
  the registry well formed; the counter tells how many.
\<close>

definition adds :: "template_content list \<Rightarrow> 'a templates_scheme \<Rightarrow> 'a templates_scheme res \<Rightarrow> bool" where
  "adds cs s m \<longleftrightarrow> (tmpl_ok s \<and> unat (counter s) + length cs < 2 ^ 31 \<longrightarrow>
     (\<exists>u. m = Inr u \<and> tmpl_ok u \<and> map content (template_view u) = map content (template_view s) @ cs \<and>
        unat (counter u) = unat (counter s) + length cs \<and>
        (cs \<noteq> [] \<or> (\<exists>a. tmpls s = Live_ptr a) \<longrightarrow> (\<exists>a. tmpls u = Live_ptr a)) \<and>
        u = s\<lparr>tmpls := tmpls u, counter := counter u\<rparr>))"

lemma small_counter:
  assumes "unat (c :: 32 word) + 1 < 2 ^ 31"
  shows "sint c \<noteq> - (2 ^ 31)" and "c < - 1" and "unat (c + 1) = unat c + 1"
proof -
  have "c < 2 ^ 31" using assms by (simp add: word_less_nat_alt)
  then show "sint c \<noteq> - (2 ^ 31)"
  proof (intro notI)
    assume "sint c = - (2 ^ 31)"
    moreover have "word_of_int (sint c) = c" by simp
    ultimately have "c = of_int (- (2 ^ 31))" by simp
    with \<open>c < 2 ^ 31\<close> show False by simp
  qed
  show "unat (c + 1) = unat c + 1" using assms unat_Suc_room [of c] by simp
  show "c < - 1" using assms
    by (simp add: word_less_nat_alt unsigned_minus_1_eq_mask mask_eq_exp_minus_1)
qed

lemma adds_nothing: "adds [] s (Inr s)"
  by (simp add: adds_def)

lemma adds_bind:
  assumes "adds cs s m" and "\<And>t. adds cs' t (g t)"
  shows "adds (cs @ cs') s (bindR m g)"
  unfolding adds_def
proof (intro impI)
  assume pre: "tmpl_ok s \<and> unat (counter s) + length (cs @ cs') < 2 ^ 31"
  then obtain u where u: "m = Inr u" "tmpl_ok u" "map content (template_view u) = map content (template_view s) @ cs"
    "unat (counter u) = unat (counter s) + length cs" "cs \<noteq> [] \<or> (\<exists>a. tmpls s = Live_ptr a) \<longrightarrow> (\<exists>a. tmpls u = Live_ptr a)"
    "u = s\<lparr>tmpls := tmpls u, counter := counter u\<rparr>"
    using assms(1) unfolding adds_def by auto
  with pre have "tmpl_ok u \<and> unat (counter u) + length cs' < 2 ^ 31" by simp
  with assms(2) [of u] obtain v where v: "g u = Inr v" "tmpl_ok v"
    "map content (template_view v) = map content (template_view u) @ cs'"
    "unat (counter v) = unat (counter u) + length cs'"
    "cs' \<noteq> [] \<or> (\<exists>a. tmpls u = Live_ptr a) \<longrightarrow> (\<exists>a. tmpls v = Live_ptr a)"
    "v = u\<lparr>tmpls := tmpls v, counter := counter v\<rparr>"
    unfolding adds_def by blast
  from v(6) u(6) have "v = s\<lparr>tmpls := tmpls v, counter := counter v\<rparr>" 
    by (cases s; cases u; cases v) simp
  with u v show "\<exists>u. bindR m g = Inr u \<and> tmpl_ok u \<and>
      map content (template_view u) = map content (template_view s) @ cs @ cs' \<and>
      unat (counter u) = unat (counter s) + length (cs @ cs') \<and>
      (cs @ cs' \<noteq> [] \<or> (\<exists>a. tmpls s = Live_ptr a) \<longrightarrow> (\<exists>a. tmpls u = Live_ptr a)) \<and>
      u = s\<lparr>tmpls := tmpls u, counter := counter u\<rparr>"
    by (intro exI [of _ v]) auto
qed

lemma adds_register:
  "adds [(nm, icon, ty, cb, data)] s
     (bindR (template_register (Some nm) icon (Some ty) (Some cb) data s) (\<lambda>(_, s1). Inr s1))"
  unfolding adds_def
proof (intro impI)
  assume "tmpl_ok s \<and> unat (counter s) + length [(nm, icon, ty, cb, data)] < 2 ^ 31"
  then have ok: "tmpl_ok s" and c: "unat (counter s) + 1 < 2 ^ 31" by simp_all
  note small = small_counter [OF c]
  obtain tid u where r: "template_register (Some nm) icon (Some ty) (Some cb) data s = Inr (tid, u)"
    using register_success [OF ok small(1)] by simp
  note v = register_view [OF ok small(1) r]
  have "u = s\<lparr>tmpls := tmpls u, counter := counter u\<rparr>"
    using r register_success [OF ok small(1), of nm icon ty cb data] by auto
  with r v tmpl_ok_register [OF ok small(1,2) r] small(3)
  show "\<exists>u. bindR (template_register (Some nm) icon (Some ty) (Some cb) data s) (\<lambda>(_, s1). Inr s1) = Inr u \<and>
      tmpl_ok u \<and> map content (template_view u) = map content (template_view s) @ [(nm, icon, ty, cb, data)] \<and>
      unat (counter u) = unat (counter s) + length [(nm, icon, ty, cb, data)] \<and>
      ([(nm, icon, ty, cb, data)] \<noteq> [] \<or> (\<exists>a. tmpls s = Live_ptr a) \<longrightarrow> (\<exists>a. tmpls u = Live_ptr a)) \<and>
      u = s\<lparr>tmpls := tmpls u, counter := counter u\<rparr>"
    by (intro exI [of _ u]) (simp add: content_def)
qed

lemma adds_file:
  "adds (case file_content dk type fire path of None \<Rightarrow> [] | Some c \<Rightarrow> [c]) s (parse_file dk path type fire s)"
proof (cases "dk_ini dk path")
  case (Pair ret evs)
  show ?thesis
  proof (cases "ret = 0 \<and> last_value ''Name'' evs \<noteq> None \<and> last_value ''Exec'' evs \<noteq> None")
    case True
    then obtain nm ex where "last_value ''Name'' evs = Some nm" "last_value ''Exec'' evs = Some ex" by auto
    with True Pair show ?thesis
      using adds_register [of nm "last_value ''Icon'' evs" type fire "Some ex" s]
      by (cases "last_value ''Icon'' evs")
         (simp_all add: parse_file_def parse_ini_verbose_def handler_last_value file_content_def Let_def)
  next
    case False
    with Pair show ?thesis
      by (auto simp: parse_file_def parse_ini_verbose_def handler_last_value file_content_def Let_def adds_nothing
          split: option.split)
  qed
qed

lemma adds_dir: "adds (dir_contents dk type fire dir) s (parse_dir dk dir type fire s)"
proof (cases "dk_opendir dk dir")
  case None
  then show ?thesis by (simp add: parse_dir_def dir_contents_def dir_files_def List.map_filter_simps adds_nothing)
next
  case (Some es)
  let ?step = "\<lambda>e s. if ends_in_ext e then parse_file dk (dir_entry_path dir e) type fire s else Inr s"
  have "adds (List.map_filter (file_content dk type fire) (map (\<lambda>e. dir @ ''/'' @ d_name e) (filter ends_in_ext es)))
      s (foldR ?step es s)" for s :: "'a templates_scheme"
  proof (induction es arbitrary: s)
    case Nil
    then show ?case by (simp add: List.map_filter_simps adds_nothing)
  next
    case (Cons e es)
    have "adds (if ends_in_ext e then (case file_content dk type fire (dir @ ''/'' @ d_name e) of None \<Rightarrow> [] | Some c \<Rightarrow> [c]) else [])
        s (?step e s)"
      by (simp add: adds_file adds_nothing entry_path)
    from adds_bind [OF this Cons.IH] show ?case
      by (auto simp: List.map_filter_simps split: option.splits)
  qed
  with Some show ?thesis by (simp add: parse_dir_def dir_contents_def dir_files_def)
qed

lemma adds_all: "adds (all_contents dk) s (templates_init dk s)"
proof -
  have tty: "adds [(''tty'', Some ''utilities-terminal'', ''tty'', Tty_Fire_Up, None)] t (tty_template_init t)"
    for t :: "'a templates_scheme"
    unfolding tty_template_init_def by (rule adds_register)
  have x11: "adds (dir_contents dk ''x11'' X11_Fire_Up ''/usr/share/xsessions/'' @
      dir_contents dk ''x11'' X11_Fire_Up ''/usr/local/share/xsessions/'') t (x11_template_init dk t)"
    for t :: "'a templates_scheme"
    unfolding x11_template_init_def by (intro adds_bind adds_dir)
  have wl: "adds (dir_contents dk ''wayland'' Wl_Fire_Up ''/usr/share/wayland-sessions/'' @
      dir_contents dk ''wayland'' Wl_Fire_Up ''/usr/local/share/wayland-sessions/'') t (wl_template_init dk t)"
    for t :: "'a templates_scheme"
    unfolding wl_template_init_def by (intro adds_bind adds_dir)
  show ?thesis
    using adds_bind [OF tty adds_bind [OF x11 wl], of s] by (simp add: templates_init_def all_contents_def)
qed

subsection \<open>Properties\<close>

text \<open>C19: The registry after the start holds the plain terminal and then, directory by directory and file by
  file, one template for every desktop entry that can be parsed and has a name and a command, with the
  last definition of each key; nothing else of the state is changed.\<close>

theorem templates_init_registers:
  assumes "tmpl_ok s" and "template_view s = []" and "counter s = 0" and "length (all_contents dk) < 2 ^ 31"
  shows "\<exists>u. templates_init dk s = Inr u \<and> tmpl_ok u \<and> map content (template_view u) = all_contents dk \<and>
    (\<exists>a. tmpls u = Live_ptr a) \<and> unat (counter u) = length (all_contents dk) \<and>
    u = s\<lparr>tmpls := tmpls u, counter := counter u\<rparr>"
proof -
  have "all_contents dk \<noteq> []" by (simp add: all_contents_def)
  with assms adds_all [of dk s] show ?thesis by (simp add: adds_def) blast
qed

definition example_desk :: desk_os where
  "example_desk =
     \<lparr>dk_opendir = (\<lambda>d. if d = ''/usr/share/wayland-sessions/''
        then Some [\<lparr>d_before = replicate 18 CHR ''x'' @ [CHR ''!''], d_name = ''..''\<rparr>,
                   \<lparr>d_before = replicate 18 CHR ''x'' @ [CHR ''!''], d_name = ''sway.desktop''\<rparr>] else None),
      dk_ini = (\<lambda>f. (0, [(''Desktop Entry'', ''Name'', ''Sway''), (''Desktop Entry'', ''Exec'', ''sway'')]))\<rparr>"

lemma templates_init_registers_witness:
  "\<exists>u. templates_init example_desk (empty_templates\<lparr>counter := 0\<rparr>) = Inr u \<and>
     map content (template_view u) =
       [(''tty'', Some ''utilities-terminal'', ''tty'', Tty_Fire_Up, None), (''Sway'', None, ''wayland'', Wl_Fire_Up, Some ''sway'')]"
proof -
  have "all_contents example_desk =
      [(''tty'', Some ''utilities-terminal'', ''tty'', Tty_Fire_Up, None), (''Sway'', None, ''wayland'', Wl_Fire_Up, Some ''sway'')]"
    by code_simp
  moreover have "tmpl_ok (empty_templates\<lparr>counter := 0\<rparr>)" "template_view (empty_templates\<lparr>counter := 0\<rparr>) = []"
    by (simp_all add: tmpl_ok_def template_view_def empty_templates_def)
  ultimately show ?thesis
    using templates_init_registers [of "empty_templates\<lparr>counter := 0\<rparr>" example_desk] by auto
qed

text \<open>The test for the extension is right for names of eight characters and more; for a shorter name it
  compares bytes in front of the name, and is right as long as the byte before the name (the type of
  the entry) is no character of the extension.\<close>

theorem ends_in_ext_is_suffix:
  assumes "d_name e \<noteq> []" and "length (d_before e) \<ge> 8" and "last (d_before e) \<notin> set EXT"
  shows "ends_in_ext e \<longleftrightarrow> (\<exists>stem. d_name e = stem @ EXT)"
proof (cases "length (d_name e) \<ge> length EXT")
  case True
  have "drop (length (d_name e) - length EXT) (d_name e) = EXT \<longleftrightarrow> (\<exists>stem. d_name e = stem @ EXT)"
    using True by (metis append_eq_conv_conj append_take_drop_id length_drop diff_diff_cancel diff_add_inverse2 length_append)
  with True show ?thesis by (simp add: ends_in_ext_def)
next
  case False
  let ?k = "length EXT - length (d_name e)"
  have len: "length EXT = 8" by (simp add: EXT_def)
  then have k: "0 < ?k" "?k \<le> length (d_before e)" using False assms(2) by auto
  have "drop (length (d_before e) - ?k) (d_before e) @ d_name e \<noteq> EXT"
  proof
    assume eq: "drop (length (d_before e) - ?k) (d_before e) @ d_name e = EXT"
    have "drop (length (d_before e) - ?k) (d_before e) \<noteq> []" using k by simp
    then have "last (d_before e) \<in> set (drop (length (d_before e) - ?k) (d_before e))"
      by (metis last_drop last_in_set drop_eq_Nil not_le)
    with eq have "last (d_before e) \<in> set EXT" by (metis UnI1 set_append)
    with assms(3) show False by blast
  qed
  moreover have "\<not> (\<exists>stem. d_name e = stem @ EXT)" using False by auto
  ultimately show ?thesis using False by (simp add: ends_in_ext_def)
qed

lemma ends_in_ext_is_suffix_witness:
  "\<not> ends_in_ext \<lparr>d_before = replicate 18 CHR ''x'' @ [CHR ''!''], d_name = ''desktop''\<rparr>"
proof -
  let ?e = "\<lparr>d_before = replicate 18 CHR ''x'' @ [CHR ''!''], d_name = ''desktop''\<rparr>"
  have "d_name ?e \<noteq> []" "length (d_before ?e) \<ge> 8" "last (d_before ?e) \<notin> set EXT" by (simp_all add: EXT_def)
  from ends_in_ext_is_suffix [OF this] show ?thesis by (auto simp: EXT_def Cons_eq_append_conv append_eq_Cons_conv)
qed

end
