(* ===== verification/Daemon_Main.thy ===== *)
theory Daemon_Main
  imports Daemon_Loop Session_Child Desktop
begin

section \<open>The program: \<open>sp-daemon/main.c\<close>\<close>

text \<open>
  The order in which \<open>main\<close> brings the components up, runs the loop and takes them down, over the
  answers of the system each of them needs. \<open>False\<close> from the first part means that the process has
  ended with an error. The lemmas lead from the globals at program start to the invariant of theory
  \<open>Daemon_Loop\<close>.
\<close>

fun parse_daemon_args :: "string list \<Rightarrow> 'a world_scheme \<Rightarrow> bool \<times> 'a world_scheme" where
  "parse_daemon_args [] s = (True, s)"
| "parse_daemon_args (arg # args) s =
     (if arg = ''--debug'' \<or> arg = ''-d'' then parse_daemon_args args (s\<lparr>debug := True\<rparr>)
      else if arg = ''--no-greeter-restart'' then parse_daemon_args args (s\<lparr>no_greeter_restart := True\<rparr>)
      else (False, s))"

definition parse_args :: "string list \<Rightarrow> 'a world_scheme \<Rightarrow> bool \<times> 'a world_scheme" where
  "parse_args argv s = parse_daemon_args (tl argv) (s\<lparr>debug := False, no_greeter_restart := False\<rparr>)"

record main_os =
  mo_getuid :: int
  mo_getpid :: int
  mo_socket :: socket_os
  mo_users :: user_os
  mo_desk :: desk_os

definition init_check :: "os \<Rightarrow> main_os \<Rightarrow> bool" where
  "init_check os mo =
     (if mo_getuid mo \<noteq> 0 then False
      else if session_get os (mo_getpid mo) \<noteq> None then False
      else True)"

text \<open>\<open>log_init\<close>, \<open>spawnservice_init\<close> and \<open>signal\<close> only install what the loop's steps stand for.\<close>

definition main_setup :: "os \<Rightarrow> main_os \<Rightarrow> string list \<Rightarrow> 'a daemon_scheme \<Rightarrow> (bool \<times> 'a daemon_scheme) res" where
  "main_setup os mo argv s0 =
     (case parse_args argv s0 of
        (False, s) \<Rightarrow> Inr (False, s)
      | (True, s) \<Rightarrow>
          if \<not> init_check os mo then Inr (False, s)
          else bindR (templates_init (mo_desk mo) (spawnregistery_init (greeter_init (manager_init s))))
                 (server_init (mo_socket mo) (mo_users mo)))"

text \<open>The two arrays that are freed without their pointers being reset are not touched afterwards.\<close>

definition main_finish :: "'a daemon_scheme \<Rightarrow> 'a daemon_scheme res" where
  "main_finish s = bindR (server_shutdown s) (\<lambda>s1. template_shutdown (greeter_shutdown s1))"

definition daemon_main ::
  "os \<Rightarrow> main_os \<Rightarrow> string list \<Rightarrow> nat \<Rightarrow> select_call list \<Rightarrow> 'a daemon_scheme \<Rightarrow> 'a daemon_scheme run_state res" where
  "daemon_main os mo argv n sels s0 =
     bindR (main_setup os mo argv s0)
       (\<lambda>(ok, s). if \<not> ok then Inr (run_state.Returned (-1) s)
          else bindR (manager_run n (fd_dispatch os) sels s)
                 (\<lambda>r. case r of
                        run_state.Returned v t \<Rightarrow> bindR (main_finish t) (\<lambda>u. Inr (run_state.Returned 0 u))
                      | Running t \<Rightarrow> Inr (Running t)))"

subsection \<open>What the start leaves alone\<close>

lemma mkpath_frame: "mkpath so path s = Inr (ret, u) \<Longrightarrow> world.more u = world.more s \<and> debug u = debug s"
proof (induction so path s arbitrary: ret u rule: mkpath.induct)
  case (1 so path s)
  have last: "mkdir_last so path t = (ret, u) \<Longrightarrow> world.more u = world.more t \<and> debug u = debug t" for t ret u
    by (auto simp: mkdir_last_def split: if_splits)
  from "1.prems" show ?case
    by (subst (asm) mkpath.simps)
       (auto simp: Let_def elim!: bindR_InrE dest!: "1.IH" [rotated 3] last split: if_splits)
qed

text \<open>The making of the socket reaches neither the registrations nor what the daemon offers.\<close>

lemma same_core_more:
  fixes s t :: "'a daemon_scheme"
  shows "world.more t = world.more s \<Longrightarrow> same_core s t"
  by (cases s; cases t) (simp add: same_core_def stock_def)

lemma same_core_trans: "same_core s t \<Longrightarrow> same_core t u \<Longrightarrow> same_core s u"
  by (simp add: same_core_def stock_def)

lemma same_core_emit: "same_core s (emit e s)"
  by (rule same_core_more) simp

lemma same_core_sock: "same_core s (s\<lparr>server_sock := fd\<rparr>)"
  by (simp add: same_core_def stock_def)

lemma socket_setup_rest:
  assumes "socket_setup so s = Inr (ok, t)"
  shows "same_core s t"
proof -
  let ?s1 = "s\<lparr>server_sock := prefetch_server_socket so\<rparr>"
  have emits: "same_core u v \<Longrightarrow> same_core u (emit e v)" for u v :: "'a daemon_scheme" and e
    using same_core_trans same_core_emit by blast
  have made: "same_core s (u\<lparr>server_sock := fd\<rparr>)" if "mkdirpath so p ?s1 = Inr u" for p u fd
  proof -
    from that obtain ret where "mkpath so (c_dirname p) ?s1 = Inr (ret, u)"
      by (auto simp: mkdirpath_def elim!: bindR_InrE)
    then have "same_core ?s1 u" by (intro same_core_more) (simp add: mkpath_frame)
    then show ?thesis using same_core_trans same_core_sock by blast
  qed
  show ?thesis
  proof (cases "prefetch_server_socket so = 0")
    case True
    with assms show ?thesis
      by (auto simp: socket_setup_def Let_def elim!: bindR_InrE intro!: emits made split: if_splits)
  next
    case False
    with assms show ?thesis by (auto simp: socket_setup_def Let_def same_core_sock)
  qed
qed

text \<open>The globals as the C program has them at its start, whatever the configuration and the files.\<close>

definition at_start :: "'a daemon_scheme \<Rightarrow> bool" where
  "at_start s \<longleftrightarrow> tries s = Map.empty \<and> clients s = Map.empty \<and> tmpls s = Null_ptr \<and> counter s = 0 \<and>
     ctx (udb s) = Null_ptr \<and> \<not> readout s \<and> \<not> eval_mode s \<and> changes s = 0 \<and> \<not> stop s"

lemma parse_args_rest:
  fixes s t :: "'a daemon_scheme"
  assumes "parse_args argv s = (ok, t)"
  shows "world.more t = world.more s"
proof -
  have "parse_daemon_args args u = (ok, t) \<Longrightarrow> world.more t = world.more u" for args and u :: "'a daemon_scheme"
    by (induction args u rule: parse_daemon_args.induct) (auto split: if_splits)
  with assms show ?thesis by (fastforce simp: parse_args_def)
qed

text \<open>One listener on the server's socket, and nothing else.\<close>

lemma resting_fresh:
  assumes "live s = [(fd, Accept_ready, Null_ref)]" and "nulls s = 0" and "cells (pending s) = []"
    and "tries s = Map.empty" and "clients s = Map.empty" and "greeters s = Live_ptr tarray_new"
    and "\<not> readout s" and "\<not> eval_mode s" and "changes s = 0"
  shows "resting s"
  using assms
  by (simp add: resting_def daemon_inv_def refs_ok_def fd_refs_ok_def wait_refs_ok_def fresh_ok_def gens_ok_def
      tidy_def reg_ok_def listeners_def zeroed_def tarray_new_def)

text \<open>What holds when \<open>main\<close> enters its loop.\<close>

lemma main_setup_start:
  assumes "main_setup os mo argv s0 = Inr (True, s)" and "at_start s0"
    and "length (all_contents (mo_desk mo)) < 2 ^ 31"
  shows "resting s \<and> live s = [(server_sock s, Accept_ready, Null_ref)] \<and> listeners s = [] \<and>
    tmpl_ok s \<and> map content (template_view s) = all_contents (mo_desk mo) \<and>
    clients s = Map.empty \<and> tries s = Map.empty \<and>
    mo_getuid mo = 0 \<and> session_get os (mo_getpid mo) = None \<and>
    (\<exists>k. user_db_init (mo_users mo) (udb s0) = Inr (k, udb s))"
proof -
  obtain s1 where p: "parse_args argv s0 = (True, s1)"
    using assms(1) by (auto simp: main_setup_def split: prod.splits bool.splits)
  let ?s2 = "spawnregistery_init (greeter_init (manager_init s1))"
  obtain s3 where chk: "init_check os mo" and t: "templates_init (mo_desk mo) ?s2 = Inr s3"
    and srv: "server_init (mo_socket mo) (mo_users mo) s3 = Inr (True, s)"
    using assms(1) p by (auto simp: main_setup_def elim!: bindR_InrE split: if_splits)
  have "same_core s0 s1" by (rule same_core_more [OF parse_args_rest [OF p]])
  then have start: "tries s1 = Map.empty" "clients s1 = Map.empty" "tmpls s1 = Null_ptr" "counter s1 = 0"
    "\<not> readout s1" "\<not> eval_mode s1" "changes s1 = 0" "udb s1 = udb s0"
    using assms(2) by (auto simp: same_core_def stock_def at_start_def)
  have s2: "fds ?s2 = tarray_new" "pending ?s2 = tarray_new" "greeters ?s2 = Live_ptr tarray_new"
    "tries ?s2 = Map.empty" "clients ?s2 = Map.empty" "tmpls ?s2 = Null_ptr" "counter ?s2 = 0"
    "\<not> readout ?s2" "\<not> eval_mode ?s2" "changes ?s2 = 0" "udb ?s2 = udb s0"
    by (simp_all add: spawnregistery_init_def greeter_init_def manager_init_def start)
  have "tmpl_ok ?s2" "template_view ?s2 = []" by (simp_all add: tmpl_ok_def template_view_def s2)
  with adds_all [of "mo_desk mo" ?s2] t assms(3) s2(7) have tm: "tmpl_ok s3"
    "map content (template_view s3) = all_contents (mo_desk mo)"
    and s3: "s3 = ?s2\<lparr>tmpls := tmpls s3, counter := counter s3\<rparr>"
    by (auto simp: adds_def)
  obtain s4 db k where sock: "socket_setup (mo_socket mo) s3 = Inr (True, s4)"
    and db: "user_db_init (mo_users mo) (udb s4) = Inr (k, db)" and s: "s = manager_register_fd (server_sock s4) (Some Accept_ready) Null_ref (s4\<lparr>udb := db\<rparr>)"
    using srv by (auto simp: server_init_def elim!: bindR_InrE split: if_splits)
  have "same_core s3 s4" by (rule socket_setup_rest [OF sock])
  moreover have "fds s3 = tarray_new" "pending s3 = tarray_new" "greeters s3 = Live_ptr tarray_new"
    "tries s3 = Map.empty" "clients s3 = Map.empty" "\<not> readout s3" "\<not> eval_mode s3" "changes s3 = 0" "udb s3 = udb s0"
    by (subst s3, simp add: s2)+
  ultimately have s4: "fds s4 = tarray_new" "pending s4 = tarray_new" "greeters s4 = Live_ptr tarray_new"
    "tries s4 = Map.empty" "clients s4 = Map.empty" "\<not> readout s4" "\<not> eval_mode s4" "changes s4 = 0"
    "tmpls s4 = tmpls s3" "counter s4 = counter s3" "udb s4 = udb s0"
    by (simp_all add: same_core_def stock_def)
  have fields: "live s = [(server_sock s, Accept_ready, Null_ref)]" "nulls s = 0" "cells (pending s) = []"
    "tries s = Map.empty" "clients s = Map.empty" "greeters s = Live_ptr tarray_new"
    "\<not> readout s" "\<not> eval_mode s" "changes s = 0" "tmpls s = tmpls s3" "counter s = counter s3" "udb s = db"
    by (simp_all add: s s4 manager_register_fd_def live_def nulls_def tarray_add_def tarray_new_def no_cb_def)
  have "resting s" by (rule resting_fresh [OF fields(1-9)])
  moreover have "tmpl_ok s" "template_view s = template_view s3"
    using tm(1) unfolding tmpl_ok_def template_view_def fields(10,11) by simp_all
  ultimately show ?thesis
    using fields tm chk db s4(11) by (auto simp: init_check_def listeners_def split: if_splits)
qed

definition example_main :: main_os where
  "example_main = \<lparr>mo_getuid = 0, mo_getpid = 60, mo_socket = example_socket, mo_users = bob_os 0,
     mo_desk = example_desk\<rparr>"

lemma at_start_globals: "at_start (globals files)"
  by (simp add: at_start_def globals_def)

lemma example_contents: "map fst (all_contents example_desk) = [''tty'', ''Sway'']"
  by code_simp

lemma example_starts:
  "\<exists>s. main_setup (example_os Closed_by_peer) example_main [''sp-daemon'', ''-d''] (globals []) = Inr (True, s)"
proof -
  have "case main_setup (example_os Closed_by_peer) example_main [''sp-daemon'', ''-d''] (globals []) of
      Inr (True, s) \<Rightarrow> True | _ \<Rightarrow> False" by code_simp
  then show ?thesis by (auto split: sum.splits prod.splits bool.splits)
qed

subsection \<open>Properties\<close>

text \<open>C1: A daemon that has started is sound for ever: where \<open>main\<close> gets as far as its loop, it runs as root and
  outside every session, listens on its socket and on nothing else, and offers one template for the
  terminal and for every desktop entry; and in whatever state it can be found later, the events and
  answers being what they may, every registration points to an allocated object, no descriptor is
  registered twice, no dead entry is left, and whatever callback runs next comes to an end.\<close>

theorem daemon_sound_from_start:
  assumes "main_setup os mo argv s0 = Inr (True, s1)" and "at_start s0"
    and "length (all_contents (mo_desk mo)) < 2 ^ 31" and "kernel_ok os"
  shows "mo_getuid mo = 0 \<and> session_get os (mo_getpid mo) = None \<and>
    live s1 = [(server_sock s1, Accept_ready, Null_ref)] \<and> listeners s1 = [] \<and>
    map content (template_view s1) = all_contents (mo_desk mo) \<and>
    (\<forall>s. reachable os s1 s \<longrightarrow>
       fd_refs_ok s \<and> wait_refs_ok s \<and> distinct (map fst (live s)) \<and> nulls s = 0 \<and> zeroed s = 0 \<and>
       (\<forall>cb d fd. fd_dispatch os cb d fd s \<noteq> Inl Out_Of_Fuel) \<and>
       (\<forall>h d status pid. wait_dispatch os h d status pid s \<noteq> Inl Out_Of_Fuel))"
proof -
  note start = main_setup_start [OF assms(1-3)]
  have "resting s" if "reachable os s1 s" for s
    using reachable_resting [OF assms(4) that] start by blast
  then have "\<forall>s. reachable os s1 s \<longrightarrow> resting s" by blast
  moreover have "fd_refs_ok s \<and> wait_refs_ok s \<and> distinct (map fst (live s)) \<and> nulls s = 0 \<and> zeroed s = 0 \<and>
      (\<forall>cb d fd. fd_dispatch os cb d fd s \<noteq> Inl Out_Of_Fuel) \<and>
      (\<forall>h d status pid. wait_dispatch os h d status pid s \<noteq> Inl Out_Of_Fuel)" if "resting s" for s :: "'a daemon_scheme"
  proof -
    have g: "gens_ok s" using that by (simp add: resting_def daemon_inv_def refs_ok_def)
    show ?thesis using that fd_dispatch_ends [OF g] wait_dispatch_ends [OF g]
      by (auto simp: resting_def daemon_inv_def refs_ok_def tidy_def reg_ok_def ends_def)
  qed
  ultimately show ?thesis using start by blast
qed

lemma daemon_sound_from_start_witness:
  "\<exists>s. main_setup (example_os Closed_by_peer) example_main [''sp-daemon'', ''-d''] (globals []) = Inr (True, s) \<and>
     map t_name (template_view s) = [''tty'', ''Sway''] \<and>
     fd_dispatch (example_os Closed_by_peer) Client_data (Client_ref 0) 5 s \<noteq> Inl Out_Of_Fuel"
proof -
  obtain s where s: "main_setup (example_os Closed_by_peer) example_main [''sp-daemon'', ''-d''] (globals []) = Inr (True, s)"
    using example_starts by blast
  have desk: "mo_desk example_main = example_desk" by (simp add: example_main_def)
  have "length (map fst (all_contents example_desk)) < 2 ^ 31" unfolding example_contents by simp
  then have "length (all_contents (mo_desk example_main)) < 2 ^ 31" by (simp add: desk)
  from daemon_sound_from_start [OF s at_start_globals this example_kernel_ok] reachable.start [of "example_os Closed_by_peer" s]
  have "map content (template_view s) = all_contents example_desk"
    "fd_dispatch (example_os Closed_by_peer) Client_data (Client_ref 0) 5 s \<noteq> Inl Out_Of_Fuel"
    by (auto simp: desk)
  moreover have "map fst (map content ts) = map t_name ts" for ts by (simp add: content_def comp_def)
  ultimately show ?thesis using s example_contents by metis
qed

end
