(* ===== verification/Offers.thy ===== *)
theory Offers
  imports Daemon_Main
begin

section \<open>What a greeter is offered\<close>

text \<open>
  The answer to \<open>HELLO\<close> in terms of what the daemon read when it started: the desktop entries and
  the files of the users. No step of the daemon changes either (\<open>stock\<close> in theory \<open>Daemon\<close>), so
  every greeter is offered the same templates and users, under the same identifiers, however long
  the daemon has been running; only the sessions are asked for anew.
\<close>

subsection \<open>The users of the answer\<close>

definition user_sent :: "os \<Rightarrow> user \<Rightarrow> server_user" where
  "user_sent os u =
     (case Option.bind (u_name u) (getpwnam os) of
        None \<Rightarrow> \<lparr>usr_uid = 0, usr_name = None, usr_icon = None, usr_prefered_session = None\<rparr>
      | Some p \<Rightarrow> \<lparr>usr_uid = pw_uid p, usr_name = Some (pw_name p), usr_icon = field_value ''icon'' u,
                   usr_prefered_session = field_value ''prefered-session'' u\<rparr>)"

lemma find_by_name:
  "distinct (map u_name us) \<Longrightarrow> u \<in> set us \<Longrightarrow> u_name u = Some n \<Longrightarrow> find (\<lambda>u. u_name u = Some n) us = Some u"
  by (induction us) (auto simp: rev_image_eqI)

lemma load_user_sent:
  assumes "ctx db = Live_ptr c" and "users_ok uos c" and "u \<in> set (users c)"
    and "u_name u = Some n" and "getpwnam os n \<noteq> None"
  shows "load_user os db n = Inr (user_sent os u)"
proof -
  have "user_named n c = Some u" using assms(2-4) by (simp add: users_ok_def find_by_name)
  with assms show ?thesis by (auto simp: load_user_def field_get_named [OF assms(1)] user_sent_def)
qed

lemma names_of_users:
  "\<forall>u \<in> set us. u_name u \<noteq> None \<Longrightarrow>
   foldR (\<lambda>u names. bindR (deref (u_name u) Null_Deref) (\<lambda>n. Inr (names @ [n]))) us acc =
     Inr (acc @ map (\<lambda>u. the (u_name u)) us)"
  by (induction us arbitrary: acc) auto

lemma load_users_sent:
  assumes "ctx db = Live_ptr c" and "users_ok uos c" and "uo_getpwnam uos = getpwnam os"
  shows "load_users os db = Inr (map (user_sent os) (users c))"
proof -
  let ?f = "\<lambda>n us. bindR (load_user os db n) (\<lambda>u. Inr (us @ [u]))"
  have step: "load_user os db (the (u_name u)) = Inr (user_sent os u)" if "u \<in> set (users c)" for u
    using assms that load_user_sent [OF assms(1,2) that] by (fastforce simp: users_ok_def)
  have "foldR ?f (map (\<lambda>u. the (u_name u)) us) acc = Inr (acc @ map (user_sent os) us)"
    if "set us \<subseteq> set (users c)" for us acc
    using that by (induction us arbitrary: acc) (auto simp: step)
  moreover have "\<forall>u \<in> set (users c). u_name u \<noteq> None" using assms(2) by (auto simp: users_ok_def)
  ultimately show ?thesis
    using assms(1) by (simp add: load_users_def user_db_users_iterate_def names_of_users)
qed

subsection \<open>The whole answer\<close>

definition sessions_sent :: "os \<Rightarrow> string option \<Rightarrow> server_session list" where
  "sessions_sent os seat =
     (case getpwnam os SP_USER of
        None \<Rightarrow> []
      | Some su \<Rightarrow> List.map_filter (session_entry os (pw_uid su)) (session_enumerate os seat))"

text \<open>What the system has to know for the answer to be put together without a fault.\<close>

definition seat_known :: "os \<Rightarrow> string option \<Rightarrow> bool" where
  "seat_known os seat \<longleftrightarrow>
     (\<exists>su. getpwnam os SP_USER = Some su \<and>
       (\<forall>raw \<in> set (session_enumerate os seat). session_known os (pw_uid su) raw))"

lemma load_data_sent:
  assumes "tmpls s = Live_ptr a" and "tmpl_ok s" and "ctx (udb s) = Live_ptr c" and "users_ok uos c"
    and "uo_getpwnam uos = getpwnam os" and "seat_known os seat"
  shows "load_data os seat s =
    Inr \<lparr>data_templates = map template_sent (template_view s), data_sessions = sessions_sent os seat,
         data_users = map (user_sent os) (users c)\<rparr>"
proof -
  obtain su where su: "getpwnam os SP_USER = Some su"
    "\<forall>raw \<in> set (session_enumerate os seat). session_known os (pw_uid su) raw"
    using assms(6) by (auto simp: seat_known_def)
  have "distinct (map t_id (template_view s))" using assms(1,2) by (simp add: tmpl_ok_def template_view_def)
  with load_templates_view [OF assms(1)] have "load_templates s = Inr (map template_sent (template_view s))" .
  moreover have "load_sessions os seat = Inr (map Some (sessions_sent os seat))"
    using load_sessions_filter [OF su] su(1) by (simp add: sessions_sent_def)
  ultimately show ?thesis
    by (simp add: load_data_def load_users_sent [OF assms(3-5)] collect_slots)
qed

text \<open>What the daemon has to offer, from the files it read: a good list of users and all entries.\<close>

definition well_stocked :: "main_os \<Rightarrow> 'a daemon_scheme \<Rightarrow> bool" where
  "well_stocked mo s \<longleftrightarrow>
     tmpl_ok s \<and> (\<exists>a. tmpls s = Live_ptr a) \<and> map content (template_view s) = all_contents (mo_desk mo) \<and>
     (\<exists>c. ctx (udb s) = Live_ptr c \<and> users_ok (mo_users mo) c)"

lemma well_stocked_stock: "stock t = stock s \<Longrightarrow> well_stocked mo s \<Longrightarrow> well_stocked mo t"
  by (auto simp: well_stocked_def stock_def tmpl_ok_def template_view_def split: gptr.splits)

lemma main_setup_stocked:
  assumes "main_setup os mo argv s0 = Inr (True, s)" and "at_start s0"
    and "length (all_contents (mo_desk mo)) < 2 ^ 31" and "uo_getuid (mo_users mo) = mo_getuid mo"
  shows "well_stocked mo s"
proof -
  note start = main_setup_start [OF assms(1-3)]
  have "template_view s \<noteq> []" using start by (auto simp: all_contents_def)
  then have "\<exists>a. tmpls s = Live_ptr a" by (auto simp: template_view_def split: gptr.splits)
  moreover obtain k where "user_db_init (mo_users mo) (udb s0) = Inr (k, udb s)" using start by blast
  then have "\<exists>c. ctx (udb s) = Live_ptr c \<and> users_ok (mo_users mo) c"
    by (rule root_init [rotated]) (use assms(2,4) start in \<open>simp_all add: at_start_def\<close>)
  ultimately show ?thesis using start by (simp add: well_stocked_def)
qed

lemma reachable_stocked:
  assumes "main_setup os mo argv s0 = Inr (True, s1)" and "at_start s0"
    and "length (all_contents (mo_desk mo)) < 2 ^ 31" and "uo_getuid (mo_users mo) = mo_getuid mo"
    and "kernel_ok os" and "reachable os s1 s"
  shows "well_stocked mo s \<and> stock s = stock s1 \<and> resting s"
proof -
  have "resting s1" using main_setup_start [OF assms(1-3)] by simp
  with reachable_keeps [OF assms(5,6)] have s: "resting s" "stock s = stock s1" by simp_all
  with well_stocked_stock [OF s(2) main_setup_stocked [OF assms(1-4)]] show ?thesis by simp
qed

subsection \<open>The answer to \<open>HELLO\<close>\<close>

lemma is_greeter_nreads: "client_is_greeter os cl (s\<lparr>nreads := k\<rparr>) = client_is_greeter os cl s"
proof -
  have "sid_among os sid gs (s\<lparr>nreads := k\<rparr>) = sid_among os sid gs s" for sid gs
    by (induction gs) (simp_all add: seat_greeter_pid_get_def cong: if_cong option.case_cong)
  then show ?thesis by (simp add: client_is_greeter_def greeter_exists_sid_def)
qed

lemma hello_shape:
  assumes "recv_client os (nreads s) = Message msg" and "gm_type msg = HELLO" and "clients s c = Some cl"
    and "client_is_greeter os cl s = Inr True" and "seat_get os (cl_pid cl) = Some seat"
    and "load_data os (Some seat) (s\<lparr>nreads := Suc (nreads s)\<rparr>) = Inr d"
  shows "client_data os (Client_ref c) fd s =
    Inr (send_message DATA_UPDATE None (Some d) fd (s\<lparr>nreads := Suc (nreads s)\<rparr>))"
  using assms
  by (simp add: client_data_def handle_message_def Let_def get_client_def SAFE_CALL_def is_greeter_nreads handle_hello_def)

text \<open>C6: Every greeter is offered what the daemon found at its start: in whatever state the daemon can be
  reached, a greeter that says \<open>HELLO\<close> is answered, and the only effect is this answer; it names one
  template for the terminal and for every desktop entry that was read, with name and icon and under
  different identifiers, the users of the database with their icons and preferred sessions, and the
  sessions that are now on the greeter's seat.\<close>

theorem hello_is_answered:
  assumes start: "main_setup os mo argv s0 = Inr (True, s1)" "at_start s0"
      "length (all_contents (mo_desk mo)) < 2 ^ 31" "uo_getuid (mo_users mo) = mo_getuid mo"
      "kernel_ok os" "reachable os s1 s"
    and passwds: "uo_getpwnam (mo_users mo) = getpwnam os"
    and hello: "recv_client os (nreads s) = Message msg" "gm_type msg = HELLO" "clients s c = Some cl"
      "client_is_greeter os cl s = Inr True" "seat_get os (cl_pid cl) = Some seat"
    and seat: "seat_known os (Some seat)"
  shows "\<exists>db d. ctx (udb s1) = Live_ptr db \<and> users_ok (mo_users mo) db \<and>
    client_data os (Client_ref c) fd s =
      Inr (send_message DATA_UPDATE None (Some d) fd (s\<lparr>nreads := Suc (nreads s)\<rparr>)) \<and>
    map (\<lambda>t. (tmpl_name t, tmpl_icon t)) (data_templates d) =
      map (\<lambda>(name, icon, _). (Some name, icon)) (all_contents (mo_desk mo)) \<and>
    distinct (map tmpl_id (data_templates d)) \<and>
    data_users d = map (user_sent os) (users db) \<and> data_sessions d = sessions_sent os (Some seat)"
proof -
  let ?s = "s\<lparr>nreads := Suc (nreads s)\<rparr>"
  have "well_stocked mo s" and st: "stock s = stock s1" using reachable_stocked [OF start] by simp_all
  then have "well_stocked mo ?s" by (simp add: well_stocked_stock [where s = s])
  then obtain a db where a: "tmpls ?s = Live_ptr a" "tmpl_ok ?s" and db: "ctx (udb ?s) = Live_ptr db" "users_ok (mo_users mo) db"
    and contents: "map content (template_view ?s) = all_contents (mo_desk mo)"
    by (auto simp: well_stocked_def)
  note d = load_data_sent [OF a db passwds seat]
  have "map (\<lambda>t. (tmpl_name t, tmpl_icon t)) (map template_sent (template_view ?s)) =
      map (\<lambda>(name, icon, _). (Some name, icon)) (all_contents (mo_desk mo))"
    by (simp add: template_sent_def content_def flip: contents)
  moreover have "distinct (map t_id (template_view ?s))" using a by (simp add: tmpl_ok_def template_view_def)
  then have "distinct (map tmpl_id (map template_sent (template_view ?s)))"
    by (simp add: template_sent_def distinct_map inj_on_def)
  moreover have "ctx (udb s1) = Live_ptr db" using db(1) st by (simp add: stock_def)
  ultimately show ?thesis using hello_shape [OF hello d] db(2) by fastforce
qed

definition hello_os :: os where
  "hello_os = example_os (Message hello)"

definition root_main :: main_os where
  "root_main = example_main\<lparr>mo_users := (bob_os 0)\<lparr>uo_getpwnam := getpwnam hello_os\<rparr>\<rparr>"

definition all_ready :: select_call where
  "all_ready _ watched_fds = Select_ready watched_fds []"

lemma setup_then: "(case m of Inr (True, s1) \<Rightarrow> P s1 | _ \<Rightarrow> False) \<Longrightarrow> \<exists>s1. m = Inr (True, s1) \<and> P s1"
  by (auto split: sum.splits prod.splits bool.splits)

lemma turn_then: "(case m of Inr (Running s) \<Rightarrow> P s | _ \<Rightarrow> False) \<Longrightarrow> \<exists>s. m = Inr (Running s) \<and> P s"
  by (auto split: sum.splits run_state.splits)

lemma one_connects:
  "case main_setup hello_os root_main [''sp-daemon'', ''-d''] (globals []) of
     Inr (True, s1) \<Rightarrow> \<not> stop s1 \<and>
       (case manager_iter 5 (dispatch_with hello_os 1 (\<lambda>_. [])) all_ready s1 of
          Inr (Running s) \<Rightarrow> clients s 0 = Some \<lparr>cl_fd = 4, cl_pid = 50, cl_try = None\<rparr> \<and> debug s
        | _ \<Rightarrow> False)
   | _ \<Rightarrow> False"
  by code_simp

lemma one_connected:
  "\<exists>s1 s. main_setup hello_os root_main [''sp-daemon'', ''-d''] (globals []) = Inr (True, s1) \<and>
     reachable hello_os s1 s \<and> clients s 0 = Some \<lparr>cl_fd = 4, cl_pid = 50, cl_try = None\<rparr> \<and> debug s"
proof -
  obtain s1 s where "main_setup hello_os root_main [''sp-daemon'', ''-d''] (globals []) = Inr (True, s1)"
    "\<not> stop s1" "manager_iter 5 (dispatch_with hello_os 1 (\<lambda>_. [])) all_ready s1 = Inr (Running s)"
    "clients s 0 = Some \<lparr>cl_fd = 4, cl_pid = 50, cl_try = None\<rparr> \<and> debug s"
    using setup_then [OF one_connects] by (auto dest!: turn_then)
  then show ?thesis using reachable.step [OF reachable.start] daemon_step.turn by blast
qed

lemma hello_is_answered_witness:
  "\<exists>s1 s d. main_setup hello_os root_main [''sp-daemon'', ''-d''] (globals []) = Inr (True, s1) \<and>
     reachable hello_os s1 s \<and>
     client_data hello_os (Client_ref 0) 4 s =
       Inr (send_message DATA_UPDATE None (Some d) 4 (s\<lparr>nreads := Suc (nreads s)\<rparr>)) \<and>
     map tmpl_name (data_templates d) = [Some ''tty'', Some ''Sway''] \<and>
     map ses_user (data_sessions d) = [Some ''bob'']"
proof -
  obtain s1 s where s: "main_setup hello_os root_main [''sp-daemon'', ''-d''] (globals []) = Inr (True, s1)"
    "reachable hello_os s1 s" "clients s 0 = Some \<lparr>cl_fd = 4, cl_pid = 50, cl_try = None\<rparr>" "debug s"
    using one_connected by blast
  have desk: "mo_desk root_main = example_desk" "uo_getuid (mo_users root_main) = mo_getuid root_main"
    "uo_getpwnam (mo_users root_main) = getpwnam hello_os"
    by (simp_all add: root_main_def example_main_def bob_os_def)
  have "length (map fst (all_contents example_desk)) < 2 ^ 31" unfolding example_contents by simp
  then have len: "length (all_contents (mo_desk root_main)) < 2 ^ 31" by (simp add: desk)
  have k: "kernel_ok hello_os" by (simp add: hello_os_def example_kernel_ok)
  have r: "recv_client hello_os (nreads s) = Message hello" "gm_type hello = HELLO"
    "client_is_greeter hello_os \<lparr>cl_fd = 4, cl_pid = 50, cl_try = None\<rparr> s = Inr True"
    using s(4) by (simp_all add: hello_os_def example_os_def hello_def client_is_greeter_def)
  have seat: "seat_get hello_os (cl_pid \<lparr>cl_fd = 4, cl_pid = 50, cl_try = None\<rparr>) = Some ''seat0''" by code_simp
  have sent: "map ses_user (sessions_sent hello_os (Some ''seat0'')) = [Some ''bob'']" by code_simp
  have "getpwnam hello_os SP_USER = Some spawny_pw" by (simp add: hello_os_def example_os_def SP_USER_def)
  moreover have "list_all (session_known hello_os (pw_uid spawny_pw)) (session_enumerate hello_os (Some ''seat0''))"
    by code_simp
  ultimately have known: "seat_known hello_os (Some ''seat0'')" by (simp add: seat_known_def list_all_iff)
  from hello_is_answered [OF s(1) at_start_globals len desk(2) k s(2) desk(3) r(1,2) s(3) r(3) seat known, of 4]
  obtain d where d: "client_data hello_os (Client_ref 0) 4 s =
       Inr (send_message DATA_UPDATE None (Some d) 4 (s\<lparr>nreads := Suc (nreads s)\<rparr>))"
    "map (\<lambda>t. (tmpl_name t, tmpl_icon t)) (data_templates d) =
      map (\<lambda>(name, icon, _). (Some name, icon)) (all_contents example_desk)"
    "data_sessions d = sessions_sent hello_os (Some ''seat0'')"
    unfolding desk(1) by blast
  have "map tmpl_name (data_templates d) = map fst (map (\<lambda>t. (tmpl_name t, tmpl_icon t)) (data_templates d))"
    by (simp add: comp_def)
  also have "\<dots> = map Some (map fst (all_contents example_desk))" unfolding d(2) by (simp add: comp_def split_beta)
  also have "\<dots> = [Some ''tty'', Some ''Sway'']" unfolding example_contents by simp
  finally show ?thesis using s(1,2) d(1,3) sent by metis
qed

end
