(* ===== verification/Misuse.thy ===== *)
theory Misuse
  imports Offers
begin

section \<open>What a client can bring about\<close>

text \<open>
  Two histories in which requests that the daemon accepts have effects nobody intended: the text of
  a request that becomes part of a command line, and two requests for a greeter in a row.
\<close>

subsection \<open>The name of a session as part of a command\<close>

text \<open>A name that is none is rejected by every query of systemd with \<open>EINVAL\<close>.\<close>

definition invalid_name :: "os \<Rightarrow> string \<Rightarrow> bool" where
  "invalid_name os h \<longleftrightarrow>
     sd_session_get_vt os (Some h) = Inl (- EINVAL) \<and>
     sd_session_get_desktop os (Some h) = Inl (- EINVAL) \<and> sd_session_get_type os (Some h) = Inl (- EINVAL)"

lemma invalid_name_details:
  "invalid_name os h \<Longrightarrow> \<exists>d. session_details os (Some h) False False = Inr d \<and> det_ok d"
  by (simp add: invalid_name_def session_details_def GET_FIELD_def str_field_def ENXIO_def EINVAL_def Let_def)

text \<open>C28: A session that systemd has rejected as invalid is activated all the same: the text that a greeter
  sends as the name of a session, whatever it is, is put behind \<open>loginctl activate\<close> and given to the
  shell of the daemon, which runs as root; the client is told that the activation has been called,
  gets \<open>LEAVE\<close> and is freed, and the greeter of its seat is marked to end.\<close>

theorem invalid_session_is_run:
  assumes "recv_client os (nreads s) = Message msg" and "gm_type msg = SESSION_ACTIVATION"
    and "gm_session msg = Some h" and "invalid_name os h"
    and c: "clients s c = Some cl" "client_is_greeter os cl s = Inr True" "seat_get os (cl_pid cl) = Some seat"
    and g: "greeters s = Live_ptr a" "find_index (\<lambda>g. g_seat g = seat) (cells a) = Some i"
  shows "\<exists>t. client_data os (Client_ref c) fd s = Inr t \<and>
    trace t = trace s @ [Activated (snprintf (4096 - 18) h),
      Sent fd \<lparr>sm_type = LOGIN_FEEDBACK, sm_feedback = Some \<lparr>fb_success = False,
        fb_msg = Some ''Activation is called on this session''\<rparr>, sm_data = None\<rparr>,
      Sent (cl_fd cl) \<lparr>sm_type = LEAVE, sm_feedback = None, sm_data = None\<rparr>, Closed (cl_fd cl)] \<and>
    clients t = (clients s)(c := None) \<and> tries t = tries s \<and>
    greeters t = Live_ptr (tarray_set a i ((cells a ! i)\<lparr>g_end := True\<rparr>))"
proof -
  let ?s1 = "s\<lparr>nreads := Suc (nreads s)\<rparr>" and ?g = "Live_ptr (tarray_set a i ((cells a ! i)\<lparr>g_end := True\<rparr>))"
  let ?s2 = "server_spawnservice_feedback False (Some ''Activation is called on this session'') fd (session_activate (Some h) ?s1)"
  let ?s3 = "send_message LEAVE None None (cl_fd cl) (?s2\<lparr>greeters := ?g\<rparr>)"
  obtain d where d: "session_details os (Some h) False False = Inr d" "det_ok d"
    using invalid_name_details [OF assms(4)] by blast
  have s2: "clients ?s2 = clients s" "greeters ?s2 = greeters s" "tries ?s2 = tries s"
    by (simp_all add: server_spawnservice_feedback_def send_message_def session_activate_def emit_def)
  have lock: "greeter_lockout (Some seat) ?s2 = Inr (?s2\<lparr>greeters := ?g\<rparr>)"
    using g s2(2) by (simp add: greeter_lockout_def greeter_search_def)
  have "client_data os (Client_ref c) fd s = handle_activation os c (Some h) (Some seat) fd ?s1"
    using assms(1-3) c
    by (auto simp: client_data_def handle_message_def Let_def get_client_def SAFE_CALL_def is_greeter_nreads
        intro: bindR_Inr_id)
  also have "\<dots> = client_goodbye c (?s2\<lparr>greeters := ?g\<rparr>)" using d lock by (simp add: handle_activation_def)
  also have "\<dots> = client_free c ?s3" using c(1) s2(1) by (simp add: client_goodbye_def get_client_def)
  finally have eq: "client_data os (Client_ref c) fd s = client_free c ?s3" .
  have s3: "clients ?s3 = clients s" "tries ?s3 = tries s" "greeters ?s3 = ?g"
    "trace ?s3 = trace s @ [Activated (snprintf (4096 - 18) h),
      Sent fd \<lparr>sm_type = LOGIN_FEEDBACK, sm_feedback = Some \<lparr>fb_success = False,
        fb_msg = Some ''Activation is called on this session''\<rparr>, sm_data = None\<rparr>,
      Sent (cl_fd cl) \<lparr>sm_type = LEAVE, sm_feedback = None, sm_data = None\<rparr>]"
    by (simp_all add: server_spawnservice_feedback_def send_message_def session_activate_def emit_def)
  then have "clients ?s3 c = Some cl" using c(1) by simp
  from client_free_effect [OF this] s3 show ?thesis unfolding eq by auto
qed

definition nasty_os :: os where
  "nasty_os = (example_os (Message \<lparr>gm_type = SESSION_ACTIVATION, gm_login = None, gm_session = Some ''1;reboot''\<rparr>))
     \<lparr>sd_session_get_vt := (\<lambda>h. if h = Some ''1;reboot'' then Inl (- EINVAL) else Inr 12),
      sd_session_get_desktop := (\<lambda>h. if h = Some ''1;reboot'' then Inl (- EINVAL) else Inr ''sway''),
      sd_session_get_type := (\<lambda>h. if h = Some ''1;reboot'' then Inl (- EINVAL) else Inr ''wayland'')\<rparr>"

lemma invalid_session_is_run_witness:
  "\<exists>t. client_data nasty_os (Client_ref 0) 5 (logging_in\<lparr>debug := True\<rparr>) = Inr t \<and> Activated ''1;reboot'' \<in> set (trace t)"
proof -
  let ?s = "logging_in\<lparr>debug := True\<rparr>" and ?msg = "\<lparr>gm_type = SESSION_ACTIVATION, gm_login = None, gm_session = Some ''1;reboot''\<rparr>"
  let ?a = "\<lparr>cells = [\<lparr>g_seat = ''seat0'', run_gen = 0, run_try = None, run_pid = 90, g_end = False\<rparr>], blk = 1\<rparr>"
  have r: "recv_client nasty_os (nreads ?s) = Message ?msg" "gm_type ?msg = SESSION_ACTIVATION" "gm_session ?msg = Some ''1;reboot''"
    by (simp_all add: nasty_os_def example_os_def)
  have inv: "invalid_name nasty_os ''1;reboot''" by (simp add: invalid_name_def nasty_os_def)
  have c: "clients ?s 0 = Some \<lparr>cl_fd = 5, cl_pid = 50, cl_try = Some 0\<rparr>"
    "client_is_greeter nasty_os \<lparr>cl_fd = 5, cl_pid = 50, cl_try = Some 0\<rparr> ?s = Inr True"
    "seat_get nasty_os (cl_pid \<lparr>cl_fd = 5, cl_pid = 50, cl_try = Some 0\<rparr>) = Some ''seat0''"
    by (simp_all add: logging_in_def one_client_def client_is_greeter_def nasty_os_def example_os_def seat_get_def session_get_def)
  have g: "greeters ?s = Live_ptr ?a" "find_index (\<lambda>g. g_seat g = ''seat0'') (cells ?a) = Some 0"
    by (simp_all add: logging_in_def)
  have "snprintf (4096 - 18) ''1;reboot'' = ''1;reboot''" by code_simp
  with invalid_session_is_run [OF r inv c g, of 5] show ?thesis by fastforce
qed

subsection \<open>Two requests for a greeter in a row\<close>

text \<open>While the process of a greeter has no session yet, a second request starts another process, and the
  greeter forgets the first.\<close>

lemma activation_starts_another:
  assumes a: "greeters s = Live_ptr a" and i: "find_index (\<lambda>g. g_seat g = seat) (cells a) = Some i"
    and t: "run_try (cells a ! i) = Some t" "tries s t = Some y" "session_get os (try_pid y) = None"
    and gen: "run_gen (cells a ! i) \<le> FALLBACK_RUN_GENERATION"
    and spawn: "\<And>run_done. spawnservice_spawn os run_done Greeter_start_done (Greeter_ref (blk a) i)
      (Greeter_job (Greeter_ref (blk a) i)) None SP_PAM_SERVICE_GREETER SP_USER None (Some (greeter_settings seat)) s
      = Inr (Some u, s2)" "greeters s2 = Live_ptr a"
  shows "activate_greeter os seat s =
    Inr (s2\<lparr>greeters := Live_ptr (tarray_set a i ((cells a ! i)\<lparr>run_try := Some u\<rparr>))\<rparr>)"
proof -
  have il: "i < tarray_len a" and st: "g_seat (cells a ! i) = seat" using find_index_SomeD [OF i] by auto
  have find: "greeter_find_or_add seat s = Inr (Greeter_ref (blk a) i, s)"
    using a i by (simp add: greeter_find_or_add_def greeter_search_def)
  have sess: "greeter_session os (cells a ! i) s = Inr None" using t by (simp add: greeter_session_def)
  have fuel: "greeter_fuel = Suc 6" by (simp add: greeter_fuel_def)
  show ?thesis
    unfolding activate_greeter_def fuel greeter_activate.simps
    using find greeter_deref_live [OF a il] sess gen spawn st greeter_store_live [OF spawn(2) il] by simp
qed

lemma greeter_reported:
  assumes a: "greeters s = Live_ptr a" and il: "i < tarray_len a"
    and u: "run_try (cells a ! i) = Some u" "tries s u = Some y2"
    and e: "end_success e = SPAWN_SERVICE_SUCCESS"
  shows "greeter_start_done_with act (Greeter_ref (blk a) i) e s =
    Inr (spawnregistery_listen (try_pid y2) (Some Greeter_done) (Greeter_ref (blk a) i)
      (s\<lparr>greeters := Live_ptr (tarray_set a i ((cells a ! i)\<lparr>run_pid := try_pid y2, run_try := None\<rparr>))\<rparr>))"
  using assms greeter_deref_live [OF a il] greeter_store_live [OF a il]
  by (simp add: greeter_start_done_with_def seat_greeter_pid_get_def)

text \<open>What the report of a child does that a greeter waits for, up to its callback.\<close>

lemma active_greeter_child:
  assumes "recv_child os (nreads s) = Message m" and "sp_type m = SESSION_ACTIVE"
    and "tries s t = Some y" and "done_cb y = Some Greeter_start_done"
  shows "\<exists>s1. tries s1 = (tries s)(t \<mapsto> y\<lparr>exit_success := SPAWN_SERVICE_SUCCESS\<rparr>) \<and> greeters s1 = greeters s \<and>
    child_data os (try_done os) (Try_ref t) fd s =
      bindR (greeter_start_done_with (activate_greeter os) (done_data y)
              \<lparr>end_success = SPAWN_SERVICE_SUCCESS, end_message = error_msg y\<rparr> s1)
        (\<lambda>s2. bindR (deref (tries s2 t) Use_After_Free)
          (\<lambda>y2. Inr (free_try t (spawnregistery_unlisten (try_pid y2) Spawned_session_disappear (Try_ref t) s2))))"
proof -
  let ?v = "upd_try t (\<lambda>y. y\<lparr>exit_success := SPAWN_SERVICE_SUCCESS\<rparr>)
    (manager_unregister_fd (com_read y) (s\<lparr>nreads := Suc (nreads s)\<rparr>))"
  let ?s1 = "emit (Closed (com_read y)) (manager_unregister_fd (com_read y) ?v)"
  have "tries ?v = (tries s)(t \<mapsto> y\<lparr>exit_success := SPAWN_SERVICE_SUCCESS\<rparr>)"
    using assms(3) by (simp add: frame_simps)
  moreover have "greeters ?s1 = greeters s" by (simp add: frame_simps)
  ultimately show ?thesis
    using assms by (intro exI [of _ ?s1]) (simp add: child_data_def spawn_try_free_def try_done_def Let_def)
qed

text \<open>C29: Two processes that are starting for the same greeter end the daemon: when both report that their
  session is up, as a second \<open>GREETER_START\<close> before the first greeter has a session brings about, the
  first report makes the greeter take over the process of the other one and forget its try, and the
  second report dereferences the try that has been forgotten.\<close>

theorem two_greeter_starts_fault:
  assumes os: "\<And>n. \<exists>m. recv_child os n = Message m \<and> sp_type m = SESSION_ACTIVE"
    and a: "greeters s = Live_ptr a" "i < tarray_len a" "run_try (cells a ! i) = Some u"
    and t: "tries s t = Some y1" "done_cb y1 = Some Greeter_start_done" "done_data y1 = Greeter_ref (blk a) i"
    and u: "tries s u = Some y2" "done_cb y2 = Some Greeter_start_done" "done_data y2 = Greeter_ref (blk a) i"
    and "t \<noteq> u"
  shows "\<exists>v. child_data os (try_done os) (Try_ref t) fd s = Inr v \<and>
    greeters v = Live_ptr (tarray_set a i ((cells a ! i)\<lparr>run_pid := try_pid y2, run_try := None\<rparr>)) \<and>
    (\<forall>w. greeters w = greeters v \<longrightarrow> tries w u = tries v u \<longrightarrow>
       child_data os (try_done os) (Try_ref u) fd' w = Inl Null_Deref)"
proof -
  let ?g = "(cells a ! i)\<lparr>run_pid := try_pid y2, run_try := None\<rparr>"
  let ?e = "\<lparr>end_success = SPAWN_SERVICE_SUCCESS, end_message = error_msg y1\<rparr>"
  obtain m where "recv_child os (nreads s) = Message m" "sp_type m = SESSION_ACTIVE" using os by blast
  from active_greeter_child [OF this t(1,2)] obtain s1
    where s1: "tries s1 = (tries s)(t \<mapsto> y1\<lparr>exit_success := SPAWN_SERVICE_SUCCESS\<rparr>)" "greeters s1 = greeters s"
      and data: "child_data os (try_done os) (Try_ref t) fd s =
        bindR (greeter_start_done_with (activate_greeter os) (done_data y1) ?e s1)
          (\<lambda>s2. bindR (deref (tries s2 t) Use_After_Free)
            (\<lambda>y2. Inr (free_try t (spawnregistery_unlisten (try_pid y2) Spawned_session_disappear (Try_ref t) s2))))"
    by blast
  let ?s2 = "spawnregistery_listen (try_pid y2) (Some Greeter_done) (Greeter_ref (blk a) i)
    (s1\<lparr>greeters := Live_ptr (tarray_set a i ?g)\<rparr>)"
  have live: "greeters s1 = Live_ptr a" "tries s1 u = Some y2" using s1 a(1) u(1) \<open>t \<noteq> u\<close> by simp_all
  have "greeter_start_done_with (activate_greeter os) (done_data y1) ?e s1 = Inr ?s2"
    unfolding t(3) by (rule greeter_reported [OF live(1) a(2,3) live(2)]) simp
  moreover have s2: "tries ?s2 = tries s1" "greeters ?s2 = Live_ptr (tarray_set a i ?g)"
    by (simp_all add: spawnregistery_listen_def)
  ultimately obtain v where v: "child_data os (try_done os) (Try_ref t) fd s = Inr v"
    "greeters v = Live_ptr (tarray_set a i ?g)" "tries v u = Some y2"
    using s1(1) live(2) \<open>t \<noteq> u\<close> by (simp add: data frame_simps unlisten_frames)
  have "child_data os (try_done os) (Try_ref u) fd' w = Inl Null_Deref"
    if w: "greeters w = greeters v" "tries w u = tries v u" for w
  proof -
    obtain m where "recv_child os (nreads w) = Message m" "sp_type m = SESSION_ACTIVE" using os by blast
    from active_greeter_child [OF this _ u(2), of u fd'] w v(3) obtain w1 where w1: "greeters w1 = greeters v"
      and data: "child_data os (try_done os) (Try_ref u) fd' w =
        bindR (greeter_start_done_with (activate_greeter os) (done_data y2)
            \<lparr>end_success = SPAWN_SERVICE_SUCCESS, end_message = error_msg y2\<rparr> w1)
          (\<lambda>s2. bindR (deref (tries s2 u) Use_After_Free)
            (\<lambda>y2. Inr (free_try u (spawnregistery_unlisten (try_pid y2) Spawned_session_disappear (Try_ref u) s2))))"
      by auto
    have "greeter_deref (Greeter_ref (blk a) i) w1 = Inr ?g"
      using w1 v(2) a(2) by (simp add: greeter_deref_def tarray_get_def tarray_set_def)
    then have "greeter_start_done_with (activate_greeter os) (done_data y2)
        \<lparr>end_success = SPAWN_SERVICE_SUCCESS, end_message = error_msg y2\<rparr> w1 = Inl Null_Deref"
      by (simp add: u(3) greeter_start_done_with_def seat_greeter_pid_get_def)
    then show ?thesis by (simp add: data)
  qed
  with v show ?thesis by blast
qed

definition greeter_try :: "int \<Rightarrow> int \<Rightarrow> spawn_try" where
  "greeter_try fd pid = \<lparr>com_read = fd, com_write = fd + 1, job = Greeter_job (Greeter_ref 1 0), session_ended = None,
     done_cb = Some Greeter_start_done, done_data = Greeter_ref 1 0, service = SP_PAM_SERVICE_GREETER, usr = SP_USER,
     pw = None, st_session = Some ''c1'', error_msg = None, exit_success = SPAWN_SERVICE_ERROR, try_pid = pid,
     settings = greeter_settings ''seat0''\<rparr>"

definition two_starting :: daemon where
  "two_starting = (globals [])\<lparr>tries := [0 \<mapsto> greeter_try 7 70, 1 \<mapsto> greeter_try 9 71], next_try := 2,
     greeters := Live_ptr \<lparr>cells = [\<lparr>g_seat = ''seat0'', run_gen = 0, run_try = Some 1, run_pid = -1, g_end = False\<rparr>],
       blk = 1\<rparr>\<rparr>"

lemma two_greeter_starts_fault_witness:
  "\<exists>v. child_data ((example_os Malformed)\<lparr>recv_child := \<lambda>_. Message \<lparr>sp_type = SESSION_ACTIVE, sp_exit = None\<rparr>\<rparr>)
      (try_done ((example_os Malformed)\<lparr>recv_child := \<lambda>_. Message \<lparr>sp_type = SESSION_ACTIVE, sp_exit = None\<rparr>\<rparr>))
      (Try_ref 0) 7 two_starting = Inr v \<and>
    child_data ((example_os Malformed)\<lparr>recv_child := \<lambda>_. Message \<lparr>sp_type = SESSION_ACTIVE, sp_exit = None\<rparr>\<rparr>)
      (try_done ((example_os Malformed)\<lparr>recv_child := \<lambda>_. Message \<lparr>sp_type = SESSION_ACTIVE, sp_exit = None\<rparr>\<rparr>))
      (Try_ref 1) 9 v = Inl Null_Deref"
proof -
  let ?os = "(example_os Malformed)\<lparr>recv_child := \<lambda>_. Message \<lparr>sp_type = SESSION_ACTIVE, sp_exit = None\<rparr>\<rparr>"
  let ?a = "\<lparr>cells = [\<lparr>g_seat = ''seat0'', run_gen = 0, run_try = Some 1, run_pid = -1, g_end = False\<rparr>], blk = 1\<rparr>"
  have os: "\<exists>m. recv_child ?os n = Message m \<and> sp_type m = SESSION_ACTIVE" for n by simp
  have a: "greeters two_starting = Live_ptr ?a" "0 < tarray_len ?a" "run_try (cells ?a ! 0) = Some 1"
    by (simp_all add: two_starting_def)
  have t: "tries two_starting 0 = Some (greeter_try 7 70)" "tries two_starting 1 = Some (greeter_try 9 71)"
    "done_cb (greeter_try fd p) = Some Greeter_start_done" "done_data (greeter_try fd p) = Greeter_ref (blk ?a) 0" for fd p
    by (simp_all add: two_starting_def greeter_try_def)
  show ?thesis
    using two_greeter_starts_fault [OF os a t(1,3,4) t(2,3,4) zero_neq_one, of 7 9] by blast
qed

end
