(* ===== verification/Shutdown.thy ===== *)
theory Shutdown
  imports Offers
begin

section \<open>The end of the daemon\<close>

text \<open>
  The last lines of \<open>main\<close>: every component gives its memory back. The handler of \<open>SIGCHLD\<close>
  (\<open>_child_exit\<close>) stays installed all the while, and so do the children; \<open>spawnregistery_shutdown\<close>
  frees the waiting list and leaves the pointer to it. An \<open>ending\<close> is the state of the daemon together
  with whether the two arrays that theory \<open>Daemon\<close> takes for granted are still there; what they hold
  is of no use any more when they are gone.
\<close>

subsection \<open>The steps, and a signal between them\<close>

record 'd ending =
  en_daemon :: 'd
  en_pending :: "unit gptr"
  en_fds :: "unit gptr"

text \<open>\<open>array_free\<close> reads the array before it frees it.\<close>

definition array_free :: "unit gptr \<Rightarrow> unit res" where
  "array_free arr = gderef arr"

definition spawnregistery_shutdown :: "'d ending \<Rightarrow> 'd ending res" where
  "spawnregistery_shutdown e = bindR (array_free (en_pending e)) (\<lambda>_. Inr (e\<lparr>en_pending := Dangling_ptr\<rparr>))"

definition manager_shutdown :: "'d ending \<Rightarrow> 'd ending res" where
  "manager_shutdown e = bindR (array_free (en_fds e)) (\<lambda>_. Inr (e\<lparr>en_fds := Null_ptr\<rparr>))"

definition on_daemon :: "('d \<Rightarrow> 'd res) \<Rightarrow> 'd ending \<Rightarrow> 'd ending res" where
  "on_daemon f e = bindR (f (en_daemon e)) (\<lambda>s. Inr (e\<lparr>en_daemon := s\<rparr>))"

definition ending_steps :: "('a daemon_scheme ending \<Rightarrow> 'a daemon_scheme ending res) list" where
  "ending_steps =
     [spawnregistery_shutdown, on_daemon server_shutdown, on_daemon (\<lambda>s. Inr (greeter_shutdown s)),
      on_daemon template_shutdown, manager_shutdown]"

definition run_steps :: "('d ending \<Rightarrow> 'd ending res) list \<Rightarrow> 'd ending \<Rightarrow> 'd ending res" where
  "run_steps = foldR (\<lambda>step. step)"

definition loop_left :: "'d \<Rightarrow> 'd ending" where
  "loop_left s = \<lparr>en_daemon = s, en_pending = Live_ptr (), en_fds = Live_ptr ()\<rparr>"

definition main_ending :: "'a daemon_scheme \<Rightarrow> 'a daemon_scheme ending res" where
  "main_ending s = run_steps ending_steps (loop_left s)"

text \<open>However few children are reaped, the handler looks through the waiting list at its end.\<close>

definition late_signal ::
  "os \<Rightarrow> nat \<Rightarrow> int \<Rightarrow> (int \<times> int) list \<Rightarrow> 'a daemon_scheme ending \<Rightarrow> 'a daemon_scheme ending res" where
  "late_signal os n sig reaped e =
     (if sig \<noteq> SIGCHLD then Inr e
      else bindR (gderef (en_pending e)) (\<lambda>_. on_daemon (child_exit os n sig reaped) e))"

definition signalled_ending ::
  "os \<Rightarrow> nat \<Rightarrow> nat \<Rightarrow> int \<Rightarrow> (int \<times> int) list \<Rightarrow> 'a daemon_scheme \<Rightarrow> 'a daemon_scheme ending res" where
  "signalled_ending os k n sig reaped s =
     run_steps (take k ending_steps @ late_signal os n sig reaped # drop k ending_steps) (loop_left s)"

subsection \<open>What the steps do\<close>

lemma run_steps_simps [simp]:
  "run_steps [] e = Inr e" "run_steps (f # fs) e = bindR (f e) (run_steps fs)"
  "run_steps (fs @ gs) e = bindR (run_steps fs e) (run_steps gs)"
proof -
  show "run_steps (fs @ gs) e = bindR (run_steps fs e) (run_steps gs)"
    by (induction fs arbitrary: e) (auto simp: run_steps_def bindR_def split: sum.split)
qed (simp_all add: run_steps_def)

lemma ending_is_finish:
  "main_ending s = bindR (main_finish s) (\<lambda>t. Inr \<lparr>en_daemon = t, en_pending = Dangling_ptr, en_fds = Null_ptr\<rparr>)"
  by (simp add: main_ending_def ending_steps_def loop_left_def spawnregistery_shutdown_def array_free_def on_daemon_def
      manager_shutdown_def array_free_def main_finish_def bindR_def split: sum.split)

lemma finish_succeeds:
  assumes "ctx (udb s) = Live_ptr c" and "tmpls s = Live_ptr a"
  shows "\<exists>t. main_finish s = Inr t \<and> tmpls t = Dangling_ptr"
proof -
  obtain s1 where s1: "server_shutdown s = Inr s1" "tmpls s1 = tmpls s"
    using assms(1) by (simp add: server_shutdown_def user_db_shutdown_def Let_def emit_def)
  have "tmpls (greeter_shutdown s1) = Live_ptr a" using s1 assms(2) by (simp add: greeter_shutdown_def)
  from shutdown_ends [OF this] s1(1) show ?thesis by (auto simp: main_finish_def)
qed

text \<open>No step but the first one touches the waiting list.\<close>

lemma list_given_back:
  assumes "1 \<le> k" and "run_steps (take k ending_steps) (loop_left s) = Inr e"
  shows "en_pending e = Dangling_ptr"
proof -
  let ?rest = "take (k - 1) (tl ending_steps)"
  have steps: "take k ending_steps = spawnregistery_shutdown # ?rest"
    using assms(1) by (cases k) (simp_all add: ending_steps_def)
  from assms(2) have "run_steps ?rest ((loop_left s)\<lparr>en_pending := Dangling_ptr\<rparr>) = Inr e"
    unfolding steps by (simp add: spawnregistery_shutdown_def array_free_def loop_left_def)
  then have r: "foldR (\<lambda>step. step) ?rest ((loop_left s)\<lparr>en_pending := Dangling_ptr\<rparr>) = Inr e" by (simp only: run_steps_def)
  show ?thesis
  proof (rule foldR_invariant [OF r])
    fix f x y assume "f \<in> set ?rest" "en_pending x = Dangling_ptr" "f x = Inr y"
    then show "en_pending y = Dangling_ptr"
      by (auto simp: ending_steps_def on_daemon_def manager_shutdown_def array_free_def dest!: in_set_takeD elim!: bindR_InrE split: if_splits)
  qed simp
qed

lemma prefix_succeeds:
  assumes "run_steps fs e = Inr e'"
  shows "\<exists>x. run_steps (take k fs) e = Inr x"
proof -
  have "run_steps (take k fs @ drop k fs) e = Inr e'" using assms by simp
  then show ?thesis unfolding run_steps_simps by (auto elim: bindR_InrE)
qed

subsection \<open>Properties\<close>

text \<open>C12: The daemon can always end, but not while its children do: in every reachable state the last lines of
  \<open>main\<close> give back everything once, without a fault; a \<open>SIGCHLD\<close> that arrives after any of them has been
  run, though, makes the handler, which is still installed, walk through the waiting list that was
  freed first.\<close>

theorem ending_and_late_signals:
  assumes "main_setup os mo argv s0 = Inr (True, s1)" and "at_start s0"
    and "length (all_contents (mo_desk mo)) < 2 ^ 31" and "uo_getuid (mo_users mo) = mo_getuid mo"
    and "kernel_ok os" and "reachable os s1 s"
  shows "(\<exists>t. main_ending s = Inr \<lparr>en_daemon = t, en_pending = Dangling_ptr, en_fds = Null_ptr\<rparr> \<and>
      main_finish s = Inr t \<and> tmpls t = Dangling_ptr) \<and>
    (\<forall>k \<ge> 1. signalled_ending os k n SIGCHLD reaped s = Inl Use_After_Free)"
proof -
  have "well_stocked mo s" using reachable_stocked [OF assms] by simp
  then obtain c a where "ctx (udb s) = Live_ptr c" "tmpls s = Live_ptr a" by (auto simp: well_stocked_def)
  from finish_succeeds [OF this] obtain t where t: "main_finish s = Inr t" "tmpls t = Dangling_ptr" by blast
  then have e: "main_ending s = Inr \<lparr>en_daemon = t, en_pending = Dangling_ptr, en_fds = Null_ptr\<rparr>" by (simp add: ending_is_finish)
  have "signalled_ending os k n SIGCHLD reaped s = Inl Use_After_Free" if "1 \<le> k" for k
  proof -
    obtain x where x: "run_steps (take k ending_steps) (loop_left s) = Inr x"
      using prefix_succeeds e unfolding main_ending_def by blast
    with list_given_back [OF that] have "en_pending x = Dangling_ptr" by blast
    with x show ?thesis by (simp add: signalled_ending_def late_signal_def)
  qed
  with t e show ?thesis by blast
qed

lemma ending_and_late_signals_witness:
  "\<exists>(s1 :: daemon) s e. reachable hello_os s1 s \<and> clients s 0 \<noteq> None \<and> main_ending s = Inr e \<and>
     signalled_ending hello_os 2 1 SIGCHLD [(70, 0)] s = Inl Use_After_Free"
proof -
  obtain s1 s where s: "main_setup hello_os root_main [''sp-daemon'', ''-d''] (globals []) = Inr (True, s1)"
    "reachable hello_os s1 s" "clients s 0 = Some \<lparr>cl_fd = 4, cl_pid = 50, cl_try = None\<rparr>"
    using one_connected by blast
  have desk: "mo_desk root_main = example_desk" "uo_getuid (mo_users root_main) = mo_getuid root_main"
    by (simp_all add: root_main_def example_main_def bob_os_def)
  have "length (map fst (all_contents example_desk)) < 2 ^ 31" unfolding example_contents by simp
  then have len: "length (all_contents (mo_desk root_main)) < 2 ^ 31" by (simp add: desk)
  have k: "kernel_ok hello_os" by (simp add: hello_os_def example_kernel_ok)
  have two: "(1 :: nat) \<le> 2" by simp
  from ending_and_late_signals [OF s(1) at_start_globals len desk(2) k s(2), of 1 "[(70, 0)]"] two s(2,3)
  show ?thesis by blast
qed

end
