(* ===== verification/Answer_Memory.thy ===== *)
theory Answer_Memory
  imports Offers
begin

section \<open>The memory of an answer to \<open>HELLO\<close>\<close>

text \<open>
  \<open>load_data\<close> of theory \<open>Server\<close> says what is sent. This theory follows the same loops for what
  they allocate, and \<open>_free_data\<close> for what is given back when the answer has been sent. The blocks
  of one answer are named after the place in the code that asks for them and the index of the loop;
  the heap is the set of those that are allocated. \<open>free\<close> of anything else is \<open>Bad_Free\<close>, of
  NULL nothing. As in the GNU library, \<open>calloc\<close> for no elements gives a block like any other, which has to
  be freed, and \<open>realloc\<close> to no bytes frees the block and gives NULL. That the \<open>realloc\<close> of \<open>_load_sessions\<close>
  multiplies with the size of a session, not of a pointer, gives the array more room than it needs; the
  model gives it only the slots.
\<close>

datatype text_field = Id_Text | Name_Text | Owner_Text | Icon_Text | Prefered_Text

datatype block =
    Names_array
  | Name_copy nat
  | Users_array
  | User_block nat
  | User_text nat text_field
  | Sessions_array
  | Session_block nat
  | Session_text nat text_field
  | Templates_array
  | Raw_array
  | Template_block nat

type_synonym heap = "block set"

definition free_block :: "block \<Rightarrow> heap \<Rightarrow> heap res" where
  "free_block b m = (if b \<in> m then Inr (m - {b}) else Inl Bad_Free)"

text \<open>A field that is NULL where the flag is false.\<close>

definition free_if :: "bool \<Rightarrow> block \<Rightarrow> heap \<Rightarrow> heap res" where
  "free_if used b m = (if used then free_block b m else Inr m)"

text \<open>The block of an array is there whatever the number of its elements.\<close>

definition calloc_array :: "block \<Rightarrow> heap \<Rightarrow> heap" where
  "calloc_array b m = insert b m"

subsection \<open>What is allocated\<close>

text \<open>What becomes of a session: sent, left out because it is the greeter user's own, or without details.\<close>

datatype outcome = Shown | Own | No_Details

definition outcome :: "os \<Rightarrow> int \<Rightarrow> string \<Rightarrow> outcome" where
  "outcome os me raw =
     (case session_details os (Some raw) True True of
        Inl _ \<Rightarrow> No_Details
      | Inr d \<Rightarrow> if \<not> det_ok d then No_Details else if det_uid d = Val me then Own else Shown)"

text \<open>
  The loop of \<open>_load_sessions\<close>. \<open>slots\<close> is the array of pointers, by the index of the block each
  points to; a slot is filled again without a look at what it held.
\<close>

fun load_sessions_mem ::
  "nat \<Rightarrow> outcome list \<Rightarrow> nat \<Rightarrow> nat \<Rightarrow> nat option list \<Rightarrow> heap \<Rightarrow> (nat \<times> nat option list \<times> heap) res" where
  "load_sessions_mem number [] i offset slots m = Inr (offset, slots, m)"
| "load_sessions_mem number (x # xs) i offset slots m =
     (if \<not> i - offset < length slots then Inl Out_Of_Bounds
      else
        let m1 = insert (Session_block i) m; slots1 = slots[i - offset := Some i]
        in case x of
             No_Details \<Rightarrow>
               bindR (free_block (Session_block i) m1)
                 (\<lambda>m2. let size = number - Suc offset
                       in load_sessions_mem number xs (Suc i) (Suc offset) (take size (slots1[i - offset := None]))
                            (if size = 0 then m2 - {Sessions_array} else m2))
           | Own \<Rightarrow>
               load_sessions_mem number xs (Suc i) (Suc offset) slots1 (insert (Session_text i Name_Text) m1)
           | Shown \<Rightarrow>
               load_sessions_mem number xs (Suc i) offset slots1
                 (insert (Session_text i Owner_Text) (insert (Session_text i Id_Text) (insert (Session_text i Name_Text) m1))))"

text \<open>A user has an icon and a preferred session or not; the name is copied twice, once for the loop.\<close>

type_synonym user_fields = "bool \<times> bool"

fun load_users_mem :: "user_fields list \<Rightarrow> nat \<Rightarrow> heap \<Rightarrow> heap res" where
  "load_users_mem [] i m = Inr m"
| "load_users_mem ((icon, pref) # us) i m =
     (let m1 = insert (User_block i) m;
          m2 = (if icon then insert (User_text i Icon_Text) m1 else m1);
          m3 = insert (User_text i Name_Text) m2;
          m4 = (if pref then insert (User_text i Prefered_Text) m3 else m3)
      in bindR (free_block (Name_copy i) m4) (load_users_mem us (Suc i)))"

text \<open>\<open>user_db_users_iterate\<close> copies the names.\<close>

definition iterate_mem :: "nat \<Rightarrow> heap \<Rightarrow> heap" where
  "iterate_mem n m = calloc_array Names_array m \<union> Name_copy ` {..<n}"

definition load_users_all :: "user_fields list \<Rightarrow> heap \<Rightarrow> heap res" where
  "load_users_all us m =
     bindR (load_users_mem us 0 (calloc_array Users_array (iterate_mem (length us) m))) (free_block Names_array)"

text \<open>The strings of a template are the registry's own; only its block is new.\<close>

definition load_templates_mem :: "nat \<Rightarrow> heap \<Rightarrow> heap res" where
  "load_templates_mem n m =
     free_block Raw_array (calloc_array Templates_array (calloc_array Raw_array m) \<union> Template_block ` {..<n})"

subsection \<open>What is given back\<close>

definition free_sessions :: "nat \<Rightarrow> heap \<Rightarrow> heap res" where
  "free_sessions i m =
     bindR (free_block (Session_text i Id_Text) m)
       (\<lambda>m. bindR (free_block (Session_text i Owner_Text) m) (free_block (Session_text i Name_Text)))"

definition free_users :: "nat \<Rightarrow> user_fields \<Rightarrow> heap \<Rightarrow> heap res" where
  "free_users i u m = bindR (free_block (User_text i Name_Text) m) (free_if (fst u) (User_text i Icon_Text))"

definition free_templates :: "nat \<Rightarrow> heap \<Rightarrow> heap res" where
  "free_templates i m = Inr m"

text \<open>The macro \<open>IT_FREE\<close>: each entry's parts, each entry, and the array unless it has no entries.\<close>

definition IT_FREE :: "('e \<Rightarrow> heap \<Rightarrow> heap res) \<Rightarrow> ('e \<Rightarrow> block) \<Rightarrow> block \<Rightarrow> 'e list \<Rightarrow> heap \<Rightarrow> heap res" where
  "IT_FREE func entry arr es m =
     (if 0 < length es then
        bindR (foldR (\<lambda>e m. bindR (func e m) (free_block (entry e))) es m) (free_block arr)
      else Inr m)"

definition free_data :: "user_fields list \<Rightarrow> nat option list \<Rightarrow> nat \<Rightarrow> heap \<Rightarrow> heap res" where
  "free_data us sessions templates m =
     bindR (IT_FREE (\<lambda>(i, u). free_users i u) (\<lambda>(i, _). User_block i) Users_array (List.enumerate 0 us) m)
       (\<lambda>m. bindR (foldR (\<lambda>x xs. bindR (deref x Null_Deref) (\<lambda>i. Inr (xs @ [i]))) sessions [])
         (\<lambda>is. bindR (IT_FREE free_sessions Session_block Sessions_array is m)
           (IT_FREE free_templates Template_block Templates_array [0..<templates])))"

text \<open>A whole \<open>HELLO\<close>: templates, users and sessions are loaded, sent, and freed.\<close>

definition hello_memory :: "outcome list \<Rightarrow> user_fields list \<Rightarrow> nat \<Rightarrow> heap \<Rightarrow> heap res" where
  "hello_memory outs us templates m =
     bindR (load_templates_mem templates m)
       (\<lambda>m. bindR (load_users_all us m)
         (\<lambda>m. let number = length outs
              in bindR (load_sessions_mem number outs 0 0 (replicate number None) (calloc_array Sessions_array m))
                   (\<lambda>(offset, slots, m). free_data us (take (number - offset) slots) templates m)))"

subsection \<open>What stays\<close>

fun session_blocks :: "outcome \<Rightarrow> nat \<Rightarrow> heap" where
  "session_blocks Shown i = {Session_block i, Session_text i Name_Text, Session_text i Id_Text, Session_text i Owner_Text}"
| "session_blocks Own i = {Session_block i, Session_text i Name_Text}"
| "session_blocks No_Details i = {}"

definition shown_indices :: "nat \<Rightarrow> outcome list \<Rightarrow> nat list" where
  "shown_indices i xs = map fst (filter (\<lambda>(_, x). x = Shown) (List.enumerate i xs))"

definition all_session_blocks :: "nat \<Rightarrow> outcome list \<Rightarrow> heap" where
  "all_session_blocks i xs = (\<Union>(j, x) \<in> set (List.enumerate i xs). session_blocks x j)"

lemma shown_indices_simps [simp]:
  "shown_indices i [] = []"
  "shown_indices i (x # xs) = (if x = Shown then i # shown_indices (Suc i) xs else shown_indices (Suc i) xs)"
  by (simp_all add: shown_indices_def)

lemma all_session_blocks_simps [simp]:
  "all_session_blocks i [] = {}"
  "all_session_blocks i (x # xs) = session_blocks x i \<union> all_session_blocks (Suc i) xs"
  by (auto simp: all_session_blocks_def)

text \<open>
  The loop keeps, of the heap, everything but the array of pointers apart: \<open>acc\<close> are the sessions
  shown so far; the array is there as long as it has a slot.
\<close>

text \<open>What the loop promises of its result \<open>r\<close>, from a place where \<open>acc\<close> has been shown and \<open>m\<close> is allocated.\<close>

definition sessions_kept ::
  "nat \<Rightarrow> outcome list \<Rightarrow> nat \<Rightarrow> nat \<Rightarrow> nat list \<Rightarrow> bool \<Rightarrow> heap \<Rightarrow> (nat \<times> nat option list \<times> heap) res \<Rightarrow> bool" where
  "sessions_kept number xs i offset acc no_slots m r \<longleftrightarrow>
     (\<exists>off slots' m'. r = Inr (off, slots', m') \<and>
       take (number - off) slots' = map Some (acc @ shown_indices i xs) \<and>
       off + length (shown_indices i xs) = offset + length xs \<and>
       m' - {Sessions_array} = (m - {Sessions_array}) \<union> all_session_blocks i xs \<and>
       (Sessions_array \<in> m' \<longleftrightarrow> slots' \<noteq> []) \<and>
       (slots' = [] \<longleftrightarrow> (if xs = [] then no_slots else last xs = No_Details \<and> off = number)))"

lemma load_sessions_mem_spec:
  assumes "i + length xs = number" and "offset \<le> i" and "number - offset \<le> length slots"
    and "take (i - offset) slots = map Some acc"
    and "Sessions_array \<in> m \<longleftrightarrow> slots \<noteq> []" and "\<forall>j \<ge> i. Session_block j \<notin> m"
  shows "sessions_kept number xs i offset acc (slots = []) m (load_sessions_mem number xs i offset slots m)"
  using assms
proof (induction xs arbitrary: i offset slots acc m)
  case Nil
  then show ?case by (simp add: sessions_kept_def)
next
  case (Cons x xs)
  let ?k = "i - offset"
  let ?m1 = "insert (Session_block i) m"
  let ?s1 = "slots[?k := Some i]"
  have k: "?k < length slots" using Cons.prems(1-3) by simp
  have len: "Suc i + length xs = number" using Cons.prems(1) by simp
  have taken: "take ?k ?s1 = map Some acc" using Cons.prems(4) by simp
  have some: "Sessions_array \<in> m" "?s1 \<noteq> []" using Cons.prems(5) k by auto
  show ?case
  proof (cases x)
    case No_Details
    let ?size = "number - Suc offset"
    let ?s2 = "take ?size (?s1[?k := None])"
    let ?m2 = "if ?size = 0 then m - {Sessions_array} else m"
    have f: "free_block (Session_block i) ?m1 = Inr m" using Cons.prems(6) by (simp add: free_block_def)
    have p: "Suc offset \<le> Suc i" "number - Suc offset \<le> length ?s2" "take (Suc i - Suc offset) ?s2 = map Some acc"
      using Cons.prems(1-4) by simp_all
    have "?s2 \<noteq> [] \<longleftrightarrow> ?size \<noteq> 0" using k by auto
    with some have arr: "Sessions_array \<in> ?m2 \<longleftrightarrow> ?s2 \<noteq> []" by simp
    have new: "\<forall>j \<ge> Suc i. Session_block j \<notin> ?m2" using Cons.prems(6) by simp
    have IH: "sessions_kept number xs (Suc i) (Suc offset) acc (?s2 = []) ?m2 (load_sessions_mem number xs (Suc i) (Suc offset) ?s2 ?m2)"
      by (rule Cons.IH [OF len p arr new])
    have "?s2 = [] \<longleftrightarrow> Suc offset = number" using k Cons.prems(1-2) by auto
    moreover have "?m2 - {Sessions_array} = m - {Sessions_array}" by simp
    ultimately have "sessions_kept number (x # xs) i offset acc (slots = []) m (load_sessions_mem number xs (Suc i) (Suc offset) ?s2 ?m2)"
      using IH No_Details unfolding sessions_kept_def by fastforce
    then show ?thesis using No_Details k f by (simp add: Let_def)
  next
    case Own
    let ?m2 = "insert (Session_text i Name_Text) ?m1"
    have p: "Suc offset \<le> Suc i" "number - Suc offset \<le> length ?s1" "take (Suc i - Suc offset) ?s1 = map Some acc"
      using Cons.prems(1-4) by simp_all
    have arr: "Sessions_array \<in> ?m2 \<longleftrightarrow> ?s1 \<noteq> []" using some by simp
    have new: "\<forall>j \<ge> Suc i. Session_block j \<notin> ?m2" using Cons.prems(6) by simp
    have IH: "sessions_kept number xs (Suc i) (Suc offset) acc (?s1 = []) ?m2 (load_sessions_mem number xs (Suc i) (Suc offset) ?s1 ?m2)"
      by (rule Cons.IH [OF len p arr new])
    have "?m2 - {Sessions_array} = (m - {Sessions_array}) \<union> session_blocks x i" using Own by auto
    then have "sessions_kept number (x # xs) i offset acc (slots = []) m (load_sessions_mem number xs (Suc i) (Suc offset) ?s1 ?m2)"
      using IH Own some(2) unfolding sessions_kept_def by (elim exE) (auto simp: Un_assoc)
    then show ?thesis using Own k by (simp add: Let_def)
  next
    case Shown
    let ?m2 = "insert (Session_text i Owner_Text) (insert (Session_text i Id_Text) (insert (Session_text i Name_Text) ?m1))"
    have "Suc i - offset = Suc ?k" using Cons.prems(2) by simp
    then have p: "offset \<le> Suc i" "number - offset \<le> length ?s1" "take (Suc i - offset) ?s1 = map Some (acc @ [i])"
      using Cons.prems(1-4) k by (simp_all add: take_Suc_update)
    have arr: "Sessions_array \<in> ?m2 \<longleftrightarrow> ?s1 \<noteq> []" using some by simp
    have new: "\<forall>j \<ge> Suc i. Session_block j \<notin> ?m2" using Cons.prems(6) by simp
    have IH: "sessions_kept number xs (Suc i) offset (acc @ [i]) (?s1 = []) ?m2 (load_sessions_mem number xs (Suc i) offset ?s1 ?m2)"
      by (rule Cons.IH [OF len p arr new])
    have "?m2 - {Sessions_array} = (m - {Sessions_array}) \<union> session_blocks x i" using Shown by auto
    then have "sessions_kept number (x # xs) i offset acc (slots = []) m (load_sessions_mem number xs (Suc i) offset ?s1 ?m2)"
      using IH Shown some(2) unfolding sessions_kept_def by (elim exE) (auto simp: Un_assoc)
    then show ?thesis using Shown k by (simp add: Let_def)
  qed
qed

text \<open>The whole loop: the array is there still if there was nothing to do or a slot is left.\<close>

lemma load_sessions_mem_start:
  assumes "\<And>j. Session_block j \<notin> m"
  shows "\<exists>off slots' m'.
      load_sessions_mem (length xs) xs 0 0 (replicate (length xs) None) (insert Sessions_array m) = Inr (off, slots', m') \<and>
      take (length xs - off) slots' = map Some (shown_indices 0 xs) \<and>
      m' - {Sessions_array} = (m - {Sessions_array}) \<union> all_session_blocks 0 xs \<and>
      (Sessions_array \<in> m' \<longleftrightarrow> xs = [] \<or> last xs \<noteq> No_Details \<or> shown_indices 0 xs \<noteq> [])"
proof (cases "xs = []")
  case False
  let ?n = "length xs" and ?m = "insert Sessions_array m"
  have arr: "Sessions_array \<in> ?m \<longleftrightarrow> replicate ?n None \<noteq> []" "\<forall>j \<ge> 0. Session_block j \<notin> ?m"
    using False assms by auto
  have "sessions_kept ?n xs 0 0 [] (replicate ?n (None :: nat option) = []) ?m (load_sessions_mem ?n xs 0 0 (replicate ?n None) ?m)"
    by (rule load_sessions_mem_spec [OF _ _ _ _ arr]) simp_all
  then obtain off slots' m' where l: "load_sessions_mem ?n xs 0 0 (replicate ?n None) ?m = Inr (off, slots', m')"
    and taken: "take (?n - off) slots' = map Some (shown_indices 0 xs)" and off: "off + length (shown_indices 0 xs) = ?n"
    and m': "m' - {Sessions_array} = (?m - {Sessions_array}) \<union> all_session_blocks 0 xs"
      "Sessions_array \<in> m' \<longleftrightarrow> slots' \<noteq> []" and slots: "slots' = [] \<longleftrightarrow> last xs = No_Details \<and> off = ?n"
    unfolding sessions_kept_def append_Nil add_0 if_not_P [OF False] by blast
  have "off = ?n \<longleftrightarrow> shown_indices 0 xs = []" using off by auto
  with m'(2) slots False have "Sessions_array \<in> m' \<longleftrightarrow> xs = [] \<or> last xs \<noteq> No_Details \<or> shown_indices 0 xs \<noteq> []" by metis
  moreover have "m' - {Sessions_array} = (m - {Sessions_array}) \<union> all_session_blocks 0 xs" using m'(1) by simp
  ultimately show ?thesis using l taken by blast
qed simp

subsection \<open>Users, templates, and giving back\<close>

definition user_blocks :: "user_fields \<Rightarrow> nat \<Rightarrow> heap" where
  "user_blocks u i = {User_block i, User_text i Name_Text} \<union> (if fst u then {User_text i Icon_Text} else {}) \<union>
     (if snd u then {User_text i Prefered_Text} else {})"

definition all_user_blocks :: "nat \<Rightarrow> user_fields list \<Rightarrow> heap" where
  "all_user_blocks i us = (\<Union>(j, u) \<in> set (List.enumerate i us). user_blocks u j)"

lemma load_users_mem_effect:
  "Name_copy ` {i..<i + length us} \<subseteq> m \<Longrightarrow>
   load_users_mem us i m = Inr ((m - Name_copy ` {i..<i + length us}) \<union> all_user_blocks i us)"
proof (induction us arbitrary: i m)
  case Nil
  then show ?case by (simp add: all_user_blocks_def)
next
  case (Cons u us)
  obtain icon pref where u: "u = (icon, pref)" by (cases u)
  let ?names = "Name_copy ` {Suc i..<Suc i + length us}"
  have names: "Name_copy ` {i..<i + length (u # us)} = insert (Name_copy i) ?names"
    by (force simp: image_iff)
  let ?m = "m \<union> user_blocks u i - {Name_copy i}"
  have "load_users_mem (u # us) i m = load_users_mem us (Suc i) ?m"
    using Cons.prems unfolding names
    by (simp add: u Let_def free_block_def user_blocks_def insert_commute Un_insert_right)
  also have "\<dots> = Inr ((?m - ?names) \<union> all_user_blocks (Suc i) us)"
    using Cons.prems unfolding names by (intro Cons.IH) auto
  also have "(?m - ?names) \<union> all_user_blocks (Suc i) us =
      (m - Name_copy ` {i..<i + length (u # us)}) \<union> all_user_blocks i (u # us)"
    unfolding names by (auto simp: all_user_blocks_def user_blocks_def)
  finally show ?case .
qed

text \<open>Freeing the parts and the block of every entry, where no two entries share anything.\<close>

lemma IT_FREE_effect:
  assumes part: "\<And>e m. e \<in> set es \<Longrightarrow> P e \<subseteq> m \<Longrightarrow> func e m = Inr (m - P e)"
    and own: "\<And>e. e \<in> set es \<Longrightarrow> entry e \<notin> P e"
    and apart: "\<And>e f. e \<in> set es \<Longrightarrow> f \<in> set es \<Longrightarrow> e \<noteq> f \<Longrightarrow> insert (entry e) (P e) \<inter> insert (entry f) (P f) = {}"
    and "distinct es" and "(\<Union>e \<in> set es. insert (entry e) (P e)) \<subseteq> m"
    and arr: "arr \<notin> (\<Union>e \<in> set es. insert (entry e) (P e))" "es \<noteq> [] \<Longrightarrow> arr \<in> m"
  shows "IT_FREE func entry arr es m =
    Inr (m - (\<Union>e \<in> set es. insert (entry e) (P e)) - (if es = [] then {} else {arr}))"
proof -
  let ?step = "\<lambda>e m. bindR (func e m) (free_block (entry e))"
  have "foldR ?step fs m = Inr (m - (\<Union>e \<in> set fs. insert (entry e) (P e)))"
    if "set fs \<subseteq> set es" "distinct fs" "(\<Union>e \<in> set fs. insert (entry e) (P e)) \<subseteq> m" for fs m
    using that
  proof (induction fs arbitrary: m)
    case (Cons e fs)
    let ?m = "m - insert (entry e) (P e)"
    have e: "e \<in> set es" "P e \<subseteq> m" "entry e \<in> m" using Cons.prems(1,3) by auto
    have "?step e m = Inr ?m"
      using part [OF e(1,2)] own [OF e(1)] e(3) by (simp add: free_block_def) auto
    moreover have "(\<Union>f \<in> set fs. insert (entry f) (P f)) \<subseteq> ?m"
    proof (rule UN_least)
      fix f assume f: "f \<in> set fs"
      then have "insert (entry f) (P f) \<inter> insert (entry e) (P e) = {}"
        using Cons.prems(1,2) e(1) by (intro apart) auto
      moreover have "insert (entry f) (P f) \<subseteq> m" using Cons.prems(3) f by auto
      ultimately show "insert (entry f) (P f) \<subseteq> ?m" by blast
    qed
    then have "foldR ?step fs ?m = Inr (?m - (\<Union>f \<in> set fs. insert (entry f) (P f)))"
      using Cons.prems(1,2) by (intro Cons.IH) auto
    ultimately show ?case by (simp add: Diff_eq Compl_Un Int_assoc) blast
  qed simp
  from this [of es m] assms(4,5) arr show ?thesis
    by (auto simp: IT_FREE_def free_block_def)
qed

subsection \<open>The balance\<close>

definition leaked :: "outcome list \<Rightarrow> user_fields list \<Rightarrow> nat \<Rightarrow> heap" where
  "leaked outs us templates =
     {User_text i Prefered_Text |i. i < length us \<and> snd (us ! i)} \<union>
     {b. \<exists>i < length outs. outs ! i = Own \<and> b \<in> {Session_block i, Session_text i Name_Text}} \<union>
     (if Shown \<notin> set outs \<and> (outs = [] \<or> last outs = Own) then {Sessions_array} else {}) \<union>
     (if us = [] then {Users_array} else {}) \<union>
     (if templates = 0 then {Templates_array} else {})"

definition given_user :: "nat \<times> user_fields \<Rightarrow> heap" where
  "given_user e = {User_text (fst e) Name_Text} \<union> (if fst (snd e) then {User_text (fst e) Icon_Text} else {})"

definition given_session :: "nat \<Rightarrow> heap" where
  "given_session i = {Session_text i Id_Text, Session_text i Owner_Text, Session_text i Name_Text}"

lemma load_users_all_effect:
  assumes "range Name_copy \<inter> m = {}" and "Names_array \<notin> m"
  shows "load_users_all us m = Inr (m \<union> all_user_blocks 0 us \<union> {Users_array})"
proof -
  let ?n = "length us"
  let ?m = "calloc_array Users_array (iterate_mem ?n m)"
  let ?names = "Name_copy ` {0..<0 + ?n}"
  have "?names \<subseteq> ?m" by (auto simp: calloc_array_def iterate_mem_def)
  from load_users_mem_effect [OF this]
  have r: "load_users_mem us 0 ?m = Inr ((?m - ?names) \<union> all_user_blocks 0 us)" .
  have no: "Names_array \<notin> all_user_blocks 0 us" by (auto simp: all_user_blocks_def user_blocks_def split: if_splits)
  have m: "?m = m \<union> {Names_array, Users_array} \<union> Name_copy ` {..<?n}"
    by (auto simp: calloc_array_def iterate_mem_def)
  have names: "?names = Name_copy ` {..<?n}" by auto
  have "(?m - ?names) \<union> all_user_blocks 0 us = m \<union> {Names_array, Users_array} \<union> all_user_blocks 0 us"
    using assms(1) unfolding m names by auto
  then show ?thesis using r no assms(2)
    by (auto simp: load_users_all_def free_block_def)
qed

lemma given_user_frees:
  "e \<in> set (List.enumerate 0 us) \<Longrightarrow> given_user e \<subseteq> m \<Longrightarrow>
   (case e of (i, u) \<Rightarrow> free_users i u) m = Inr (m - given_user e)"
  by (cases e) (auto simp: given_user_def free_users_def free_block_def free_if_def)

lemma given_session_frees: "given_session i \<subseteq> m \<Longrightarrow> free_sessions i m = Inr (m - given_session i)"
  by (auto simp: given_session_def free_sessions_def free_block_def)

lemma slots_indices:
  "foldR (\<lambda>x xs. bindR (deref x Null_Deref) (\<lambda>i. Inr (xs @ [i]))) (map Some is) [] = Inr is"
proof -
  have "foldR (\<lambda>x xs. bindR (deref x Null_Deref) (\<lambda>i. Inr (xs @ [i]))) (map Some is) acc = Inr (acc @ is)" for acc
    by (induction "is" arbitrary: acc) simp_all
  then show ?thesis by simp
qed

lemma set_shown: "i \<in> set (shown_indices 0 xs) \<longleftrightarrow> i < length xs \<and> xs ! i = Shown"
  by (force simp: shown_indices_def in_set_enumerate_eq image_iff)

lemma distinct_shown: "distinct (shown_indices i xs)"
  by (simp add: shown_indices_def distinct_map_filter)

lemma load_templates_mem_effect:
  "Raw_array \<notin> m \<Longrightarrow>
   load_templates_mem n m = Inr (m \<union> Template_block ` {..<n} \<union> {Templates_array})"
  by (auto simp: load_templates_mem_def free_block_def calloc_array_def)

lemma distinct_enumerate: "distinct (List.enumerate i xs)"
  using distinct_map [of fst "List.enumerate i xs"] by simp

text \<open>Giving back, entry by entry, from a heap that holds all of it.\<close>

lemma free_data_effect:
  assumes us: "(\<Union>e \<in> set (List.enumerate 0 us). insert (User_block (fst e)) (given_user e)) \<subseteq> m" "us \<noteq> [] \<Longrightarrow> Users_array \<in> m"
    and ss: "(\<Union>i \<in> set is. insert (Session_block i) (given_session i)) \<subseteq> m" "is \<noteq> [] \<Longrightarrow> Sessions_array \<in> m" "distinct is"
    and ts: "Template_block ` {..<n} \<subseteq> m" "n \<noteq> 0 \<Longrightarrow> Templates_array \<in> m"
  shows "free_data us (map Some is) n m =
    Inr (m - (\<Union>e \<in> set (List.enumerate 0 us). insert (User_block (fst e)) (given_user e)) - (if us = [] then {} else {Users_array})
           - (\<Union>i \<in> set is. insert (Session_block i) (given_session i)) - (if is = [] then {} else {Sessions_array})
           - Template_block ` {..<n} - (if n = 0 then {} else {Templates_array}))"
proof -
  let ?U = "\<Union>e \<in> set (List.enumerate 0 us). insert (User_block (fst e)) (given_user e)"
  let ?S = "\<Union>i \<in> set is. insert (Session_block i) (given_session i)"
  let ?m1 = "m - ?U - (if us = [] then {} else {Users_array})"
  let ?m2 = "?m1 - ?S - (if is = [] then {} else {Sessions_array})"
  have U: "\<And>x. x \<in> ?U \<Longrightarrow> (\<exists>i. x = User_block i) \<or> (\<exists>i f. x = User_text i f)"
    by (auto simp: given_user_def split: if_splits)
  have S: "\<And>x. x \<in> ?S \<Longrightarrow> (\<exists>i. x = Session_block i) \<or> (\<exists>i f. x = Session_text i f)"
    by (auto simp: given_session_def)
  have enum: "List.enumerate 0 us = [] \<longleftrightarrow> us = []" by (metis length_enumerate length_0_conv)
  have apart: "insert (User_block (fst e)) (given_user e) \<inter> insert (User_block (fst f)) (given_user f) = {}"
    if "e \<in> set (List.enumerate 0 us)" "f \<in> set (List.enumerate 0 us)" "e \<noteq> f" for e f
  proof -
    have "fst e \<noteq> fst f" using that by (auto simp: in_set_enumerate_eq prod_eq_iff)
    then show ?thesis by (auto simp: given_user_def split: if_splits)
  qed
  have "(\<lambda>(i, _). User_block i) = (\<lambda>e :: nat \<times> user_fields. User_block (fst e))" by (auto simp: fun_eq_iff)
  moreover have "Users_array \<notin> ?U" using U by blast
  ultimately have 1: "IT_FREE (\<lambda>(i, u). free_users i u) (\<lambda>(i, _). User_block i) Users_array (List.enumerate 0 us) m = Inr ?m1"
    using us IT_FREE_effect [of "List.enumerate 0 us" given_user "\<lambda>(i, u). free_users i u" "\<lambda>e. User_block (fst e)" m Users_array,
        OF given_user_frees _ apart distinct_enumerate]
    using enum by (auto simp: given_user_def split: if_splits)
  have S1: "Sessions_array \<notin> ?S" "Users_array \<notin> ?S" "?S \<inter> ?U = {}" using S U by blast+
  have "?S \<subseteq> ?m1" using ss(1) S1 by auto
  moreover have "Sessions_array \<in> ?m1" if "is \<noteq> []" using ss(2) [OF that] U by auto
  ultimately have 2: "IT_FREE free_sessions Session_block Sessions_array is ?m1 = Inr ?m2"
    using IT_FREE_effect [of "is" given_session free_sessions Session_block ?m1 Sessions_array,
        OF given_session_frees _ _ ss(3)] S1(1)
    by (auto simp: given_session_def)
  have T1: "Template_block ` {..<n} \<inter> ?U = {}" "Template_block ` {..<n} \<inter> ?S = {}" using U S by blast+
  moreover have "Template_block ` {..<n} \<inter> (if us = [] then {} else {Users_array}) = {}"
    "Template_block ` {..<n} \<inter> (if is = [] then {} else {Sessions_array}) = {}" by auto
  moreover have less: "A \<subseteq> B - C \<longleftrightarrow> A \<subseteq> B \<and> A \<inter> C = {}" for A B C :: heap by blast
  ultimately have "Template_block ` {..<n} \<subseteq> ?m2" using ts(1) by (simp only: less)
  moreover have "Templates_array \<in> ?m2" if "n \<noteq> 0" using ts(2) [OF that] U S by auto
  moreover have "Templates_array \<notin> Template_block ` {0..<n}" by blast
  ultimately have 3: "IT_FREE free_templates Template_block Templates_array [0..<n] ?m2 =
      Inr (?m2 - Template_block ` {..<n} - (if n = 0 then {} else {Templates_array}))"
    using IT_FREE_effect [of "[0..<n]" "\<lambda>_. {}" free_templates Template_block ?m2 Templates_array]
    by (auto simp: free_templates_def lessThan_atLeast0 UNION_singleton_eq_range)
  show ?thesis by (simp only: free_data_def 1 2 3 slots_indices bindR_Inr)
qed

text \<open>Which blocks are there, by their names.\<close>

lemma set_enumerate_0: "set (List.enumerate 0 xs) = (\<lambda>i. (i, xs ! i)) ` {..<length xs}"
  by (auto simp: in_set_enumerate_eq image_iff prod_eq_iff)

lemma user_members:
  "b \<in> all_user_blocks 0 us \<longleftrightarrow>
     (case b of User_block i \<Rightarrow> i < length us
      | User_text i f \<Rightarrow> i < length us \<and>
          (f = Name_Text \<or> f = Icon_Text \<and> fst (us ! i) \<or> f = Prefered_Text \<and> snd (us ! i))
      | _ \<Rightarrow> False)" (is ?all)
  "b \<in> (\<Union>e \<in> set (List.enumerate 0 us). insert (User_block (fst e)) (given_user e)) \<longleftrightarrow>
     (case b of User_block i \<Rightarrow> i < length us
      | User_text i f \<Rightarrow> i < length us \<and> (f = Name_Text \<or> f = Icon_Text \<and> fst (us ! i))
      | _ \<Rightarrow> False)" (is ?given)
proof -
  have 1: "b \<in> all_user_blocks 0 us \<longleftrightarrow> (\<exists>i < length us. b \<in> user_blocks (us ! i) i)"
    by (auto simp: all_user_blocks_def set_enumerate_0)
  have 2: "b \<in> (\<Union>e \<in> set (List.enumerate 0 us). insert (User_block (fst e)) (given_user e)) \<longleftrightarrow>
      (\<exists>i < length us. b \<in> insert (User_block i) (given_user (i, us ! i)))"
    by (auto simp: set_enumerate_0)
  show ?all unfolding 1 by (cases b) (auto simp: user_blocks_def)
  show ?given unfolding 2 by (cases b) (auto simp: given_user_def)
qed

lemma session_members:
  "b \<in> all_session_blocks 0 xs \<longleftrightarrow>
     (case b of Session_block i \<Rightarrow> i < length xs \<and> xs ! i \<noteq> No_Details
      | Session_text i f \<Rightarrow> i < length xs \<and>
          (xs ! i = Shown \<and> f \<in> {Name_Text, Id_Text, Owner_Text} \<or> xs ! i = Own \<and> f = Name_Text)
      | _ \<Rightarrow> False)"
  "b \<in> (\<Union>i \<in> set (shown_indices 0 xs). insert (Session_block i) (given_session i)) \<longleftrightarrow>
     (case b of Session_block i \<Rightarrow> i < length xs \<and> xs ! i = Shown
      | Session_text i f \<Rightarrow> i < length xs \<and> xs ! i = Shown \<and> f \<in> {Name_Text, Id_Text, Owner_Text}
      | _ \<Rightarrow> False)"
proof -
  have "b \<in> all_session_blocks 0 xs \<longleftrightarrow> (\<exists>i < length xs. b \<in> session_blocks (xs ! i) i)"
    by (auto simp: all_session_blocks_def set_enumerate_0)
  moreover have "b \<in> session_blocks x i \<longleftrightarrow>
      (case b of Session_block j \<Rightarrow> j = i \<and> x \<noteq> No_Details
       | Session_text j f \<Rightarrow> j = i \<and> (x = Shown \<and> f \<in> {Name_Text, Id_Text, Owner_Text} \<or> x = Own \<and> f = Name_Text)
       | _ \<Rightarrow> False)" for x i
    by (cases x; cases b) auto
  ultimately show "b \<in> all_session_blocks 0 xs \<longleftrightarrow>
     (case b of Session_block i \<Rightarrow> i < length xs \<and> xs ! i \<noteq> No_Details
      | Session_text i f \<Rightarrow> i < length xs \<and>
          (xs ! i = Shown \<and> f \<in> {Name_Text, Id_Text, Owner_Text} \<or> xs ! i = Own \<and> f = Name_Text)
      | _ \<Rightarrow> False)"
    by (cases b) auto
  show "b \<in> (\<Union>i \<in> set (shown_indices 0 xs). insert (Session_block i) (given_session i)) \<longleftrightarrow>
     (case b of Session_block i \<Rightarrow> i < length xs \<and> xs ! i = Shown
      | Session_text i f \<Rightarrow> i < length xs \<and> xs ! i = Shown \<and> f \<in> {Name_Text, Id_Text, Owner_Text}
      | _ \<Rightarrow> False)"
    by (cases b) (auto simp: given_session_def set_shown)
qed

lemma leaked_members:
  "b \<in> leaked xs us n \<longleftrightarrow>
     (case b of User_text i f \<Rightarrow> i < length us \<and> f = Prefered_Text \<and> snd (us ! i)
      | Session_block i \<Rightarrow> i < length xs \<and> xs ! i = Own
      | Session_text i f \<Rightarrow> i < length xs \<and> xs ! i = Own \<and> f = Name_Text
      | Sessions_array \<Rightarrow> Shown \<notin> set xs \<and> (xs = [] \<or> last xs = Own)
      | Users_array \<Rightarrow> us = []
      | Templates_array \<Rightarrow> n = 0
      | _ \<Rightarrow> False)"
  by (cases b) (auto simp: leaked_def)


text \<open>The outcomes are those of \<open>load_sessions\<close>: a session is shown exactly if it has an entry in the answer.\<close>

lemma outcome_shown:
  assumes "session_known os me raw"
  shows "outcome os me raw = Shown \<longleftrightarrow> session_entry os me raw \<noteq> None"
  using assms
  by (auto simp: outcome_def session_known_def session_entry_def split: sum.splits cell.splits if_splits)

lemma shown_are_sent:
  assumes "getpwnam os SP_USER = Some su" and "\<forall>raw \<in> set (session_enumerate os seat). session_known os (pw_uid su) raw"
  shows "length (shown_indices 0 (map (outcome os (pw_uid su)) (session_enumerate os seat))) = length (sessions_sent os seat)"
proof -
  have "length (shown_indices i (map (outcome os me) raws)) = length (List.map_filter (session_entry os me) raws)"
    if "\<forall>raw \<in> set raws. session_known os me raw" for i me raws
    using that by (induction raws arbitrary: i) (auto simp: List.map_filter_simps outcome_shown)
  with assms show ?thesis by (simp add: sessions_sent_def)
qed

end
