(* ===== verification/Child_Budget.thy ===== *)
theory Child_Budget
  imports Offers
begin

section \<open>How many sessions a daemon can start in its life\<close>

text \<open>
  \<open>tty_counter\<close> of \<open>spawnservice.c\<close> only ever goes up, and a process is started only with a terminal above
  it. Theory \<open>Daemon\<close> has carried this through every operation (\<open>spends\<close>); here it is added up over a whole run
  of the program, from the globals at its start.
\<close>

subsection \<open>The start takes nothing\<close>

lemma parse_args_forks:
  fixes s t :: "'a daemon_scheme"
  assumes "parse_args argv s = (ok, t)"
  shows "nforks t = nforks s"
proof -
  have "parse_daemon_args args u = (ok, t) \<Longrightarrow> nforks t = nforks u" for args and u :: "'a daemon_scheme"
    by (induction args u rule: parse_daemon_args.induct) (auto split: if_splits)
  with assms show ?thesis by (fastforce simp: parse_args_def)
qed

lemma mkpath_forks: "mkpath so path s = Inr (ret, u) \<Longrightarrow> nforks u = nforks s"
proof (induction so path s arbitrary: ret u rule: mkpath.induct)
  case (1 so path s)
  have last: "mkdir_last so path t = (ret, u) \<Longrightarrow> nforks u = nforks t" for t ret u
    by (auto simp: mkdir_last_def split: if_splits)
  from "1.prems" show ?case
    by (subst (asm) mkpath.simps)
       (auto simp: Let_def elim!: bindR_InrE dest!: "1.IH" [rotated 3] last split: if_splits)
qed

lemma purse_more:
  fixes s t :: "'a daemon_scheme"
  shows "world.more t = world.more s \<Longrightarrow> nforks t = nforks s \<Longrightarrow> purse t = purse s"
  by (cases s; cases t) (simp add: purse_def)

lemma purse_rest [simp]: "purse (s\<lparr>server_sock := fd\<rparr>) = purse s" "purse (s\<lparr>udb := d\<rparr>) = purse s"
  "purse (s\<lparr>tmpls := x\<rparr>) = purse s" "purse (s\<lparr>counter := c\<rparr>) = purse s"
  by (simp_all add: purse_def)

lemma mkdirpath_purse:
  fixes s u :: "'a daemon_scheme"
  assumes "mkdirpath so p s = Inr u"
  shows "purse u = purse s"
proof -
  from assms obtain ret where "mkpath so (c_dirname p) s = Inr (ret, u)"
    by (auto simp: mkdirpath_def elim!: bindR_InrE)
  then show ?thesis by (intro purse_more) (simp_all add: mkpath_frame mkpath_forks)
qed

lemma socket_setup_purse: "socket_setup so s = Inr (ok, t) \<Longrightarrow> purse t = purse s"
  by (cases "prefetch_server_socket so = 0")
     (auto simp: socket_setup_def Let_def elim!: bindR_InrE dest!: mkdirpath_purse split: if_splits)

lemma main_setup_purse:
  fixes s0 s :: "'a daemon_scheme"
  assumes "main_setup os mo argv s0 = Inr (True, s)" and "at_start s0"
    and "length (all_contents (mo_desk mo)) < 2 ^ 31"
  shows "purse s = purse s0"
proof -
  obtain s1 where p: "parse_args argv s0 = (True, s1)"
    using assms(1) by (auto simp: main_setup_def split: prod.splits bool.splits)
  let ?s2 = "spawnregistery_init (greeter_init (manager_init s1))"
  obtain s3 s4 where t: "templates_init (mo_desk mo) ?s2 = Inr s3"
    and sock: "socket_setup (mo_socket mo) s3 = Inr (True, s4)" and s: "purse s = purse s4"
    using assms(1) p by (auto simp: main_setup_def server_init_def elim!: bindR_InrE split: if_splits)
  have s1: "purse s1 = purse s0"
    by (rule purse_more [OF parse_args_rest [OF p] parse_args_forks [OF p]])
  have "tmpls ?s2 = tmpls s1" "counter ?s2 = counter s1"
    by (simp_all add: spawnregistery_init_def greeter_init_def manager_init_def)
  moreover have "tmpls s1 = Null_ptr" "counter s1 = 0"
    using same_core_more [OF parse_args_rest [OF p]] assms(2) by (auto simp: same_core_def stock_def at_start_def)
  ultimately have "tmpl_ok ?s2" "template_view ?s2 = []" "counter ?s2 = 0" by (simp_all add: tmpl_ok_def template_view_def)
  with adds_all [of "mo_desk mo" ?s2] t assms(3) have s3: "s3 = ?s2\<lparr>tmpls := tmpls s3, counter := counter s3\<rparr>"
    by (auto simp: adds_def)
  have "purse s3 = purse ?s2" by (subst s3) simp
  also have "\<dots> = purse s1" by (simp add: spawnregistery_init_def greeter_init_def manager_init_def)
  finally show ?thesis using s socket_setup_purse [OF sock] s1 by simp
qed

subsection \<open>Properties\<close>

text \<open>C35: A daemon starts at most 54 processes for sessions and greeters in its whole life, however many of them have
  ended: in every state it can reach, the calls of \<open>fork\<close> so far are at most the terminals that the counter
  has passed, and the counter stops behind the last one. Later states have no fewer, and none more once the
  counter is there. Which call of \<open>child_run\<close> forks is exact: the one that finds a terminal above the
  counter, up to \<open>LAST_TTY + 1\<close>, that no session of the seat uses.\<close>

theorem at_most_54_children:
  assumes "main_setup os mo argv (globals files) = Inr (True, s1)"
    and "length (all_contents (mo_desk mo)) < 2 ^ 31" and "kernel_ok os" and "reachable os s1 s"
  shows "int (nforks s) \<le> tty_counter s - FIRST_TTY \<and> tty_counter s \<le> LAST_TTY + 1 \<and> nforks s \<le> 54 \<and>
    (\<forall>u. reachable os s u \<longrightarrow> nforks s \<le> nforks u \<and> (LAST_TTY < tty_counter s \<longrightarrow> nforks u = nforks s)) \<and>
    (\<forall>t y seat ok u. tries s t = Some y \<and> session_seat (settings y) = Val seat \<and> child_run os t s = Inr (ok, u) \<longrightarrow>
       nforks u = nforks s +
         (if \<exists>v. tty_counter s < v \<and> v \<le> LAST_TTY + 1 \<and> vt_used os seat v = Inr False then 1 else 0))"
proof -
  have rest: "resting s1" using main_setup_start [OF assms(1) at_start_globals assms(2)] by blast
  have "purse s1 = (0, FIRST_TTY)"
    using main_setup_purse [OF assms(1) at_start_globals assms(2)] by (simp add: purse_def globals_def)
  with reachable_keeps [OF assms(3,4) rest] have now: "spends (0, FIRST_TTY) (purse s)" and s: "resting s" by simp_all
  have later: "spends (purse s) (purse u)" if "reachable os s u" for u
    using reachable_keeps [OF assms(3) that s] by simp
  have "nforks s \<le> nforks u \<and> (LAST_TTY < tty_counter s \<longrightarrow> nforks u = nforks s)" if "reachable os s u" for u
    using later [OF that] by (auto simp: spends_def purse_def)
  moreover have "int (nforks s) \<le> tty_counter s - FIRST_TTY \<and> tty_counter s \<le> LAST_TTY + 1 \<and> nforks s \<le> 54"
    using now by (auto simp: spends_def purse_def FIRST_TTY_def LAST_TTY_def)
  ultimately show ?thesis using child_run_forks by blast
qed

definition start_os :: os where
  "start_os = example_os (Message \<lparr>gm_type = GREETER_START, gm_login = None, gm_session = None\<rparr>)"

lemma one_forks:
  "case main_setup start_os root_main [''sp-daemon'', ''-d''] (globals []) of
     Inr (True, s1) \<Rightarrow> \<not> stop s1 \<and>
       (case manager_iter 5 (dispatch_with start_os 1 (\<lambda>_. [])) all_ready s1 of
          Inr (Running s2) \<Rightarrow> \<not> stop s2 \<and>
            (case manager_iter 5 (dispatch_with start_os 1 (\<lambda>_. [])) (\<lambda>_ _. Select_ready [4] []) s2 of
               Inr (Running s) \<Rightarrow> nforks s = 1 \<and> tty_counter s = 11 \<and>
                 map_option (session_seat \<circ> settings) (tries s 0) = Some (Val (Some ''seat0'')) \<and>
                 (case child_run start_os 0 s of Inr (ok, u) \<Rightarrow> ok | _ \<Rightarrow> False)
             | _ \<Rightarrow> False)
        | _ \<Rightarrow> False)
   | _ \<Rightarrow> False"
  by code_simp

lemma one_forked:
  "\<exists>s1 s. main_setup start_os root_main [''sp-daemon'', ''-d''] (globals []) = Inr (True, s1) \<and>
     reachable start_os s1 s \<and> nforks s = 1 \<and> tty_counter s = 11 \<and>
     map_option (session_seat \<circ> settings) (tries s 0) = Some (Val (Some ''seat0'')) \<and>
     (case child_run start_os 0 s of Inr (ok, u) \<Rightarrow> ok | _ \<Rightarrow> False)"
proof -
  obtain s1 s2 s where "main_setup start_os root_main [''sp-daemon'', ''-d''] (globals []) = Inr (True, s1)"
    and "\<not> stop s1" "manager_iter 5 (dispatch_with start_os 1 (\<lambda>_. [])) all_ready s1 = Inr (Running s2)"
    and "\<not> stop s2" "manager_iter 5 (dispatch_with start_os 1 (\<lambda>_. [])) (\<lambda>_ _. Select_ready [4] []) s2 = Inr (Running s)"
    and s: "nforks s = 1 \<and> tty_counter s = 11 \<and>
      map_option (session_seat \<circ> settings) (tries s 0) = Some (Val (Some ''seat0'')) \<and>
      (case child_run start_os 0 s of Inr (ok, u) \<Rightarrow> ok | _ \<Rightarrow> False)"
    using setup_then [OF one_forks] by (auto dest!: turn_then)
  moreover from this have "reachable start_os s1 s"
    using reachable.step [OF reachable.step [OF reachable.start]] daemon_step.turn by blast
  ultimately show ?thesis by blast
qed

lemma at_most_54_children_witness:
  "\<exists>s1 s u. main_setup start_os root_main [''sp-daemon'', ''-d''] (globals []) = Inr (True, s1) \<and>
     reachable start_os s1 s \<and> nforks s = 1 \<and> (\<forall>v. reachable start_os s v \<longrightarrow> 1 \<le> nforks v) \<and>
     child_run start_os 0 s = Inr (True, u) \<and> nforks u = 2"
proof -
  obtain s1 s where s: "main_setup start_os root_main [''sp-daemon'', ''-d''] (globals []) = Inr (True, s1)"
    "reachable start_os s1 s" "nforks s = 1" "tty_counter s = 11"
    "map_option (session_seat \<circ> settings) (tries s 0) = Some (Val (Some ''seat0''))"
    "case child_run start_os 0 s of Inr (ok, u) \<Rightarrow> ok | _ \<Rightarrow> False"
    using one_forked by blast
  from s(5) obtain y where y: "tries s 0 = Some y" "session_seat (settings y) = Val (Some ''seat0'')" by auto
  from s(6) obtain u where u: "child_run start_os 0 s = Inr (True, u)" by (auto split: sum.splits prod.splits)
  have "mo_desk root_main = example_desk" by (simp add: root_main_def example_main_def)
  moreover have "length (map fst (all_contents example_desk)) < 2 ^ 31" unfolding example_contents by simp
  ultimately have len: "length (all_contents (mo_desk root_main)) < 2 ^ 31" by simp
  have k: "kernel_ok start_os" by (simp add: start_os_def example_kernel_ok)
  note budget = at_most_54_children [OF s(1) len k s(2)]
  have "vt_used start_os (Some ''seat0'') 13 = Inr False" by code_simp
  then have "\<exists>v. tty_counter s < v \<and> v \<le> LAST_TTY + 1 \<and> vt_used start_os (Some ''seat0'') v = Inr False"
    using s(4) by (intro exI [of _ 13]) (simp add: LAST_TTY_def)
  with budget y u s(3) have "nforks u = 2" by auto
  moreover have "\<forall>v. reachable start_os s v \<longrightarrow> 1 \<le> nforks v" using budget s(3) by simp
  ultimately show ?thesis using s(1-3) u by blast
qed

end
