(* ===== verification/Session_Back_Ends.thy ===== *)
theory Session_Back_Ends
  imports Server
begin

section \<open>The interface \<open>sessionmgt.h\<close> and its two implementations\<close>

text \<open>
  \<open>sessionmgt_logind.c\<close> is what the build lists; \<open>sessionmgt_dummy.c\<close> answers every question with a
  constant. The header says that strings are handed over and that the list of sessions and its
  length are stored; what the daemon's code needs of that is the locale \<open>session_back_end\<close>. Strings
  carry where they live, since whoever gets them frees them.
\<close>

datatype string_mem = On_Heap string | Literal string

fun str_of :: "string_mem \<Rightarrow> string" where
  "str_of (On_Heap x) = x"
| "str_of (Literal x) = x"

definition free_str :: "string_mem \<Rightarrow> unit res" where
  "free_str x = (case x of On_Heap _ \<Rightarrow> Inr () | Literal _ \<Rightarrow> Inl Bad_Free)"

record back_end =
  be_session_get :: "int \<Rightarrow> string_mem option"
  be_seat_get :: "int \<Rightarrow> string_mem option"
  be_current_session_get :: "string_mem option"
  be_session_enumerate :: "string option \<Rightarrow> string_mem list cell"
  be_session_enumerate_free :: "string_mem list \<Rightarrow> unit res"
  be_session_activate :: "string option \<Rightarrow> world \<Rightarrow> world"
  be_session_details :: "string option \<Rightarrow> bool \<Rightarrow> bool \<Rightarrow> details res"
  be_wait_session_active :: "string option \<Rightarrow> nat option"

subsection \<open>\<open>sessionmgt_logind.c\<close>\<close>

definition session_enumerate_free :: "string_mem list \<Rightarrow> unit res" where
  "session_enumerate_free handles = foldR (\<lambda>h _. free_str h) handles ()"

definition logind :: "os \<Rightarrow> string option \<Rightarrow> nat option \<Rightarrow> back_end" where
  "logind os current waited =
     \<lparr>be_session_get = (\<lambda>pid. map_option On_Heap (session_get os pid)),
      be_seat_get = (\<lambda>pid. map_option On_Heap (seat_get os pid)),
      be_current_session_get = map_option On_Heap current,
      be_session_enumerate = (\<lambda>seat. Val (map On_Heap (session_enumerate os seat))),
      be_session_enumerate_free = session_enumerate_free,
      be_session_activate = session_activate, be_session_details = session_details os,
      be_wait_session_active = (\<lambda>_. waited)\<rparr>"

subsection \<open>\<open>sessionmgt_dummy.c\<close> and \<open>server_dummy.c\<close>\<close>

definition dummy_session_get :: "int \<Rightarrow> string_mem option" where
  "dummy_session_get pid = Some (Literal ''c1'')"

definition dummy_seat_get :: "int \<Rightarrow> string_mem option" where
  "dummy_seat_get pid = Some (Literal ''seat0'')"

definition dummy_current_session_get :: "string_mem option" where
  "dummy_current_session_get = Some (Literal ''c1'')"

text \<open>Neither the list nor its length is stored.\<close>

definition dummy_session_enumerate :: "string option \<Rightarrow> string_mem list cell" where
  "dummy_session_enumerate seat = Indet"

definition dummy_session_enumerate_free :: "string_mem list \<Rightarrow> unit res" where
  "dummy_session_enumerate_free handles = Inr ()"

definition dummy_session_activate :: "string option \<Rightarrow> 'a world_scheme \<Rightarrow> 'a world_scheme" where
  "dummy_session_activate handle s = s"

definition dummy_session_details :: "string option \<Rightarrow> bool \<Rightarrow> bool \<Rightarrow> details res" where
  "dummy_session_details handle want_uid want_name =
     Inr \<lparr>det_ok = False, det_uid = Indet, det_name = None, det_vtnr = None\<rparr>"

definition dummy_wait_session_active :: "string option \<Rightarrow> nat option" where
  "dummy_wait_session_active handle = Some 0"

definition dummy :: back_end where
  "dummy =
     \<lparr>be_session_get = dummy_session_get, be_seat_get = dummy_seat_get,
      be_current_session_get = dummy_current_session_get, be_session_enumerate = dummy_session_enumerate,
      be_session_enumerate_free = dummy_session_enumerate_free, be_session_activate = dummy_session_activate,
      be_session_details = dummy_session_details, be_wait_session_active = dummy_wait_session_active\<rparr>"

definition dummy_prefetch_server_socket :: int where
  "dummy_prefetch_server_socket = 0"

subsection \<open>What the daemon does with a back end\<close>

text \<open>\<open>_vt_used\<close>, with the list given back at the end.\<close>

fun vt_among :: "back_end \<Rightarrow> string_mem list \<Rightarrow> int \<Rightarrow> bool res" where
  "vt_among be [] vtnr = Inr False"
| "vt_among be (h # hs) vtnr =
     bindR (be_session_details be (Some (str_of h)) False False)
       (\<lambda>d. if (case det_vtnr d of None \<Rightarrow> -1 | Some v \<Rightarrow> v) = vtnr then Inr True
            else vt_among be hs vtnr)"

definition vt_used_on :: "back_end \<Rightarrow> string option \<Rightarrow> int \<Rightarrow> bool res" where
  "vt_used_on be seat vtnr =
     bindR (read_cell (be_session_enumerate be seat))
       (\<lambda>sessions. bindR (vt_among be sessions vtnr)
         (\<lambda>used. bindR (be_session_enumerate_free be sessions) (\<lambda>_. Inr used)))"

text \<open>The part of \<open>greeter_activate\<close> that brings a running greeter to the front.\<close>

definition activate_running :: "back_end \<Rightarrow> int \<Rightarrow> world \<Rightarrow> (bool \<times> world) res" where
  "activate_running be pid s =
     (case be_session_get be pid of
        None \<Rightarrow> Inr (False, s)
      | Some session \<Rightarrow>
          (let s1 = be_session_activate be (Some (str_of session)) s
           in bindR (free_str session) (\<lambda>_. Inr (True, s1))))"

locale session_back_end =
  fixes be :: back_end
  assumes session_handed_over: "be_session_get be pid = Some x \<Longrightarrow> free_str x = Inr ()"
    and seat_handed_over: "be_seat_get be pid = Some x \<Longrightarrow> free_str x = Inr ()"
    and enumerate_stores: "\<exists>hs. be_session_enumerate be seat = Val hs \<and> be_session_enumerate_free be hs = Inr ()"
begin

lemma activate_running_defined:
  "\<exists>b t. activate_running be pid s = Inr (b, t) \<and> (b \<longleftrightarrow> be_session_get be pid \<noteq> None)"
  using session_handed_over [of pid] by (cases "be_session_get be pid") (auto simp: activate_running_def Let_def)

lemma vt_used_on_defined:
  assumes "\<And>h. \<exists>d. be_session_details be h False False = Inr d"
  shows "\<exists>b. vt_used_on be seat vtnr = Inr b"
proof -
  obtain hs where hs: "be_session_enumerate be seat = Val hs" "be_session_enumerate_free be hs = Inr ()"
    using enumerate_stores by blast
  have "\<exists>b. vt_among be hs vtnr = Inr b" for hs
  proof (induction hs)
    case (Cons h hs)
    obtain d where "be_session_details be (Some (str_of h)) False False = Inr d" using assms by blast
    moreover obtain b where "vt_among be hs vtnr = Inr b" using Cons.IH by blast
    ultimately show ?case by auto
  qed auto
  then obtain b where "vt_among be hs vtnr = Inr b" by blast
  with hs show ?thesis by (simp add: vt_used_on_def)
qed

end

lemma free_all: "session_enumerate_free (map On_Heap hs) = Inr ()"
  by (induction hs) (simp_all add: session_enumerate_free_def free_str_def)

interpretation logind: session_back_end "logind os current waited" for os current waited
  by unfold_locales (auto simp: logind_def free_str_def free_all)

lemma vt_among_logind: "vt_among (logind os current waited) (map On_Heap hs) v = vt_used_by os hs v"
proof (induction hs)
  case (Cons h hs)
  have "be_session_details (logind os current waited) = session_details os" by (simp add: logind_def)
  with Cons.IH show ?case by (simp cong: if_cong)
qed simp

lemma vt_used_logind: "vt_used_on (logind os current waited) seat v = vt_used os seat v"
proof -
  have "be_session_enumerate (logind os current waited) seat = Val (map On_Heap (session_enumerate os seat))"
    "be_session_enumerate_free (logind os current waited) (map On_Heap hs) = Inr ()" for hs
    by (simp_all add: logind_def free_all)
  then show ?thesis by (simp add: vt_used_on_def vt_among_logind vt_used_def bindR_def split: sum.split)
qed

text \<open>So the daemon's own search is defined wherever systemd answers as its manual says.\<close>

lemma vt_used_defined:
  assumes "\<And>h. known_errors (sd_session_get_desktop os h)" and "\<And>h. known_errors (sd_session_get_type os h)"
  shows "\<exists>b. vt_used os seat v = Inr b"
proof -
  have "\<exists>b. vt_used_on (logind os None None) seat v = Inr b"
    by (rule logind.vt_used_on_defined) (simp add: logind_def details_defined [OF assms])
  then show ?thesis by (simp add: vt_used_logind)
qed

text \<open>The daemon is written for the back end it is built with: on the answers of \<open>sessionmgt_logind.c\<close>
  the search for a used terminal and the activation of a running greeter are defined, and what the
  rest of this development takes them for; \<open>sessionmgt_dummy.c\<close> does not keep to the header, and with
  it the first request for a greeter that runs frees a string literal and the first search for a
  terminal reads a length that nobody has set.\<close>

theorem back_ends:
  "vt_used_on (logind os current waited) seat v = vt_used os seat v \<and>
   activate_running (logind os current waited) pid s =
     Inr (session_get os pid \<noteq> None, session_activate (session_get os pid) s) \<and>
   \<not> session_back_end dummy \<and>
   vt_used_on dummy seat v = Inl Uninit_Read \<and> activate_running dummy pid s = Inl Bad_Free"
proof -
  note vt_used_logind [of os current waited seat v]
  moreover have "activate_running (logind os current waited) pid s =
      Inr (session_get os pid \<noteq> None, session_activate (session_get os pid) s)"
    by (simp add: activate_running_def logind_def free_str_def session_activate_def split: option.split)
  moreover have "be_session_get dummy pid = Some (Literal ''c1'')" "be_session_enumerate dummy seat = Indet"
    by (simp_all add: dummy_def dummy_session_get_def dummy_session_enumerate_def)
  moreover from this(2) have "\<not> session_back_end dummy"
    using session_back_end.enumerate_stores [of dummy seat] by auto
  ultimately show ?thesis by (simp add: vt_used_on_def activate_running_def free_str_def Let_def)
qed

text \<open>The socket of \<open>server_dummy.c\<close> is the one that \<open>server_systemd.c\<close> gives without systemd.\<close>

lemma dummy_prefetch: "so_listen_fds so = 0 \<Longrightarrow> prefetch_server_socket so = dummy_prefetch_server_socket"
  by (simp add: prefetch_server_socket_def dummy_prefetch_server_socket_def)

end
