(* ===== verification/Tools.thy ===== *)
theory Tools
  imports UserDb Client
begin

section \<open>The command line tools: \<open>sp-user-db-util\<close>, \<open>sp-greeter-set\<close>, \<open>sp-greeter-start\<close>\<close>

text \<open>
  Three programs that run to their end once. A program is a function from its arguments to its exit
  code and the state it leaves; \<open>argv\<close> without its first entry is a list, so that reading the
  entry after the last one gives the NULL that ends \<open>argv\<close>. What is printed is not modelled.
\<close>

definition EXIT_SUCCESS :: int where "EXIT_SUCCESS = 0"
definition EXIT_FAILURE :: int where "EXIT_FAILURE = 1"

subsection \<open>\<open>sp-user-db-util\<close>\<close>

definition MAX_VALUE :: nat where "MAX_VALUE = 1048"

text \<open>One call of \<open>strtok\<close>: the token, and where the next call goes on.\<close>

definition c_strtok :: "char \<Rightarrow> string \<Rightarrow> string option \<times> string" where
  "c_strtok delim s =
     (case dropWhile (\<lambda>c. c = delim) s of
        [] \<Rightarrow> (None, [])
      | t \<Rightarrow> (Some (takeWhile (\<lambda>c. c \<noteq> delim) t), drop 1 (dropWhile (\<lambda>c. c \<noteq> delim) t)))"

definition field_edit :: "user_os \<Rightarrow> string \<Rightarrow> string option \<Rightarrow> user_db \<Rightarrow> (bool \<times> user_db) res" where
  "field_edit os username arg db =
     bindR (deref arg Null_Deref)
       (\<lambda>a. if length a \<ge> MAX_VALUE then Inl Out_Of_Bounds
            else case c_strtok CHR '','' a of
                   (name, rest) \<Rightarrow>
                     (case c_strtok CHR '','' rest of
                        (val, _) \<Rightarrow> user_db_field_set os (Some username) name val db))"

definition field_del :: "user_os \<Rightarrow> string \<Rightarrow> string option \<Rightarrow> user_db \<Rightarrow> (bool \<times> user_db) res" where
  "field_del os username arg = user_db_field_del os (Some username) arg"

definition head_opt :: "'a list \<Rightarrow> 'a option" where
  "head_opt xs = (case xs of [] \<Rightarrow> None | x # _ \<Rightarrow> Some x)"

text \<open>The search of root's arguments for the first \<open>--user\<close> and the one after it.\<close>

fun user_option :: "string list \<Rightarrow> string option res" where
  "user_option [] = Inr None"
| "user_option (arg # args) =
     (if arg = ''--user'' then bindR (deref (head_opt args) Null_Deref) (\<lambda>u. Inr (Some u)) else user_option args)"

definition util_username :: "user_os \<Rightarrow> (int \<Rightarrow> passwd option) \<Rightarrow> string list \<Rightarrow> string res" where
  "util_username os getpw args =
     bindR (if uo_getuid os = 0 then user_option args else Inr None)
       (\<lambda>u. case u of
              Some name \<Rightarrow> Inr name
            | None \<Rightarrow> bindR (deref (getpw (uo_getuid os)) Null_Deref) (\<lambda>wd. Inr (pw_name wd)))"

text \<open>
  The loop over the arguments. \<open>True\<close> means that it has come to its end, \<open>False\<close> that \<open>main\<close> has
  returned from within it.
\<close>

fun util_loop :: "user_os \<Rightarrow> string \<Rightarrow> string list \<Rightarrow> user_db \<Rightarrow> (bool \<times> user_db) res" where
  "util_loop os u [] db = Inr (True, db)"
| "util_loop os u (arg # args) db =
     (let val = head_opt args;
          go_on = (\<lambda>(ok, db1). if \<not> ok then Inr (False, db1) else util_loop os u (drop 1 args) db1)
      in if arg = ''--edit'' then bindR (field_edit os u val db) go_on
         else if arg = ''--icon'' then bindR (user_db_field_set os (Some u) (Some ''icon'') val db) go_on
         else if arg = ''--prefered-session''
         then bindR (user_db_field_set os (Some u) (Some ''prefered-session'') val db) go_on
         else if arg = ''--del'' then bindR (field_del os u val db) go_on
         else if arg = ''--help'' then Inr (False, db)
         else if arg = ''--user'' then (if uo_getuid os = 0 then util_loop os u args db else Inr (False, db))
         else Inr (False, db))"

definition util_main ::
  "user_os \<Rightarrow> (int \<Rightarrow> passwd option) \<Rightarrow> string list \<Rightarrow> user_db \<Rightarrow> (int \<times> user_db) res" where
  "util_main os getpw args db0 =
     bindR (user_db_init os db0)
       (\<lambda>(ok, db). if \<not> ok then Inr (EXIT_FAILURE, db)
          else bindR (util_username os getpw args)
            (\<lambda>u. bindR (user_db_user_exists (Some u) db)
              (\<lambda>known. if \<not> known then Inr (EXIT_FAILURE, db)
                 else bindR (util_loop os u args db)
                   (\<lambda>(ended, db1). if \<not> ended then Inr (EXIT_FAILURE, db1)
                      else bindR (user_db_shutdown db1) (\<lambda>db2. Inr (EXIT_FAILURE, db2))))))"

subsection \<open>A list of edits\<close>

definition edit_args :: "(string \<times> string) list \<Rightarrow> string list" where
  "edit_args kvs = concat (map (\<lambda>(k, v). [''--edit'', k @ '','' @ v]) kvs)"

lemma edit_args_simps [simp]:
  "edit_args [] = []" "edit_args ((k, v) # kvs) = ''--edit'' # (k @ '','' @ v) # edit_args kvs"
  by (simp_all add: edit_args_def)

definition token :: "string \<Rightarrow> bool" where
  "token x \<longleftrightarrow> x \<noteq> [] \<and> CHR '','' \<notin> set x"

definition editable :: "string \<times> string \<Rightarrow> bool" where
  "editable kv \<longleftrightarrow> token (fst kv) \<and> token (snd kv) \<and> length (fst kv) + length (snd kv) + 1 < MAX_VALUE \<and>
     plain_line (Setting (fst kv) (snd kv))"

text \<open>A token up to the end of the string, or up to the delimiter.\<close>

lemma c_strtok_last: "token x \<Longrightarrow> c_strtok CHR '','' x = (Some x, [])"
proof (cases x)
  case (Cons a y)
  assume "token x"
  with Cons have "a \<noteq> CHR '',''" "\<forall>c \<in> set y. c \<noteq> CHR '',''" by (auto simp: token_def)
  moreover from this have "dropWhile (\<lambda>c. c \<noteq> CHR '','') y = []" "takeWhile (\<lambda>c. c \<noteq> CHR '','') y = y"
    by (simp_all add: dropWhile_eq_Nil_conv takeWhile_eq_all_conv)
  ultimately show ?thesis using Cons by (simp only: c_strtok_def dropWhile.simps takeWhile.simps if_False if_True list.case drop_Nil simp_thms)
qed (simp add: token_def)

lemma c_strtok_next: "token x \<Longrightarrow> c_strtok CHR '','' (x @ '','' @ y) = (Some x, y)"
  by (cases x) (auto simp: token_def c_strtok_def takeWhile_append dropWhile_append)

lemma field_edit_pair:
  assumes "editable (k, v)"
  shows "field_edit os u (Some (k @ '','' @ v)) db = user_db_field_set os (Some u) (Some k) (Some v) db"
  using assms c_strtok_next [of k v] c_strtok_last [of v]
  by (simp add: editable_def field_edit_def)

abbreviation edit_user :: "(string \<times> string) list \<Rightarrow> user \<Rightarrow> user" where
  "edit_user \<equiv> fold (\<lambda>(k, v). set_field k v)"

lemma edit_user_value:
  "field_value f (edit_user kvs u) = (case map_of (rev kvs) f of Some v \<Rightarrow> Some v | None \<Rightarrow> field_value f u)"
proof (induction kvs arbitrary: u)
  case (Cons kv kvs)
  have "field_value f (set_field (fst kv) (snd kv) u) = (if f = fst kv then Some (snd kv) else field_value f u)"
    by (rule field_value_set)
  then show ?case using Cons.IH [of "set_field (fst kv) (snd kv) u"]
    by (cases "map_of (rev kvs) f") (simp_all only: fold_simps split_beta rev.simps map_of_append map_add_def
        map_of.simps option.case fun_upd_apply o_apply simp_thms if_cancel split: if_splits)
qed simp

text \<open>The whole list of edits: each reaches the file before the next begins.\<close>

lemma util_loop_edits:
  assumes "in_sync os db c" and "uo_opendir os" and n: "good_name n" and "user_named n c = Some u"
    and wd: "uo_getpwnam os n = Some wd" "pw_uid wd = uo_getuid os" and w: "may_write os n"
    and "\<forall>kv \<in> set kvs. editable kv" and "plain_user n (additional u)"
    and ini: "ini_documented (ini_events os)"
  shows "\<exists>db' c'. util_loop os n (edit_args kvs) db = Inr (True, db') \<and> in_sync os db' c' \<and>
    user_named n c' = Some (edit_user kvs u) \<and> ref_count c' = ref_count c \<and>
    (\<forall>m. good_name m \<longrightarrow> m \<noteq> n \<longrightarrow> user_named m c' = user_named m c)"
  using assms(1,4,8,9)
proof (induction kvs arbitrary: db c u)
  case Nil
  then show ?case by auto
next
  case (Cons kv kvs)
  obtain k v where kv: "kv = (k, v)" by (cases kv)
  have pl: "plain_line (Setting k v)" using Cons.prems(3) kv by (simp add: editable_def)
  note rest = plain_set_field [OF Cons.prems(4) pl]
  obtain db1 c1 where one: "user_db_field_set os (Some n) (Some k) (Some v) db = Inr (True, db1)"
    and c1: "in_sync os db1 c1" "user_named n c1 = Some (set_field k v u)"
    and o1: "\<And>m. good_name m \<Longrightarrow> m \<noteq> n \<Longrightarrow> user_named m c1 = user_named m c"
    using field_set_sync [OF Cons.prems(1) assms(2) n Cons.prems(2) wd w ini Cons.prems(4) pl] by blast
  have ed: "editable (k, v)" "\<forall>kv \<in> set kvs. editable kv" using Cons.prems(3) kv by simp_all
  have "util_loop os n (edit_args (kv # kvs)) db = util_loop os n (edit_args kvs) db1"
    by (simp add: kv head_opt_def field_edit_pair [OF ed(1), simplified] one)
  moreover have "ref_count c1 = ref_count c"
    by (rule field_set_ref_count [OF one]) (use Cons.prems(1) c1(1) in \<open>unfold in_sync_def, blast+\<close>)
  moreover have "edit_user (kv # kvs) u = edit_user kvs (set_field k v u)" by (simp add: kv)
  moreover obtain db' c' where "util_loop os n (edit_args kvs) db1 = Inr (True, db')" "in_sync os db' c'"
    "user_named n c' = Some (edit_user kvs (set_field k v u))" "ref_count c' = ref_count c1"
    and o2: "\<forall>m. good_name m \<longrightarrow> m \<noteq> n \<longrightarrow> user_named m c' = user_named m c1"
    using Cons.IH [OF c1 ed(2) rest] by blast
  moreover have "\<forall>m. good_name m \<longrightarrow> m \<noteq> n \<longrightarrow> user_named m c' = user_named m c"
    using o1 o2 by simp
  ultimately show ?case by (intro exI [of _ db'] exI [of _ c'] conjI) (simp_all only: )
qed

text \<open>As root, whatever follows \<open>--user name\<close> is not looked at: the loop takes the name for an option.\<close>

lemma util_user_option_ends:
  assumes "uo_getuid os = 0"
    and "name \<notin> {''--edit'', ''--icon'', ''--prefered-session'', ''--del'', ''--user''}"
  shows "util_loop os u (''--user'' # name # args) db = Inr (False, db)"
  using assms by simp

subsection \<open>\<open>sp-greeter-set\<close>\<close>

text \<open>
  \<open>access\<close>, \<open>unlink\<close> and \<open>link\<close> on the names of a file system that maps a path to a file.
\<close>

record link_fs =
  lf_names :: "string \<Rightarrow> nat option"
  lf_readable :: "nat \<Rightarrow> bool"

definition access_r :: "link_fs \<Rightarrow> string \<Rightarrow> bool" where
  "access_r fs path = (case lf_names fs path of None \<Rightarrow> False | Some i \<Rightarrow> lf_readable fs i)"

definition unlink_path :: "string \<Rightarrow> link_fs \<Rightarrow> link_fs" where
  "unlink_path path fs = fs\<lparr>lf_names := (lf_names fs)(path := None)\<rparr>"

definition link_path :: "string \<Rightarrow> string \<Rightarrow> link_fs \<Rightarrow> bool \<times> link_fs" where
  "link_path old new fs =
     (case (lf_names fs old, lf_names fs new) of
        (Some i, None) \<Rightarrow> (True, fs\<lparr>lf_names := (lf_names fs)(new := Some i)\<rparr>)
      | _ \<Rightarrow> (False, fs))"

definition greeter_set_main :: "string \<Rightarrow> string list \<Rightarrow> link_fs \<Rightarrow> int \<times> link_fs" where
  "greeter_set_main sp_greeter args fs =
     (case args of
        [path] \<Rightarrow>
          if \<not> access_r fs path then (EXIT_FAILURE, fs)
          else let fs1 = (if \<not> access_r fs sp_greeter then unlink_path sp_greeter fs else fs)
               in case link_path path sp_greeter fs1 of
                    (ok, fs2) \<Rightarrow> if \<not> ok then (EXIT_FAILURE, fs2) else (EXIT_SUCCESS, fs2)
      | _ \<Rightarrow> (EXIT_FAILURE, fs))"

subsection \<open>\<open>sp-greeter-start\<close>\<close>

definition greeter_start_main ::
  "'b client_os_scheme \<Rightarrow> string list option \<Rightarrow> 'a world_scheme \<Rightarrow> int \<times> 'a world_scheme" where
  "greeter_start_main co argv s =
     (case sp_client_greeter_start co argv s of
        (ok, s1) \<Rightarrow> if \<not> ok then (EXIT_FAILURE, s1) else (EXIT_SUCCESS, s1))"

subsection \<open>Properties\<close>

text \<open>C23: A run of \<open>sp-user-db-util\<close> with a list of \<open>--edit\<close> options does what it is asked for and then
  reports a failure: afterwards the file of the caller holds, for every field, the last value it was
  given, or the one it had, the files of the other users say what they said, and the library is shut
  down; the exit code is \<open>EXIT_FAILURE\<close> all the same.\<close>

theorem util_edits_then_fails:
  assumes "ctx db = Null_ptr" and "uo_getuid os \<noteq> 0" and "uo_opendir os" and "dir_ok os (dirents db)"
    and n: "good_name (pw_name wd)" and "getpw (uo_getuid os) = Some wd"
    and wd: "uo_getpwnam os (pw_name wd) = Some wd" "pw_uid wd = uo_getuid os" and w: "may_write os (pw_name wd)"
    and body: "map_of (dirents db) (user_file (pw_name wd)) = Some body"
    and "\<forall>kv \<in> set kvs. editable kv"
    and "plain_user (pw_name wd) (additional (parse_user os body))" and "ini_documented (ini_events os)"
  shows "\<exists>db' body'. util_main os getpw (edit_args kvs) db = Inr (EXIT_FAILURE, db') \<and> ctx db' = Null_ptr \<and>
    map_of (dirents db') (user_file (pw_name wd)) = Some body' \<and>
    (\<forall>f. field_value f (parse_user os body') =
       (case map_of (rev kvs) f of Some v \<Rightarrow> Some v | None \<Rightarrow> field_value f (parse_user os body))) \<and>
    (\<forall>m. good_name m \<longrightarrow> m \<noteq> pw_name wd \<longrightarrow>
       map_option (parse_user os) (map_of (dirents db') (user_file m)) =
       map_option (parse_user os) (map_of (dirents db) (user_file m)))"
proof -
  let ?n = "pw_name wd" and ?u = "parse_user os body"
  have "readable os (user_file ?n, body) = Some ?u"
    using readable_dir_ok [OF assms(4) map_of_SomeD [OF body]] ini_user_file [OF n] by simp
  then have "candidates os (dirents db) \<noteq> []"
    using map_of_SomeD [OF body] by (auto simp: candidates_def List.map_filter_def filter_empty_conv)
  then obtain c where init: "user_db_init os db = Inr (True, set_ctx c db)"
    and c: "in_sync os (set_ctx c db) c" "ref_count c = 1"
    using init_sync [OF assms(1-4)] by blast
  have named: "user_named m c = map_option (parse_user os) (map_of (dirents db) (user_file m))" if "good_name m" for m
    using c(1) that by (simp add: in_sync_def set_ctx_def)
  have u: "user_named ?n c = Some ?u" using named [OF n] body by simp
  obtain db1 c1 where loop: "util_loop os ?n (edit_args kvs) (set_ctx c db) = Inr (True, db1)"
    and c1: "in_sync os db1 c1" "user_named ?n c1 = Some (edit_user kvs ?u)" "ref_count c1 = ref_count c"
    and o1: "\<forall>m. good_name m \<longrightarrow> m \<noteq> ?n \<longrightarrow> user_named m c1 = user_named m c"
    using util_loop_edits [OF c(1) assms(3) n u wd w assms(11-13)] by blast
  have live: "ctx db1 = Live_ptr c1" using c1(1) by (simp add: in_sync_def)
  have named1: "user_named m c1 = map_option (parse_user os) (map_of (dirents db1) (user_file m))" if "good_name m" for m
    using c1(1) that by (simp add: in_sync_def)
  have known: "user_db_user_exists (Some ?n) (set_ctx c db) = Inr True"
    using u user_find_None [of ?n c] by (simp add: user_db_user_exists_def set_ctx_def)
  have run: "util_main os getpw (edit_args kvs) db = Inr (EXIT_FAILURE, db1\<lparr>ctx := Null_ptr\<rparr>)"
    using assms(2,6) live c1(3) c(2)
    by (simp add: util_main_def init util_username_def known loop user_db_shutdown_def)
  obtain body' where b: "map_of (dirents db1) (user_file ?n) = Some body'" "parse_user os body' = edit_user kvs ?u"
    using trans [OF c1(2) [symmetric] named1 [OF n]] by (cases "map_of (dirents db1) (user_file ?n)") simp_all
  show ?thesis
  proof (intro exI conjI)
    show "util_main os getpw (edit_args kvs) db = Inr (EXIT_FAILURE, db1\<lparr>ctx := Null_ptr\<rparr>)" by (fact run)
    show "map_of (dirents (db1\<lparr>ctx := Null_ptr\<rparr>)) (user_file ?n) = Some body'" using b(1) by simp
    show "\<forall>f. field_value f (parse_user os body') =
        (case map_of (rev kvs) f of Some v \<Rightarrow> Some v | None \<Rightarrow> field_value f ?u)"
      unfolding b(2) by (intro allI edit_user_value)
    show "\<forall>m. good_name m \<longrightarrow> m \<noteq> ?n \<longrightarrow>
        map_option (parse_user os) (map_of (dirents (db1\<lparr>ctx := Null_ptr\<rparr>)) (user_file m)) =
        map_option (parse_user os) (map_of (dirents db) (user_file m))"
      using o1 named named1 by simp
  qed simp
qed

lemma util_edits_then_fails_witness:
  "\<exists>db'. util_main (bob_os 1000) (\<lambda>_. Some bob) [''--edit'', ''icon,cat''] (bob_db\<lparr>ctx := Null_ptr\<rparr>) =
     Inr (EXIT_FAILURE, db') \<and> (\<exists>body. map_of (dirents db') ''bob.ini'' = Some body \<and>
       field_value ''icon'' (parse_user (bob_os 1000) body) = Some ''cat'')"
proof -
  let ?os = "bob_os 1000" and ?db = "bob_db\<lparr>ctx := Null_ptr\<rparr>"
  have dir: "dir_ok ?os (dirents ?db)" using bob_in_sync by (simp add: in_sync_def)
  have ed: "\<forall>kv \<in> set [(''icon'', ''cat'')]. editable kv" using bob_plain(2) by (simp add: editable_def token_def MAX_VALUE_def)
  have plain: "plain_user (pw_name bob) (additional (parse_user ?os (bob_text [])))"
    using bob_plain(1) by (simp add: bob_parse bob_def)
  have body: "map_of (dirents ?db) (user_file (pw_name bob)) = Some (bob_text [])"
    by (simp add: bob_def bob_file) (simp add: bob_db_def)
  have args: "edit_args [(''icon'', ''cat'')] = [''--edit'', ''icon,cat'']" by simp
  have "ctx ?db = Null_ptr" "uo_getuid ?os \<noteq> 0" "uo_opendir ?os" "good_name (pw_name bob)"
    "uo_getpwnam ?os (pw_name bob) = Some bob" "pw_uid bob = uo_getuid ?os" "may_write ?os (pw_name bob)"
    using bob_good bob_may_write by (simp_all add: bob_def) (simp_all add: bob_os_def bob_def)
  from util_edits_then_fails [OF this(1-3) dir this(4) refl this(5-7) body ed plain bob_ini]
  obtain db' body' where r: "util_main ?os (\<lambda>_. Some bob) [''--edit'', ''icon,cat''] ?db = Inr (EXIT_FAILURE, db')"
    "map_of (dirents db') (user_file (pw_name bob)) = Some body'"
    and f: "\<forall>f. field_value f (parse_user ?os body') = (case map_of (rev [(''icon'', ''cat'')]) f of Some v \<Rightarrow> Some v
       | None \<Rightarrow> field_value f (parse_user ?os (bob_text [])))"
    unfolding args by blast
  from f [rule_format, of "''icon''"] r show ?thesis by (simp add: bob_def bob_file)
qed

text \<open>\<open>sp-greeter-set\<close> can only set what is not set: it succeeds exactly if the program it is given can be
  read and no readable greeter is in place; then the greeter's name leads to that program and every
  other name where it led. When it fails, nothing has changed.\<close>

theorem greeter_set_only_unset:
  assumes "path \<noteq> sp_greeter" and "greeter_set_main sp_greeter [path] fs = (code, fs')"
  shows "(code = EXIT_SUCCESS \<longleftrightarrow> access_r fs path \<and> \<not> access_r fs sp_greeter) \<and>
    fs' = (if code = EXIT_SUCCESS then fs\<lparr>lf_names := (lf_names fs)(sp_greeter := lf_names fs path)\<rparr> else fs)"
  using assms
  by (auto simp: greeter_set_main_def access_r_def unlink_path_def link_path_def EXIT_SUCCESS_def EXIT_FAILURE_def
      Let_def split: option.splits if_splits)

lemma greeter_set_only_unset_witness:
  "fst (greeter_set_main ''/usr/lib/spawny/greeter'' [''/usr/bin/new'']
     \<lparr>lf_names = [''/usr/bin/new'' \<mapsto> 1, ''/usr/lib/spawny/greeter'' \<mapsto> 2], lf_readable = (\<lambda>_. True)\<rparr>) \<noteq> EXIT_SUCCESS"
proof -
  let ?fs = "\<lparr>lf_names = [''/usr/bin/new'' \<mapsto> 1, ''/usr/lib/spawny/greeter'' \<mapsto> 2], lf_readable = (\<lambda>_. True)\<rparr>"
  have "access_r ?fs ''/usr/lib/spawny/greeter''" by (simp add: access_r_def)
  moreover have "''/usr/bin/new'' \<noteq> ''/usr/lib/spawny/greeter''" by simp
  ultimately show ?thesis
    using greeter_set_only_unset [of "''/usr/bin/new''" "''/usr/lib/spawny/greeter''" ?fs, OF _ surjective_pairing] by simp
qed

end
