(* ===== verification/Console.thy ===== *)
theory Console
  imports Prelude
begin

section \<open>Reading from a terminal\<close>

text \<open>
  What two of the programs use of the C library to ask somebody at a terminal. The terminal is in its
  usual mode: a read gives one line, with its line feed, of which \<open>stdin\<close> keeps what was not asked for
  (\<open>con_buf\<close>); \<open>getpass\<close> opens the terminal itself and so gets the next line. \<open>con_typed\<close> are the
  lines the user types, each when the program waits for it; after the last one the input is at its
  end. Lines hold no zero byte.
\<close>

subsection \<open>Functions of the C library\<close>

record console =
  con_buf :: string
  con_typed :: "string list"

definition NL :: char where "NL = CHR 0x0A"

definition get_char :: "console \<Rightarrow> char option \<times> console" where
  "get_char c =
     (case con_buf c of
        x # xs \<Rightarrow> (Some x, c\<lparr>con_buf := xs\<rparr>)
      | [] \<Rightarrow>
          (case con_typed c of
             [] \<Rightarrow> (None, c)
           | l # ls \<Rightarrow> (Some (hd (l @ [NL])), \<lparr>con_buf = tl (l @ [NL]), con_typed = ls\<rparr>)))"

definition input_size :: "console \<Rightarrow> nat" where
  "input_size c = length (con_buf c) + sum_list (map (\<lambda>l. Suc (length l)) (con_typed c))"

lemma get_char_smaller: "get_char c = (Some x, d) \<Longrightarrow> input_size c = Suc (input_size d)"
  by (auto simp: get_char_def input_size_def split: list.splits)

lemma get_char_none: "get_char c = (None, d) \<longleftrightarrow> con_buf c = [] \<and> con_typed c = [] \<and> d = c"
  by (auto simp: get_char_def split: list.splits)

lemma get_char_le: "input_size (snd (get_char c)) \<le> input_size c"
  by (auto simp: get_char_def input_size_def split: list.splits)

definition LOGIN_NAME_MAX :: nat where "LOGIN_NAME_MAX = 256"

definition is_space :: "char \<Rightarrow> bool" where
  "is_space x \<longleftrightarrow> x = CHR '' '' \<or> (9 \<le> (of_char x :: nat) \<and> (of_char x :: nat) \<le> 13)"

text \<open>\<open>scanf("%s")\<close>: skip white space, then read up to the next one, which is put back.\<close>

function skip_space :: "console \<Rightarrow> char option \<times> console" where
  "skip_space c =
     (case get_char c of
        (None, d) \<Rightarrow> (None, d)
      | (Some x, d) \<Rightarrow> if is_space x then skip_space d else (Some x, d))"
  by pat_completeness auto
termination by (relation "measure input_size") (auto dest: get_char_smaller [OF sym])

function read_word :: "console \<Rightarrow> string \<times> console" where
  "read_word c =
     (case get_char c of
        (None, d) \<Rightarrow> ([], d)
      | (Some x, d) \<Rightarrow>
          if is_space x then ([], d\<lparr>con_buf := x # con_buf d\<rparr>)
          else case read_word d of (xs, e) \<Rightarrow> (x # xs, e))"
  by pat_completeness auto
termination by (relation "measure input_size") (auto dest: get_char_smaller [OF sym])

declare skip_space.simps [simp del] read_word.simps [simp del]

definition scanf_s :: "console \<Rightarrow> string option \<times> console" where
  "scanf_s c =
     (case skip_space c of
        (None, d) \<Rightarrow> (None, d)
      | (Some x, d) \<Rightarrow> (case read_word d of (xs, e) \<Rightarrow> (Some (x # xs), e)))"

text \<open>\<open>fgets\<close> with a buffer of \<open>n\<close> bytes; NULL when the input is at its end.\<close>

fun read_line :: "nat \<Rightarrow> console \<Rightarrow> string \<times> console" where
  "read_line 0 c = ([], c)"
| "read_line (Suc n) c =
     (case get_char c of
        (None, d) \<Rightarrow> ([], d)
      | (Some x, d) \<Rightarrow> if x = NL then ([x], d) else case read_line n d of (xs, e) \<Rightarrow> (x # xs, e))"

definition fgets :: "nat \<Rightarrow> console \<Rightarrow> string option \<times> console" where
  "fgets n c = (case read_line (n - 1) c of (xs, d) \<Rightarrow> (if xs = [] then None else Some xs, d))"

definition getpass :: "console \<Rightarrow> string \<times> console" where
  "getpass c = (case con_typed c of [] \<Rightarrow> ([], c) | l # ls \<Rightarrow> (l, c\<lparr>con_typed := ls\<rparr>))"

text \<open>\<open>atoi\<close>: the number is converted to 64 bits, where it saturates, and cut to 32.\<close>

definition is_digit :: "char \<Rightarrow> bool" where
  "is_digit x \<longleftrightarrow> 48 \<le> (of_char x :: nat) \<and> (of_char x :: nat) \<le> 57"

definition to_int :: "int \<Rightarrow> int" where
  "to_int n = (max (- (2 ^ 63)) (min (2 ^ 63 - 1) n) + 2 ^ 31) mod 2 ^ 32 - 2 ^ 31"

definition atoi :: "string \<Rightarrow> int" where
  "atoi s =
     (case dropWhile is_space s of
        [] \<Rightarrow> 0
      | x # xs \<Rightarrow>
          if x = CHR ''-'' then to_int (- int (read_nat (takeWhile is_digit xs)))
          else if x = CHR ''+'' then to_int (int (read_nat (takeWhile is_digit xs)))
          else to_int (int (read_nat (takeWhile is_digit (x # xs)))))"

definition int_pred :: "int \<Rightarrow> int res" where
  "int_pred n = (if n = - (2 ^ 31) then Inl Int_Overflow else Inr (n - 1))"

definition int_succ :: "int \<Rightarrow> int res" where
  "int_succ n = (if n = 2 ^ 31 - 1 then Inl Int_Overflow else Inr (n + 1))"

subsection \<open>A line at a time\<close>

abbreviation waiting_for :: "string list \<Rightarrow> console" where
  "waiting_for ls \<equiv> \<lparr>con_buf = [], con_typed = ls\<rparr>"

lemma get_char_simps [simp]:
  "get_char \<lparr>con_buf = x # xs, con_typed = ls\<rparr> = (Some x, \<lparr>con_buf = xs, con_typed = ls\<rparr>)"
  "get_char (waiting_for []) = (None, waiting_for [])"
  "get_char (waiting_for ((x # xs) # ls)) = (Some x, \<lparr>con_buf = xs @ [NL], con_typed = ls\<rparr>)"
  "get_char (waiting_for ([] # ls)) = (Some NL, waiting_for ls)"
  by (simp_all add: get_char_def)

definition blank_free :: "string \<Rightarrow> bool" where
  "blank_free w \<longleftrightarrow> (\<forall>x \<in> set w. \<not> is_space x)"

lemma is_space_NL [simp]: "is_space NL"
  by (simp add: is_space_def NL_def)

lemma read_word_buffered:
  "blank_free w \<Longrightarrow> read_word \<lparr>con_buf = w @ [NL], con_typed = ls\<rparr> = (w, \<lparr>con_buf = [NL], con_typed = ls\<rparr>)"
proof (induction w)
  case Nil
  show ?case by (subst read_word.simps) simp
next
  case (Cons x w)
  then show ?case by (subst read_word.simps) (simp add: blank_free_def)
qed

lemma scanf_s_word:
  "w \<noteq> [] \<Longrightarrow> blank_free w \<Longrightarrow> scanf_s (waiting_for (w # ls)) = (Some w, \<lparr>con_buf = [NL], con_typed = ls\<rparr>)"
proof (cases w)
  case (Cons x xs)
  assume "blank_free w"
  with Cons have "blank_free xs" "\<not> is_space x" by (simp_all add: blank_free_def)
  then have "skip_space (waiting_for (w # ls)) = (Some x, \<lparr>con_buf = xs @ [NL], con_typed = ls\<rparr>)"
    by (subst skip_space.simps) (simp add: Cons)
  with read_word_buffered [OF \<open>blank_free xs\<close>, of ls] Cons show ?thesis by (simp add: scanf_s_def)
qed simp

lemma read_line_buffered:
  "NL \<notin> set l \<Longrightarrow> length l < n \<Longrightarrow>
   read_line n \<lparr>con_buf = l @ [NL], con_typed = ls\<rparr> = (l @ [NL], waiting_for ls)"
proof (induction l arbitrary: n)
  case Nil
  then show ?case by (cases n) simp_all
next
  case (Cons x l)
  then show ?case by (cases n) auto
qed

lemma fgets_line:
  assumes "NL \<notin> set l" and "length l + 1 < n"
  shows "fgets n (waiting_for (l # ls)) = (Some (l @ [NL]), waiting_for ls)"
proof -
  have "read_line (n - 1) (waiting_for (l # ls)) = (l @ [NL], waiting_for ls)"
  proof (cases l)
    case Nil
    with assms show ?thesis by (cases "n - 1") simp_all
  next
    case (Cons x xs)
    with assms obtain m where m: "n - 1 = Suc m" "length xs < m" by (cases "n - 1") auto
    with Cons assms read_line_buffered [of xs m ls] show ?thesis by (auto simp del: One_nat_def)
  qed
  then show ?thesis by (simp add: fgets_def)
qed

subsection \<open>Reading a number\<close>

lemma show_nat_digits: "x \<in> set (show_nat n) \<Longrightarrow> is_digit x"
proof (induction n rule: show_nat.induct)
  case (1 n)
  then show ?case by (subst (asm) (2) show_nat.simps) (auto simp: is_digit_def split: if_splits)
qed

lemma show_nat_nonempty: "show_nat n \<noteq> []"
  by (subst show_nat.simps) simp

lemma show_nat_short: "n < 10 ^ k \<Longrightarrow> 0 < k \<Longrightarrow> length (show_nat n) \<le> k"
proof (induction n arbitrary: k rule: show_nat.induct)
  case (1 n)
  show ?case
  proof (cases "n < 10")
    case True
    then show ?thesis using "1.prems" by (subst show_nat.simps) simp
  next
    case False
    obtain j where k: "k = Suc j" using "1.prems" by (cases k) auto
    with False "1.prems" have "n div 10 < 10 ^ j" by auto
    moreover from this have "0 < j" using False by (cases j) auto
    ultimately have j: "n div 10 < 10 ^ j" "0 < j" by simp_all
    have "length (show_nat (n div 10)) \<le> j" by (rule "1.IH" [OF False j])
    with False k show ?thesis by (subst show_nat.simps) simp
  qed
qed

lemma digit_facts:
  assumes "is_digit x"
  shows "\<not> is_space x" "x \<noteq> NL" "x \<noteq> CHR ''-''" "x \<noteq> CHR ''+''" "x \<noteq> CHR ''l''"
  using assms by (auto simp: is_digit_def is_space_def NL_def)

lemma atoi_line:
  assumes "int n < 2 ^ 31"
  shows "atoi (show_nat n @ [NL]) = int n"
proof -
  obtain x xs where d: "show_nat n = x # xs" using show_nat_nonempty by (cases "show_nat n") auto
  then have x: "is_digit x" using show_nat_digits by (metis list.set_intros(1))
  have "\<not> is_digit NL" by (simp add: is_digit_def NL_def)
  then have "takeWhile is_digit (show_nat n @ [NL]) = show_nat n"
    by (subst takeWhile_append2) (auto dest: show_nat_digits)
  then show ?thesis
    using assms digit_facts [OF x] read_show_nat [of n]
    by (simp add: d atoi_def to_int_def mod_pos_pos_trivial)
qed

end
