(* ===== verification/Fallback_Greeter.thy ===== *)
theory Fallback_Greeter
  imports Tools Console
begin

section \<open>The greeter on a terminal: \<open>sp-fallback-greeter/main.c\<close>\<close>

text \<open>
  A client of theory \<open>Client\<close> that talks to the user on a terminal (theory \<open>Console\<close>). What is printed is
  not modelled.

  The loops that ask until an answer will do are \<open>partial_function\<close>s: at the end of the input some of
  them go on for ever. A callback that does so is \<open>No_Return\<close> for the library that called it.
\<close>

subsection \<open>The program's state\<close>

record greeter_app = world +
  fg_in :: console
  fg_prompted :: bool
  fg_sessions :: "Session numbered_array"
  fg_templates :: "Template numbered_array"
  fg_users :: "User numbered_array"

text \<open>A result that may never come, in sequence with a next step.\<close>

definition bindO :: "'a res option \<Rightarrow> ('a \<Rightarrow> 'b res option) \<Rightarrow> 'b res option" where
  "bindO m f = (case m of None \<Rightarrow> None | Some (Inl e) \<Rightarrow> Some (Inl e) | Some (Inr x) \<Rightarrow> f x)"

lemma bindO_simps [simp]:
  "bindO None f = None" "bindO (Some (Inl e)) f = Some (Inl e)" "bindO (Some (Inr x)) f = f x"
  by (simp_all add: bindO_def)

definition returns :: "'a res option \<Rightarrow> 'a res" where
  "returns m = (case m of None \<Rightarrow> Inl No_Return | Some r \<Rightarrow> r)"

subsection \<open>Logging in\<close>

definition MAX_INTEGER_SIZE :: nat where "MAX_INTEGER_SIZE = 10 + 1"

fun find_user_loop :: "string option \<Rightarrow> User list \<Rightarrow> User option res" where
  "find_user_loop name [] = Inr None"
| "find_user_loop name (u # us) =
     bindR (deref name Uninit_Read)
       (\<lambda>n. bindR (deref (us_name u) Null_Deref)
         (\<lambda>m. if m = n then Inr (Some u) else find_user_loop name us))"

definition find_user :: "User numbered_array \<Rightarrow> string option \<Rightarrow> User option res" where
  "find_user arr name =
     (if na_length arr \<le> int (length (na_data arr)) then find_user_loop name (take (nat (na_length arr)) (na_data arr))
      else Inl Out_Of_Bounds)"

text \<open>Ask for a name until it is one of the users; \<open>name\<close> is what is in the buffer.\<close>

partial_function (option) ask_user ::
  "User numbered_array \<Rightarrow> string option \<Rightarrow> console \<Rightarrow> (User \<times> string \<times> console) res option" where
  "ask_user arr name c =
     (case scanf_s c of
        (w, d) \<Rightarrow>
          (let name1 = (case w of None \<Rightarrow> name | Some x \<Rightarrow> Some x)
           in if w \<noteq> None \<and> length (the w) \<ge> LOGIN_NAME_MAX then Some (Inl Out_Of_Bounds)
              else case find_user arr name1 of
                     Inl e \<Rightarrow> Some (Inl e)
                   | Inr None \<Rightarrow> ask_user arr name1 d
                   | Inr (Some u) \<Rightarrow> Some (Inr (u, the name1, d))))"

text \<open>The number of the template to start, for a line that is neither the list nor unknown.\<close>

definition chosen :: "User \<Rightarrow> Template \<Rightarrow> string \<Rightarrow> int option res" where
  "chosen u def_t line =
     (if us_prefered_session u > 1 \<and> head_opt line = Some NL then bindR (int_succ (tm_id def_t)) (\<lambda>n. Inr (Some n))
      else if atoi line \<noteq> 0 then Inr (Some (atoi line))
      else Inr None)"

text \<open>Ask for a template until the request for it could be sent; \<open>buf\<close> is what is in the buffer.\<close>

partial_function (option) ask_template ::
  "'b client_os_scheme \<Rightarrow> sp_client_context option \<Rightarrow> User \<Rightarrow> Template \<Rightarrow> string \<Rightarrow> string \<Rightarrow> string option \<Rightarrow>
    'a greeter_app_scheme \<Rightarrow> 'a greeter_app_scheme res option" where
  "ask_template co cx u def_t name pass buf s =
     (case fgets MAX_INTEGER_SIZE (fg_in s) of
        (l, d) \<Rightarrow>
          (let s1 = s\<lparr>fg_in := d\<rparr>; buf1 = (case l of None \<Rightarrow> buf | Some x \<Rightarrow> Some x)
           in case buf1 of
                None \<Rightarrow> Some (Inl Uninit_Read)
              | Some line \<Rightarrow>
                  if head_opt line = Some CHR ''l'' then ask_template co cx u def_t name pass buf1 s1
                  else case chosen u def_t line of
                         Inl e \<Rightarrow> Some (Inl e)
                       | Inr None \<Rightarrow> ask_template co cx u def_t name pass buf1 s1
                       | Inr (Some temp) \<Rightarrow>
                           (case bindR (int_pred temp) (\<lambda>i. sp_client_login co cx name pass i s1) of
                              Inl e \<Rightarrow> Some (Inl e)
                            | Inr (ok, s2) \<Rightarrow>
                                if ok then Some (Inr s2) else ask_template co cx u def_t name pass buf1 s2)))"

definition login ::
  "'b client_os_scheme \<Rightarrow> sp_client_context option \<Rightarrow> 'a greeter_app_scheme \<Rightarrow> 'a greeter_app_scheme res option" where
  "login co cx s =
     bindO (ask_user (fg_users s) None (fg_in s))
       (\<lambda>(u, name, c). bindO (Some (ARRAY_ACCESS (fg_templates s) (us_prefered_session u)))
         (\<lambda>def_t. case getpass c of
                    (pass, d) \<Rightarrow> ask_template co cx u def_t name pass None (s\<lparr>fg_in := snd (get_char d)\<rparr>)))"

subsection \<open>Activating a session\<close>

text \<open>The buffer is new in every turn.\<close>

partial_function (option) listsessions ::
  "'b client_os_scheme \<Rightarrow> sp_client_context option \<Rightarrow> 'a greeter_app_scheme \<Rightarrow> 'a greeter_app_scheme res option" where
  "listsessions co cx s =
     (case fgets MAX_INTEGER_SIZE (fg_in s) of
        (None, d) \<Rightarrow> Some (Inl Uninit_Read)
      | (Some line, d) \<Rightarrow>
          (case bindR (int_pred (atoi (butlast line))) (\<lambda>i. sp_client_session_activate co cx i (s\<lparr>fg_in := d\<rparr>)) of
             Inl e \<Rightarrow> Some (Inl e)
           | Inr (ok, s1) \<Rightarrow> if ok then Some (Inr s1) else listsessions co cx s1))"

subsection \<open>The prompt and the callbacks\<close>

text \<open>
  \<open>getchar\<close> is stored in a \<open>char\<close>: the byte 255 is taken for the end of the input too. Every turn
  consumes a character, so this loop ends.
\<close>

function ask_action :: "console \<Rightarrow> char option \<times> console" where
  "ask_action c =
     (case get_char c of
        (None, d) \<Rightarrow> (None, d)
      | (Some x, d) \<Rightarrow>
          if x = CHR 0xFF then (None, d)
          else if x = NL then (Some CHR ''l'', d)
          else if x = CHR ''l'' \<or> x = CHR ''s'' then (Some x, snd (get_char d))
          else ask_action (snd (get_char d)))"
  by pat_completeness auto
termination
proof (relation "measure input_size", goal_cases)
  case (2 c p d x)
  with get_char_le [of d] show ?case by (auto dest!: get_char_smaller [OF sym])
qed simp

declare ask_action.simps [simp del]

definition prompt_run ::
  "'b client_os_scheme \<Rightarrow> sp_client_context option \<Rightarrow> 'a greeter_app_scheme \<Rightarrow>
    (bool \<times> 'a greeter_app_scheme) res option" where
  "prompt_run co cx s =
     (case ask_action (fg_in s) of
        (None, d) \<Rightarrow> Some (Inr (False, s\<lparr>fg_in := d\<rparr>))
      | (Some x, d) \<Rightarrow>
          bindO (if x = CHR ''l'' then login co cx (s\<lparr>fg_in := d\<rparr>) else listsessions co cx (s\<lparr>fg_in := d\<rparr>))
            (\<lambda>s1. Some (Inr (True, s1))))"

definition greeter_data_cb ::
  "'b client_os_scheme \<Rightarrow> sp_client_context \<Rightarrow> 'a greeter_app_scheme \<Rightarrow> 'a greeter_app_scheme res option" where
  "greeter_data_cb co cx s =
     (let s1 = s\<lparr>fg_sessions := cc_sessions cx, fg_templates := cc_templates cx, fg_users := cc_users cx\<rparr>
      in if \<not> fg_prompted s1
         then bindO (prompt_run co (Some cx) s1) (\<lambda>(_, s2). Some (Inr (s2\<lparr>fg_prompted := True\<rparr>)))
         else Some (Inr (s1\<lparr>fg_prompted := True\<rparr>)))"

definition greeter_login_cb ::
  "'b client_os_scheme \<Rightarrow> sp_client_context option \<Rightarrow> bool \<Rightarrow> 'a greeter_app_scheme \<Rightarrow> 'a greeter_app_scheme res option" where
  "greeter_login_cb co cx success s =
     (if \<not> success then bindO (prompt_run co cx s) (\<lambda>(_, s1). Some (Inr s1)) else Some (Inr s))"

definition greeter_interface ::
  "'b client_os_scheme \<Rightarrow> sp_client_context option \<Rightarrow> 'a greeter_app_scheme sp_client_interface" where
  "greeter_interface co cx =
     \<lparr>data_cb = Some (\<lambda>cx1 s. returns (greeter_data_cb co cx1 s)),
      feedback_cb = Some (\<lambda>success msg s. returns (greeter_login_cb co cx success s))\<rparr>"

partial_function (option) greeter_loop ::
  "'b client_os_scheme \<Rightarrow> heap_junk \<Rightarrow> sp_client_context option \<Rightarrow> 'a greeter_app_scheme \<Rightarrow>
    (Sp_Client_Read_Result \<times> sp_client_context option \<times> 'a greeter_app_scheme) res option" where
  "greeter_loop co junk cx s =
     (case sp_client_read co junk cx (Some (greeter_interface co cx)) s of
        Inl e \<Rightarrow> Some (Inl e)
      | Inr (r, cx1, s1) \<Rightarrow>
          if r = SP_CLIENT_READ_RESULT_SUCCESS then greeter_loop co junk cx1 s1 else Some (Inr (r, cx1, s1)))"

definition greeter_main ::
  "'b client_os_scheme \<Rightarrow> heap_junk \<Rightarrow> string list \<Rightarrow> 'a greeter_app_scheme \<Rightarrow> (int \<times> 'a greeter_app_scheme) res option" where
  "greeter_main co junk argv s =
     (case sp_client_init co (Some argv) s of
        (None, s1) \<Rightarrow> Some (Inr (EXIT_FAILURE, s1))
      | (Some cx, s1) \<Rightarrow>
          bindO (greeter_loop co junk (Some cx) s1)
            (\<lambda>(r, cx1, s2). bindO (Some (deref cx1 Null_Deref))
               (\<lambda>cx2. Some (Inr (if r = SP_CLIENT_READ_RESULT_SUCCESS then EXIT_SUCCESS else EXIT_FAILURE,
                                 snd (sp_client_free cx2 s2))))))"

declare ask_user.simps [code] ask_template.simps [code] listsessions.simps [code] greeter_loop.simps [code]

subsection \<open>Looking a user up\<close>

lemma find_user_loop_find:
  "None \<notin> us_name ` set us \<Longrightarrow> find_user_loop (Some n) us = Inr (find (\<lambda>u. us_name u = Some n) us)"
proof (induction us)
  case (Cons u us)
  then obtain m where "us_name u = Some m" by (cases "us_name u") auto
  with Cons show ?case by simp
qed simp

lemma find_user_converted:
  assumes "complete_data d" and "Some n \<in> usr_name ` set (data_users d)"
  obtains u where "find_user (cc_users (converted d cx)) (Some n) = Inr (Some u)"
    and "u \<in> set (na_data (cc_users (converted d cx)))" and "us_name u = Some n"
proof -
  let ?us = "na_data (cc_users (converted d cx))"
  have names: "us_name ` set ?us = usr_name ` set (data_users d)"
    by (force simp: converted_def set_numbered user_image_def in_set_conv_nth image_iff)
  then have "None \<notin> us_name ` set ?us" using assms(1) by (force simp: complete_data_def)
  then have find: "find_user (cc_users (converted d cx)) (Some n) = Inr (find (\<lambda>u. us_name u = Some n) ?us)"
    using find_user_loop_find [of ?us n] by (simp add: find_user_def converted_def)
  have "Some n \<in> us_name ` set ?us" using names assms(2) by simp
  then have "find (\<lambda>u. us_name u = Some n) ?us \<noteq> None" by (auto simp: find_None_iff)
  then obtain u where "find (\<lambda>u. us_name u = Some n) ?us = Some u" by blast
  with find show ?thesis by (intro that [of u]) (auto simp: find_Some_iff)
qed

subsection \<open>Properties\<close>

text \<open>One line chosen from the list: the request for the template with that number.\<close>

lemma ask_template_number:
  assumes "fg_in s = waiting_for (show_nat (Suc i) # rest)" and "Suc i < 10 ^ 9"
    and "0 < na_length (cc_private_templates cx)" and "int i < na_length (cc_private_templates cx)"
    and "i < length (na_data (cc_private_templates cx))"
    and "pt_template_id (na_data (cc_private_templates cx) ! i) = Some tid"
    and "\<And>tr msg. co_write co tr (cc_server_sock cx) msg"
  shows "ask_template co (Some cx) u def_t name pass buf s =
    Some (Inr (emit (Asked (cc_server_sock cx) \<lparr>gm_type = LOGIN_TRY,
      gm_login = Some \<lparr>login_user = name, login_password = pass, login_template_id = tid\<rparr>, gm_session = None\<rparr>)
      (s\<lparr>fg_in := waiting_for rest\<rparr>)))"
proof -
  let ?l = "show_nat (Suc i) @ [NL]"
  have small: "int (Suc i) < 2 ^ 31" using assms(2) by simp
  have "length (show_nat (Suc i)) \<le> 9" using assms(2) by (intro show_nat_short) auto
  moreover have "NL \<notin> set (show_nat (Suc i))" using show_nat_digits digit_facts(2) by blast
  ultimately have line: "fgets MAX_INTEGER_SIZE (fg_in s) = (Some ?l, waiting_for rest)"
    using assms(1) by (simp add: fgets_line MAX_INTEGER_SIZE_def)
  obtain x xs where d: "show_nat (Suc i) = x # xs" using show_nat_nonempty by (cases "show_nat (Suc i)") auto
  then have "is_digit x" using show_nat_digits by (metis list.set_intros(1))
  then have hd: "head_opt ?l \<noteq> Some CHR ''l''" "head_opt ?l \<noteq> Some NL"
    using digit_facts by (auto simp: d head_opt_def)
  then have ch: "chosen u def_t ?l = Inr (Some (int (Suc i)))"
    using atoi_line [OF small] by (simp add: chosen_def)
  have pred: "int_pred (int (Suc i)) = Inr (int i)" by (simp add: int_pred_def)
  show ?thesis
    by (subst ask_template.simps)
       (use assms(3-7) line hd(1) ch pred in
         \<open>simp add: sp_client_login_def ARRAY_ACCESS_def write_msg_def Let_def del: of_nat_Suc\<close>)
qed

text \<open>A login typed at the prompt is the login that is asked for: once the daemon's data has arrived, a user
  who presses return, types the name of one of the users shown, a password and the number of a template
  makes the greeter send exactly one request, with this name, this password and the identifier the
  daemon gave for that template, and leaves what was typed later unread.\<close>

theorem typed_login_is_requested:
  assumes "co_read co (nreads s) (cc_server_sock cx) = Message m" and "sm_type m = DATA_UPDATE"
    and "sm_data m = Some d" and d: "complete_data d" and cx: "context_ok cx"
    and "\<not> fg_prompted s" and "fg_in s = waiting_for ([] # name # pass # show_nat (Suc i) # rest)"
    and name: "name \<noteq> []" "blank_free name" "length name < LOGIN_NAME_MAX" "Some name \<in> usr_name ` set (data_users d)"
    and i: "i < length (data_templates d)" "Suc i < 10 ^ 9"
    and w: "\<And>tr msg. co_write co tr (cc_server_sock cx) msg"
  shows "\<exists>s' tid. sp_client_read co junk (Some cx) (Some (greeter_interface co (Some cx))) s =
      Inr (SP_CLIENT_READ_RESULT_SUCCESS, Some (converted d cx), s') \<and>
    tmpl_id (data_templates d ! i) = Some tid \<and>
    trace s' = trace s @ [Asked (cc_server_sock cx) \<lparr>gm_type = LOGIN_TRY,
      gm_login = Some \<lparr>login_user = name, login_password = pass, login_template_id = tid\<rparr>, gm_session = None\<rparr>] \<and>
    fg_prompted s' \<and> fg_in s' = waiting_for rest"
proof -
  let ?cx = "converted d cx" and ?ls = "pass # show_nat (Suc i) # rest"
  let ?s1 = "s\<lparr>nreads := Suc (nreads s), fg_sessions := cc_sessions ?cx, fg_templates := cc_templates ?cx,
    fg_users := cc_users ?cx\<rparr>"
  obtain tid where tid: "tmpl_id (data_templates d ! i) = Some tid"
    using d nth_mem [OF i(1)] by (auto simp: complete_data_def)
  have act: "ask_action (fg_in s) = (Some CHR ''l'', waiting_for (name # ?ls))"
    by (subst ask_action.simps) (simp add: assms(7) NL_def)
  obtain u where u: "find_user (cc_users ?cx) (Some name) = Inr (Some u)" "u \<in> set (na_data (cc_users ?cx))"
    using find_user_converted [OF d name(4)] by blast
  have ask: "ask_user (cc_users ?cx) None (waiting_for (name # ?ls)) =
      Some (Inr (u, name, \<lparr>con_buf = [NL], con_typed = ?ls\<rparr>))"
    by (subst ask_user.simps) (use name(3) u(1) in \<open>simp add: scanf_s_word [OF name(1,2)] Let_def\<close>)
  have "us_prefered_session u = 0 \<or> 0 \<le> us_prefered_session u \<and> us_prefered_session u < na_length (cc_templates ?cx)"
    using context_ok_converted [OF d, of cx] u(2) by (simp add: context_ok_def)
  then have "0 \<le> us_prefered_session u \<and> nat (us_prefered_session u) < length (na_data (cc_templates ?cx))"
    using i(1) by (auto simp: converted_def)
  then obtain def_t where def_t: "ARRAY_ACCESS (cc_templates ?cx) (us_prefered_session u) = Inr def_t"
    by (simp add: ARRAY_ACCESS_def)
  have sock: "cc_server_sock ?cx = cc_server_sock cx" by (simp add: converted_def)
  have tmpl: "ask_template co (Some ?cx) u def_t name pass None (?s1\<lparr>fg_in := waiting_for (show_nat (Suc i) # rest)\<rparr>) =
      Some (Inr (emit (Asked (cc_server_sock cx) \<lparr>gm_type = LOGIN_TRY,
        gm_login = Some \<lparr>login_user = name, login_password = pass, login_template_id = tid\<rparr>, gm_session = None\<rparr>)
        (?s1\<lparr>fg_in := waiting_for rest\<rparr>)))"
    using ask_template_number [of "?s1\<lparr>fg_in := waiting_for (show_nat (Suc i) # rest)\<rparr>" i rest ?cx tid co
        u def_t name pass None] i tid w
    by (simp add: sock) (simp add: converted_def private_template_image_def)
  have "login co (Some ?cx) (?s1\<lparr>fg_in := waiting_for (name # ?ls)\<rparr>) =
      ask_template co (Some ?cx) u def_t name pass None (?s1\<lparr>fg_in := waiting_for (show_nat (Suc i) # rest)\<rparr>)"
    by (simp add: login_def ask def_t getpass_def)
  then have "greeter_data_cb co ?cx (s\<lparr>nreads := Suc (nreads s)\<rparr>) =
      Some (Inr ((emit (Asked (cc_server_sock cx) \<lparr>gm_type = LOGIN_TRY,
        gm_login = Some \<lparr>login_user = name, login_password = pass, login_template_id = tid\<rparr>, gm_session = None\<rparr>)
        (?s1\<lparr>fg_in := waiting_for rest\<rparr>))\<lparr>fg_prompted := True\<rparr>))"
    using assms(6) act tmpl by (simp add: greeter_data_cb_def prompt_run_def Let_def)
  then show ?thesis
    using assms(1-3) tid
    by (simp add: sp_client_read_def interface_check_def greeter_interface_def data_convert_converted [OF d cx]
        returns_def Let_def emit_def)
qed

definition example_app :: greeter_app where
  "example_app = \<lparr>debug = False, no_greeter_restart = False, trace = [], nforks = 0, npipes = 0, nreads = 0,
     naccepts = 0, fg_in = waiting_for ['''', ''bob'', ''secret'', ''2''], fg_prompted = False,
     fg_sessions = no_array, fg_templates = no_array, fg_users = no_array\<rparr>"

lemma example_app_simps [simp]:
  "trace example_app = []" "\<not> fg_prompted example_app"
  "fg_in example_app = waiting_for ['''', ''bob'', ''secret'', ''2'']"
  by (simp_all add: example_app_def)

lemma typed_login_is_requested_witness:
  "\<exists>s'. sp_client_read (example_client_os (Message update_message)) dirty_memory (Some new_context)
      (Some (greeter_interface (example_client_os (Message update_message)) (Some new_context))) example_app =
      Inr (SP_CLIENT_READ_RESULT_SUCCESS, Some (converted two_templates new_context), s') \<and>
    trace s' = [Asked 0 \<lparr>gm_type = LOGIN_TRY,
      gm_login = Some \<lparr>login_user = ''bob'', login_password = ''secret'', login_template_id = ''t4''\<rparr>, gm_session = None\<rparr>]"
proof -
  let ?co = "example_client_os (Message update_message)"
  have sock: "cc_server_sock new_context = 0" by (simp add: new_context_def)
  have os: "co_read ?co (nreads example_app) (cc_server_sock new_context) = Message update_message"
    "\<And>tr msg. co_write ?co tr (cc_server_sock new_context) msg"
    by (simp_all add: example_client_os_def sock)
  have msg: "sm_type update_message = DATA_UPDATE" "sm_data update_message = Some two_templates"
    by (simp_all add: update_message_def)
  have two: "show_nat (Suc 1) = ''2''" by code_simp
  have typed: "fg_in example_app = waiting_for ([] # ''bob'' # ''secret'' # show_nat (Suc 1) # [])" by (simp only: two example_app_simps)
  have bob: "''bob'' \<noteq> ''''" "blank_free ''bob''" "length ''bob'' < LOGIN_NAME_MAX"
    "Some ''bob'' \<in> usr_name ` set (data_users two_templates)" "1 < length (data_templates two_templates)"
    "Suc 1 < 10 ^ 9" "tmpl_id (data_templates two_templates ! 1) = Some ''t4''"
    by (simp_all add: blank_free_def is_space_def LOGIN_NAME_MAX_def two_templates_def)
  from typed_login_is_requested [OF os(1) msg two_templates_complete context_ok_new _ typed bob(1-6) os(2),
      of dirty_memory] bob(7) show ?thesis by (auto simp: sock)
qed

text \<open>Pressing return for the default is taken only from the third template on: for a preference at
  position two or later the greeter sends the request for that template; for the second one, whose name
  the prompt offers as the default, as for the first, it asks again as if nothing had been typed.\<close>

theorem default_from_third_on:
  assumes "fg_in s = waiting_for ([] # ls)" and "tm_id def_t = int k"
    and "int k < na_length (cc_private_templates cx)" and "k < length (na_data (cc_private_templates cx))"
    and "int k < 2 ^ 31 - 1" and "pt_template_id (na_data (cc_private_templates cx) ! k) = Some tid"
    and "\<And>tr msg. co_write co tr (cc_server_sock cx) msg"
  shows "ask_template co (Some cx) u def_t name pass buf s =
    (if us_prefered_session u > 1
     then Some (Inr (emit (Asked (cc_server_sock cx) \<lparr>gm_type = LOGIN_TRY,
            gm_login = Some \<lparr>login_user = name, login_password = pass, login_template_id = tid\<rparr>, gm_session = None\<rparr>)
            (s\<lparr>fg_in := waiting_for ls\<rparr>)))
     else ask_template co (Some cx) u def_t name pass (Some [NL]) (s\<lparr>fg_in := waiting_for ls\<rparr>))"
proof -
  have line: "fgets MAX_INTEGER_SIZE (fg_in s) = (Some [NL], waiting_for ls)"
    using assms(1) fgets_line [of "[]" MAX_INTEGER_SIZE ls] by (simp add: MAX_INTEGER_SIZE_def)
  have hd: "head_opt [NL] = Some NL" "NL \<noteq> CHR ''l''" by (simp_all add: head_opt_def NL_def)
  have "atoi [NL] = 0" by (simp add: atoi_def)
  then have ch: "chosen u def_t [NL] = Inr (if us_prefered_session u > 1 then Some (int k + 1) else None)"
    using assms(2,5) hd by (simp add: chosen_def int_succ_def)
  have pred: "int_pred (int k + 1) = Inr (int k)" by (simp add: int_pred_def)
  show ?thesis
  proof (cases "us_prefered_session u > 1")
    case True
    then show ?thesis
      by (subst ask_template.simps)
         (use assms(3,4,6,7) line hd ch pred in \<open>simp add: sp_client_login_def ARRAY_ACCESS_def write_msg_def Let_def\<close>)
  next
    case False
    then show ?thesis by (subst ask_template.simps) (use line hd ch in \<open>simp add: Let_def\<close>)
  qed
qed

lemma default_from_third_on_witness:
  "let cx = converted two_templates new_context; co = example_client_os Malformed;
       u = \<lparr>us_id = 0, us_icon = None, us_name = Some ''bob'', us_prefered_session = 1\<rparr>;
       def_t = \<lparr>tm_id = 1, tm_icon = None, tm_name = Some ''sway''\<rparr>
   in ask_template co (Some cx) u def_t ''bob'' ''secret'' None (example_app\<lparr>fg_in := waiting_for [[], ''1'']\<rparr>) =
      ask_template co (Some cx) u def_t ''bob'' ''secret'' (Some [NL]) (example_app\<lparr>fg_in := waiting_for [''1'']\<rparr>)"
proof -
  let ?cx = "converted two_templates new_context" and ?co = "example_client_os Malformed"
  let ?def = "\<lparr>tm_id = 1, tm_icon = None, tm_name = Some ''sway''\<rparr>" and ?s = "example_app\<lparr>fg_in := waiting_for [[], ''1'']\<rparr>"
  have len: "length (data_templates two_templates) = 2" "tmpl_id (data_templates two_templates ! 1) = Some ''t4''"
    by (simp_all add: two_templates_def)
  have "fg_in ?s = waiting_for ([] # [''1''])" "tm_id ?def = int 1" by simp_all
  moreover have "int 1 < na_length (cc_private_templates ?cx)" "1 < length (na_data (cc_private_templates ?cx))"
    "pt_template_id (na_data (cc_private_templates ?cx) ! 1) = Some ''t4''"
    using len by (simp_all add: converted_def private_template_image_def)
  moreover have "\<And>tr msg. co_write ?co tr (cc_server_sock ?cx) msg"
    by (simp add: example_client_os_def converted_def new_context_def)
  ultimately show ?thesis
    using default_from_third_on [of ?s "[''1'']" ?def 1 ?cx "''t4''" ?co] by (simp add: Let_def)
qed

text \<open>The program never reports success: its loop is left only by a failed read or the daemon's goodbye.\<close>

lemma greeter_loop_result:
  assumes "greeter_loop co junk cx s = Some (Inr (r, cx1, t))"
  shows "r \<noteq> SP_CLIENT_READ_RESULT_SUCCESS"
proof -
  have "\<forall>r cx1 t. y = Inr (r, cx1, t) \<longrightarrow> r \<noteq> SP_CLIENT_READ_RESULT_SUCCESS"
    if "greeter_loop co junk cx s = Some y" for y
    by (rule greeter_loop.raw_induct
        [where P = "\<lambda>co junk cx s y. \<forall>r cx1 t. y = Inr (r, cx1, t) \<longrightarrow> r \<noteq> SP_CLIENT_READ_RESULT_SUCCESS", OF _ that])
       (auto split: sum.splits prod.splits if_splits)
  with assms show ?thesis by blast
qed

lemma greeter_exit_code:
  "greeter_main co junk argv s = Some (Inr (code, t)) \<Longrightarrow> code = EXIT_FAILURE"
  by (auto simp: greeter_main_def bindO_def dest: greeter_loop_result
      split: option.splits sum.splits prod.splits if_splits)

text \<open>At the end of the input the question for a name is repeated for ever.\<close>

lemma ask_user_at_end:
  assumes "find_user arr (Some n) = Inr None"
  shows "ask_user arr (Some n) (waiting_for []) = None"
proof -
  have stuck: "scanf_s (waiting_for []) = (None, waiting_for [])"
    by (simp add: scanf_s_def) (subst skip_space.simps, simp)
  have "\<not> (c = waiting_for [] \<and> find_user arr name = Inr None \<and> name \<noteq> None)" if "ask_user arr name c = Some y" for y name c
    by (rule ask_user.raw_induct
        [where P = "\<lambda>arr name c y. \<not> (c = waiting_for [] \<and> find_user arr name = Inr None \<and> name \<noteq> None)", OF _ that])
       (auto simp: stuck Let_def)
  with assms show ?thesis by (cases "ask_user arr (Some n) (waiting_for [])") blast+
qed

end
