(* ===== verification/Selftest.thy ===== *)
theory Selftest
  imports Session_Child Tools Console
begin

section \<open>The check of the PAM set-up: \<open>selftest/main.c\<close>\<close>

text \<open>
  A program that logs in with both PAM services as the daemon would, asking for a name and a password
  where it was given none. The answers of PAM are trees as in theory \<open>Session_Child\<close>, one for each
  service. \<open>abort\<close> ends the program, so a computation has the result \<open>None\<close> where it was called.
\<close>

record selftest_os =
  st_getpwnam :: "string \<Rightarrow> passwd option"
  st_pam_start :: "string \<Rightarrow> pam_ret"
  st_pam_authenticate :: "string \<Rightarrow> pam_talk"
  st_pam_setcred :: "string \<Rightarrow> pam_talk"
  st_pam_open_session :: "string \<Rightarrow> pam_talk"

record Pam_Config =
  sc_user :: "string option"
  sc_password :: "string option"
  sc_autologin :: bool

text \<open>A step that may abort, and the next one.\<close>

definition unless_aborted :: "'a option res \<Rightarrow> ('a \<Rightarrow> 'b option res) \<Rightarrow> 'b option res" where
  "unless_aborted m f = bindR m (\<lambda>x. case x of None \<Rightarrow> Inr None | Some y \<Rightarrow> f y)"

lemma unless_aborted_simps [simp]:
  "unless_aborted (Inr None) f = Inr None" "unless_aborted (Inr (Some y)) f = f y"
  "unless_aborted (Inl e) f = Inl e"
  by (simp_all add: unless_aborted_def)

definition check_user :: "selftest_os \<Rightarrow> string \<Rightarrow> unit option" where
  "check_user so name = (if st_getpwnam so name = None then None else Some ())"

text \<open>The result of \<open>scanf\<close> is not looked at: at the end of the input the buffer is copied as it is.\<close>

definition st_prompt :: "console \<Rightarrow> (string \<times> console) res" where
  "st_prompt c =
     (case scanf_s c of
        (None, d) \<Rightarrow> Inl Uninit_Read
      | (Some w, d) \<Rightarrow> if length w \<ge> LOGIN_NAME_MAX then Inl Out_Of_Bounds else Inr (w, d))"

text \<open>What was given, or else typed, for the name or the password; the answer is kept.\<close>

definition given_or_typed :: "string option \<Rightarrow> console \<Rightarrow> (string \<times> console) res" where
  "given_or_typed v c = (case v of Some x \<Rightarrow> Inr (x, c) | None \<Rightarrow> st_prompt c)"

fun conversation_loop ::
  "nat \<Rightarrow> pam_message list \<Rightarrow> string option list \<Rightarrow> Pam_Config \<times> console \<Rightarrow>
    (string option list \<times> Pam_Config \<times> console) option res" where
  "conversation_loop i [] resp st = Inr (Some (resp, st))"
| "conversation_loop i (m # ms) resp (cfg, c) =
     (if i \<noteq> 0 then Inl Out_Of_Bounds
      else (case pm_style m of
              PAM_PROMPT_ECHO_ON \<Rightarrow>
                bindR (given_or_typed (sc_user cfg) c)
                  (\<lambda>(x, d). conversation_loop (Suc i) ms (resp[i := Some x]) (cfg\<lparr>sc_user := Some x\<rparr>, d))
            | PAM_PROMPT_ECHO_OFF \<Rightarrow>
                if sc_autologin cfg then Inr None
                else bindR (given_or_typed (sc_password cfg) c)
                       (\<lambda>(x, d). conversation_loop (Suc i) ms (resp[i := Some x]) (cfg\<lparr>sc_password := Some x\<rparr>, d))
            | _ \<Rightarrow> conversation_loop (Suc i) ms resp (cfg, c)))"

definition conversation ::
  "pam_message list \<Rightarrow> Pam_Config \<times> console \<Rightarrow> (string option list \<times> Pam_Config \<times> console) option res" where
  "conversation msgs st = conversation_loop 0 msgs (replicate (length msgs) None) st"

primrec selftest_call :: "pam_talk \<Rightarrow> Pam_Config \<times> console \<Rightarrow> (pam_ret \<times> Pam_Config \<times> console) option res" where
  "selftest_call (Pam_result r) st = Inr (Some (r, st))"
| "selftest_call (Pam_ask msgs k) st =
     unless_aborted (conversation msgs st) (\<lambda>(resp, st1). selftest_call (k resp) st1)"

definition handle_ret :: "pam_ret \<Rightarrow> 'a \<Rightarrow> 'a option res" where
  "handle_ret ret x = (if ret = PAM_SUCCESS then Inr (Some x) else Inr None)"

definition selftest_step :: "pam_talk \<Rightarrow> Pam_Config \<times> console \<Rightarrow> (Pam_Config \<times> console) option res" where
  "selftest_step talk st = unless_aborted (selftest_call talk st) (\<lambda>(ret, st1). handle_ret ret st1)"

text \<open>The configuration is copied: what was typed for one service is asked for again for the next.\<close>

definition check_pam_service :: "selftest_os \<Rightarrow> string \<Rightarrow> Pam_Config \<Rightarrow> console \<Rightarrow> console option res" where
  "check_pam_service so service_name raw_config c =
     unless_aborted (handle_ret (st_pam_start so service_name) (raw_config, c))
       (\<lambda>st. unless_aborted (selftest_step (st_pam_authenticate so service_name) st)
         (\<lambda>st. unless_aborted (selftest_step (st_pam_setcred so service_name) st)
           (\<lambda>st. unless_aborted (selftest_step (st_pam_open_session so service_name) st)
             (\<lambda>(_, d). Inr (Some d)))))"

text \<open>The exit code; \<open>None\<close> when the program has aborted.\<close>

definition selftest_main :: "selftest_os \<Rightarrow> string list \<Rightarrow> console \<Rightarrow> int option res" where
  "selftest_main so args c =
     (if length args \<noteq> 2 \<and> length args \<noteq> 0 then Inr (Some EXIT_FAILURE)
      else let config = (case args of
                           [u, p] \<Rightarrow> \<lparr>sc_user = Some u, sc_password = Some p, sc_autologin = False\<rparr>
                         | _ \<Rightarrow> \<lparr>sc_user = None, sc_password = None, sc_autologin = False\<rparr>)
           in unless_aborted (Inr (check_user so SP_USER))
                (\<lambda>_. unless_aborted (check_pam_service so SP_PAM_SERVICE (config\<lparr>sc_autologin := False\<rparr>) c)
                  (\<lambda>d. unless_aborted (check_pam_service so SP_PAM_SERVICE_GREETER (config\<lparr>sc_autologin := True\<rparr>) d)
                    (\<lambda>_. Inr (Some 0)))))"

subsection \<open>What the test means\<close>

text \<open>
  A service accepts a user if, answered with the name and the password, and never asking for a
  password where there is none to give, its three calls succeed.
\<close>

definition reply :: "string \<Rightarrow> string option \<Rightarrow> pam_message \<Rightarrow> string option" where
  "reply u p m =
     (case pm_style m of PAM_PROMPT_ECHO_ON \<Rightarrow> Some u | PAM_PROMPT_ECHO_OFF \<Rightarrow> p | _ \<Rightarrow> None)"

primrec accepts :: "string \<Rightarrow> string option \<Rightarrow> pam_talk \<Rightarrow> bool" where
  "accepts u p (Pam_result r) \<longleftrightarrow> r = PAM_SUCCESS"
| "accepts u p (Pam_ask msgs k) \<longleftrightarrow>
     (p = None \<longrightarrow> (\<forall>m \<in> set msgs. pm_style m \<noteq> PAM_PROMPT_ECHO_OFF)) \<and> accepts u p (k (map (reply u p) msgs))"

definition service_accepts :: "selftest_os \<Rightarrow> string \<Rightarrow> string \<Rightarrow> string option \<Rightarrow> bool" where
  "service_accepts so srv u p \<longleftrightarrow> st_pam_start so srv = PAM_SUCCESS \<and> accepts u p (st_pam_authenticate so srv) \<and>
     accepts u p (st_pam_setcred so srv) \<and> accepts u p (st_pam_open_session so srv)"

text \<open>A module that has one message at a time, as Linux-PAM's own do.\<close>

primrec one_at_a_time :: "pam_talk \<Rightarrow> bool" where
  "one_at_a_time (Pam_result r) \<longleftrightarrow> True"
| "one_at_a_time (Pam_ask msgs k) \<longleftrightarrow> length msgs \<le> 1 \<and> (\<forall>r. one_at_a_time (k r))"

definition single_messages :: "selftest_os \<Rightarrow> string \<Rightarrow> bool" where
  "single_messages so srv \<longleftrightarrow> one_at_a_time (st_pam_authenticate so srv) \<and> one_at_a_time (st_pam_setcred so srv) \<and>
     one_at_a_time (st_pam_open_session so srv)"

abbreviation given :: "string \<Rightarrow> string \<Rightarrow> bool \<Rightarrow> Pam_Config" where
  "given u p auto \<equiv> \<lparr>sc_user = Some u, sc_password = Some p, sc_autologin = auto\<rparr>"

abbreviation secret :: "string \<Rightarrow> bool \<Rightarrow> string option" where
  "secret p auto \<equiv> if auto then None else Some p"

lemma conversation_given:
  assumes "length msgs \<le> 1"
  shows "conversation msgs (given u p auto, c) =
    (if auto \<and> (\<exists>m \<in> set msgs. pm_style m = PAM_PROMPT_ECHO_OFF) then Inr None
     else Inr (Some (map (reply u (secret p auto)) msgs, given u p auto, c)))"
proof (cases msgs)
  case (Cons m ms)
  with assms show ?thesis
    by (cases "pm_style m") (simp_all add: conversation_def given_or_typed_def reply_def)
qed (simp add: conversation_def)

lemma selftest_step_given:
  "one_at_a_time talk \<Longrightarrow> selftest_step talk (given u p auto, c) =
     Inr (if accepts u (secret p auto) talk then Some (given u p auto, c) else None)"
proof (induction talk)
  case (Pam_ask msgs k)
  let ?r = "map (reply u (secret p auto)) msgs"
  have one: "length msgs \<le> 1" "one_at_a_time (k ?r)" using Pam_ask.prems by simp_all
  have IH: "selftest_step (k ?r) (given u p auto, c) =
      Inr (if accepts u (secret p auto) (k ?r) then Some (given u p auto, c) else None)"
    by (rule Pam_ask.IH [OF rangeI one(2)])
  have "selftest_step (Pam_ask msgs k) (given u p auto, c) =
      (if auto \<and> (\<exists>m \<in> set msgs. pm_style m = PAM_PROMPT_ECHO_OFF) then Inr None
       else selftest_step (k ?r) (given u p auto, c))"
    using conversation_given [OF one(1), of u p auto c] by (auto simp: selftest_step_def)
  then show ?case using IH by auto
qed (simp add: selftest_step_def handle_ret_def)

lemma check_pam_service_given:
  assumes "single_messages so srv"
  shows "check_pam_service so srv (given u p auto) c =
    Inr (if service_accepts so srv u (secret p auto) then Some c else None)"
  using assms
  by (simp add: check_pam_service_def single_messages_def service_accepts_def handle_ret_def selftest_step_given)

text \<open>C17: The self test, run with a name and a password, passes exactly if it should: the daemon's user exists,
  the daemon's service accepts the two, and the greeter's service accepts the name without asking for a
  password. In every other case it aborts; with one message at a time it stays inside its memory.\<close>

theorem selftest_passes_iff:
  assumes "single_messages so SP_PAM_SERVICE" and "single_messages so SP_PAM_SERVICE_GREETER"
  shows "selftest_main so [u, p] c =
    Inr (if st_getpwnam so SP_USER \<noteq> None \<and> service_accepts so SP_PAM_SERVICE u (Some p) \<and>
            service_accepts so SP_PAM_SERVICE_GREETER u None
         then Some 0 else None)"
  using check_pam_service_given [OF assms(1), of u p False] check_pam_service_given [OF assms(2), of u p True]
  by (simp add: selftest_main_def check_user_def)

definition bobs_pam :: selftest_os where
  "bobs_pam = \<lparr>st_getpwnam = (\<lambda>_. Some spawny_pw), st_pam_start = (\<lambda>_. PAM_SUCCESS),
     st_pam_authenticate = (\<lambda>srv. Pam_ask [\<lparr>pm_style = PAM_PROMPT_ECHO_ON, pm_msg = ''login:''\<rparr>]
       (\<lambda>_. if srv = SP_PAM_SERVICE_GREETER then Pam_result PAM_SUCCESS
            else Pam_ask [\<lparr>pm_style = PAM_PROMPT_ECHO_OFF, pm_msg = ''Password:''\<rparr>]
                   (\<lambda>r. Pam_result (if r = [Some ''secret''] then PAM_SUCCESS else PAM_AUTH_ERR)))),
     st_pam_setcred = (\<lambda>_. Pam_result PAM_SUCCESS), st_pam_open_session = (\<lambda>_. Pam_result PAM_SUCCESS)\<rparr>"

lemma selftest_passes_iff_witness:
  "selftest_main bobs_pam [''bob'', ''secret''] (waiting_for []) = Inr (Some 0) \<and>
   selftest_main bobs_pam [''bob'', ''wrong''] (waiting_for []) = Inr None"
proof -
  have "single_messages bobs_pam SP_PAM_SERVICE" "single_messages bobs_pam SP_PAM_SERVICE_GREETER"
    by (simp_all add: single_messages_def bobs_pam_def)
  note iff = selftest_passes_iff [OF this, of "''bob''" _ "waiting_for []"]
  show ?thesis
    unfolding iff by (simp add: service_accepts_def bobs_pam_def reply_def SP_PAM_SERVICE_def SP_PAM_SERVICE_GREETER_def)
qed

end
