(* ===== verification/Log.thy ===== *)
theory Log
  imports Console
begin

section \<open>Logging: \<open>util/log.c\<close>\<close>

text \<open>
  The level below which nothing is printed, from the environment, and one line of the log. \<open>msg\<close> is
  the message with its arguments put in; the standard output is a string.
\<close>

datatype Log_Type = LOG_TYPE_INF | LOG_TYPE_ERR

definition log_code :: "Log_Type \<Rightarrow> int" where
  "log_code t = (case t of LOG_TYPE_INF \<Rightarrow> 0 | LOG_TYPE_ERR \<Rightarrow> 1)"

text \<open>The code compares the two by their numbers.\<close>

instantiation Log_Type :: linorder
begin

definition less_eq_Log_Type :: "Log_Type \<Rightarrow> Log_Type \<Rightarrow> bool" where
  "a \<le> b \<longleftrightarrow> log_code a \<le> log_code b"

definition less_Log_Type :: "Log_Type \<Rightarrow> Log_Type \<Rightarrow> bool" where
  "a < b \<longleftrightarrow> log_code a < log_code b"

instance
  by standard (auto simp: less_eq_Log_Type_def less_Log_Type_def log_code_def split: Log_Type.splits)

end

definition log_init :: "string option \<Rightarrow> Log_Type \<Rightarrow> Log_Type" where
  "log_init raw min_log_level =
     (case raw of
        None \<Rightarrow> min_log_level
      | Some r \<Rightarrow>
          (let level = atoi r
           in if level = 0 then LOG_TYPE_INF else if level \<ge> 1 then LOG_TYPE_ERR else min_log_level))"

definition ESC :: char where "ESC = CHR 0x1B"

definition log_to_type :: "Log_Type \<Rightarrow> Log_Type \<Rightarrow> string \<Rightarrow> int \<Rightarrow> string \<Rightarrow> string \<Rightarrow> string" where
  "log_to_type min_log_level t file line_number msg out =
     (if t < min_log_level then out
      else out @ (if t = LOG_TYPE_ERR then ESC # ''[31mERR'' else if t = LOG_TYPE_INF then ESC # ''[36mINF'' else [])
               @ ESC # ''[37m<'' @ c_basename file @ '':'' @ show_int line_number @ ''>''
               @ ESC # ''[0m'' @ msg @ [NL])"

text \<open>Whatever the environment says, an error is printed, and at the end of its line.\<close>

lemma errors_are_logged:
  "\<exists>head. log_to_type (log_init raw l) LOG_TYPE_ERR file n msg out = out @ head @ msg @ [NL] \<and> head \<noteq> []"
  by (auto simp: log_to_type_def less_Log_Type_def log_code_def split: Log_Type.split)

text \<open>From the level it starts with, information is left out exactly if the variable holds a positive number.\<close>

lemma info_suppressed_iff:
  "log_to_type (log_init raw LOG_TYPE_INF) LOG_TYPE_INF file n msg out = out \<longleftrightarrow>
     (\<exists>r. raw = Some r \<and> atoi r \<ge> 1)"
  by (auto simp: log_to_type_def less_Log_Type_def log_code_def log_init_def Let_def split: option.split)

end
