(* ===== verification/Tests.thy ===== *)
theory Tests
  imports Arrays Templatereg Sockets
begin

section \<open>The tests of the repository: \<open>src/tests\<close>\<close>

text \<open>
  Every unit test of the repository as a definition over the modelled operations, and a proof that
  it passes: the model does what the authors check of their code. A test is a \<open>bool res\<close>: the
  conjunction of its \<open>ck_assert\<close>s, or a fault. Each test runs in a process of its own (the default
  of the library \<open>check\<close>), so each begins with the globals of a fresh program. What a test gets
  from the system (descriptors, answers of \<open>select\<close>, process ids, what \<open>waitpid\<close> returns, fresh
  memory) is a parameter.
\<close>

definition ck_assert :: "bool \<Rightarrow> bool res \<Rightarrow> bool res" where
  "ck_assert b rest = (if b then rest else Inr False)"

subsection \<open>\<open>test_array.c\<close>\<close>

text \<open>The element \<open>Tester\<close> has four bytes, and 20 is stored with its lowest byte first.\<close>

definition array_test :: "(nat \<Rightarrow> 8 word) \<Rightarrow> bool res" where
  "array_test junk =
     (case array_add junk (array_new 4) of
        (arr, t) \<Rightarrow>
          (let arr1 = store_at arr t [20, 0, 0, 0];
               t2 = array_get arr1 0
           in ck_assert (t2 = Some t)
                (ck_assert (load_at arr1 t = [20, 0, 0, 0])
                  (let arr2 = array_del junk arr1 0
                   in ck_assert (array_len_get arr2 = 0) (Inr True)))))"

subsection \<open>\<open>test_manager.c\<close>\<close>

text \<open>The registered function is \<open>_cb\<close>, whatever constructor stands for its address.\<close>

record fd_test = manager +
  fd_ready_to_read :: int

definition break_cond :: "int \<Rightarrow> 'a fd_test_scheme \<Rightarrow> 'a fd_test_scheme" where
  "break_cond i s = (if i > 1 then manager_stop s else s)"

definition test_cb :: "fd_cb \<Rightarrow> ref \<Rightarrow> int \<Rightarrow> 'a fd_test_scheme \<Rightarrow> 'a fd_test_scheme res" where
  "test_cb cb data fd s =
     (let s1 = manager_unregister_fd fd s;
          s2 = s1\<lparr>fd_ready_to_read := fd_ready_to_read s1 + 1\<rparr>
      in Inr (break_cond (fd_ready_to_read s2) s2))"

definition fresh_manager :: "'a fd_test_scheme \<Rightarrow> bool" where
  "fresh_manager s \<longleftrightarrow> \<not> stop s \<and> changes s = 0 \<and> \<not> readout s"

definition test_fd_select ::
  "nat \<Rightarrow> int \<Rightarrow> int \<Rightarrow> select_call list \<Rightarrow> 'a fd_test_scheme \<Rightarrow> bool res" where
  "test_fd_select n a b sels s =
     (let s1 = (manager_init s)\<lparr>fd_ready_to_read := 0\<rparr>;
          s2 = manager_register_fd a (Some Accept_ready) Null_ref s1;
          s3 = manager_register_fd b (Some Accept_ready) Null_ref s2
      in bindR (manager_run n test_cb sels s3)
           (\<lambda>r. case r of
                  Returned v t \<Rightarrow> ck_assert (v = 1) (ck_assert (fd_ready_to_read t = 2) (Inr True))
                | Running t \<Rightarrow> Inr False))"

subsection \<open>\<open>test_spawnregistery.c\<close>\<close>

text \<open>\<open>WIFSIGNALED(SIGABRT)\<close> does not look at the status but at the constant 6: it is true.\<close>

definition WIFSIGNALED :: "int \<Rightarrow> bool" where
  "WIFSIGNALED status \<longleftrightarrow> 0 < status mod 128 \<and> status mod 128 \<noteq> 127"

definition SIGABRT :: int where "SIGABRT = 6"

record registry_test = registry +
  called :: bool
  failed :: bool

definition test_handler ::
  "wait_cb \<Rightarrow> ref \<Rightarrow> int \<Rightarrow> int \<Rightarrow> 'a registry_test_scheme \<Rightarrow> 'a registry_test_scheme res" where
  "test_handler h data status pid s =
     Inr (s\<lparr>failed := failed s \<or> called s \<or> \<not> WIFSIGNALED SIGABRT, called := True\<rparr>)"

definition spawnregistery_callback_test ::
  "nat \<Rightarrow> int \<Rightarrow> (int \<times> int) list \<Rightarrow> 'a registry_test_scheme \<Rightarrow> bool res" where
  "spawnregistery_callback_test n child_pid reaped s =
     (let s1 = (spawnregistery_init s)\<lparr>called := False, failed := False\<rparr>;
          s2 = spawnregistery_listen child_pid (Some Greeter_done) Null_ref s1
      in bindR (spawnregistery_eval n test_handler reaped s2)
           (\<lambda>t. ck_assert (\<not> failed t) (ck_assert (called t) (Inr True))))"

subsection \<open>\<open>test_templatereg.c\<close>\<close>

text \<open>\<open>Tty_Fire_Up\<close> stands for \<open>_fire_up_daed\<close>, which sets \<open>test\<close>, \<open>X11_Fire_Up\<close> for the empty \<open>_fire_up2\<close>.\<close>

record template_test = templates +
  test_var :: int

definition test_fire :: "fire_up \<Rightarrow> string option \<Rightarrow> 'a template_test_scheme \<Rightarrow> 'a template_test_scheme res" where
  "test_fire f data s = Inr (if f = Tty_Fire_Up then s\<lparr>test_var := 1\<rparr> else s)"

definition test_templatereg_run :: "'a template_test_scheme \<Rightarrow> bool res" where
  "test_templatereg_run s =
     bindR (template_register (Some ''test'') (Some ''icon'') (Some ''t'') (Some Tty_Fire_Up) None s)
       (\<lambda>(id, s1). ck_assert (id \<noteq> None)
         (bindR (template_run test_fire (the id) (s1\<lparr>test_var := 0\<rparr>))
           (\<lambda>(_, s2). ck_assert (test_var s2 = 1) (Inr True))))"

definition test_templatereg_details :: "'a template_test_scheme \<Rightarrow> bool res" where
  "test_templatereg_details s =
     bindR (template_register (Some ''1'') (Some ''2'') (Some ''test'') None None s)
       (\<lambda>(_, s1). bindR (template_register (Some ''no'') (Some ''3'') (Some ''test'') None None s1)
         (\<lambda>(_, s2). bindR (template_register (Some ''test'') (Some ''icon'') (Some ''wl'') (Some Tty_Fire_Up) None s2)
           (\<lambda>(id, s3). ck_assert (id \<noteq> None)
             (bindR (template_details_get (the id) s3)
               (\<lambda>ret. ck_assert (ret \<noteq> None)
                 (case the ret of (name, icon, type) \<Rightarrow>
                    ck_assert (name = ''test'') (ck_assert (icon = Some ''icon'')
                      (ck_assert (type = ''wl'') (Inr True)))))))))"

definition test_templatereg_unreg :: "'a template_test_scheme \<Rightarrow> bool res" where
  "test_templatereg_unreg s =
     bindR (template_register (Some ''1'') (Some ''2'') (Some ''t'') (Some X11_Fire_Up) None s)
       (\<lambda>(id1, s1). bindR (template_register (Some ''no'') (Some ''3'') (Some ''t'') (Some X11_Fire_Up) None s1)
         (\<lambda>(id2, s2). bindR (template_register (Some ''test'') (Some ''icon'') (Some ''t'') (Some Tty_Fire_Up) None s2)
           (\<lambda>(id3, s3). ck_assert (id1 \<noteq> None) (ck_assert (id2 \<noteq> None) (ck_assert (id3 \<noteq> None)
             (bindR (template_unregister (the id2) s3)
               (\<lambda>(ret, s4). ck_assert (ret \<noteq> 0)
                 (bindR (template_run test_fire (the id2) s4)
                   (\<lambda>(ret2, _). ck_assert (ret2 = 0) (Inr True))))))))))"

subsection \<open>\<open>test_utils.c\<close>\<close>

text \<open>\<open>rmdir\<close> takes a path with or without a slash at its end; what it answers is not looked at.\<close>

definition rmdir_step ::
  "(effect list \<Rightarrow> string \<Rightarrow> bool) \<Rightarrow> string \<Rightarrow> 'a world_scheme \<Rightarrow> 'a world_scheme" where
  "rmdir_step rm path s =
     (let d = strip_slashes path in if rm (trace s) d then emit_sys (Removed_dir d) s else s)"

definition create_recusrive_dir ::
  "'b socket_os_scheme \<Rightarrow> (effect list \<Rightarrow> string \<Rightarrow> bool) \<Rightarrow> 'a world_scheme \<Rightarrow> bool res" where
  "create_recusrive_dir so rm s =
     (let testdirprepre = ''/tmp/spawny-recursive-test/'';
          testdirpre = ''/tmp/spawny-recursive-test/test/'';
          testdir = ''/tmp/spawny-recursive-test/test/test'';
          s1 = rmdir_step rm testdir s;
          s2 = rmdir_step rm testdirpre s1;
          s3 = rmdir_step rm testdirprepre s2
      in bindR (mkpath so testdir s3) (\<lambda>(ret, _). ck_assert (ret = 0) (Inr True)))"

subsection \<open>\<open>test.c\<close>\<close>

text \<open>A test fails when an assertion does not hold or the process is ended by a fault.\<close>

definition ntests_failed :: "bool res list \<Rightarrow> nat" where
  "ntests_failed rs = length (filter (\<lambda>r. r \<noteq> Inr True) rs)"

definition test_main :: "bool res list \<Rightarrow> int" where
  "test_main rs = (if ntests_failed rs = 0 then 0 else 1)"

subsection \<open>They pass\<close>

lemma array_test_passes: "array_test junk = Inr True"
  by (simp add: array_test_def ck_assert_def array_add_def array_new_def realloc_def store_at_def load_at_def
      array_get_def ACCESS_def array_del_def memmove_def array_len_get_def Let_def upt_rec)

text \<open>A turn of the loop in which \<open>select\<close> reports something of what is watched, and nothing else.\<close>

definition reports_some :: "select_call \<Rightarrow> bool" where
  "reports_some sel \<longleftrightarrow> (\<forall>n watched_fds. watched_fds \<noteq> [] \<longrightarrow>
     (\<exists>rd. sel n watched_fds = Select_ready rd [] \<and> rd \<noteq> [] \<and> set rd \<subseteq> set watched_fds))"

lemma reported_pair:
  assumes "rd \<noteq> []" and "set rd \<subseteq> {a, b}"
  shows "(a \<in> set rd \<and> b \<notin> set rd) \<or> (a \<notin> set rd \<and> b \<in> set rd) \<or> (a \<in> set rd \<and> b \<in> set rd)"
  using assms by (cases rd) auto

text \<open>
  What POSIX says of \<open>rmdir\<close>, for a caller who may do everything: it removes a directory that is there and
  in which there is no other. (Nothing but directories is kept in the tree.)
\<close>

definition childless :: "string list \<Rightarrow> string set \<Rightarrow> bool" where
  "childless cs D \<longleftrightarrow> (\<forall>c. component c \<longrightarrow> abs_path (cs @ [c]) \<notin> D)"

definition rmdir_ok :: "(effect list \<Rightarrow> string \<Rightarrow> bool) \<Rightarrow> string set \<Rightarrow> bool" where
  "rmdir_ok rm fs \<longleftrightarrow> (\<forall>tr cs. cs \<noteq> [] \<and> (\<forall>c \<in> set cs. component c) \<longrightarrow>
     (rm tr (abs_path cs) \<longleftrightarrow> abs_path cs \<in> dirs fs tr \<and> childless cs (dirs fs tr)))"

lemma tree_remove:
  assumes "tree D" and "childless cs D" and "cs \<noteq> []" "\<forall>c \<in> set cs. component c"
  shows "tree (D - {abs_path cs})"
proof -
  have root: "abs_path cs \<noteq> ''/''" using abs_path_not_root [OF assms(3,4)] .
  have "abs_path ds \<noteq> abs_path cs" if "abs_path (ds @ [d]) \<in> D" "component d" for ds d
  proof
    assume eq: "abs_path ds = abs_path cs"
    then have "ds \<noteq> []" using root by (auto simp: abs_path_def)
    then have "abs_path (cs @ [d]) = abs_path (ds @ [d])" using eq assms(3) by (simp add: abs_path_snoc)
    with that have "abs_path (cs @ [d]) \<in> D" by simp
    with that(2) assms(2) show False unfolding childless_def by blast
  qed
  then show ?thesis using assms(1) root unfolding tree_def by auto
qed

lemma rmdir_step_effect:
  assumes "rmdir_ok rm fs" and "tree (dirs fs (trace s))" and "cs \<noteq> []" "\<forall>c \<in> set cs. component c"
    and path: "strip_slashes path = abs_path cs"
  shows "tree (dirs fs (trace (rmdir_step rm path s))) \<and>
    dirs fs (trace (rmdir_step rm path s)) \<subseteq> dirs fs (trace s) \<and>
    (childless cs (dirs fs (trace s)) \<longrightarrow> abs_path cs \<notin> dirs fs (trace (rmdir_step rm path s)))"
proof -
  have rm: "rm (trace s) (abs_path cs) \<longleftrightarrow> abs_path cs \<in> dirs fs (trace s) \<and> childless cs (dirs fs (trace s))"
    using assms(1,3,4) unfolding rmdir_ok_def by blast
  have gone: "dirs fs (trace s @ [Sys (Removed_dir d)]) = dirs fs (trace s) - {d}" for d
    by (simp add: dirs_def dir_effect_def)
  show ?thesis
    using rm assms(2) tree_remove [OF assms(2) _ assms(3,4)] by (auto simp: rmdir_step_def path gone)
qed

definition test_path :: "string list" where
  "test_path = [''tmp'', ''spawny-recursive-test'', ''test'', ''test'']"

lemma create_recusrive_dir_passes:
  assumes "files_ok so fs" and "rmdir_ok rm fs" and "tree (dirs fs (trace s))" and "childless test_path (dirs fs (trace s))"
  shows "create_recusrive_dir so rm s = Inr True"
proof -
  let ?s1 = "rmdir_step rm ''/tmp/spawny-recursive-test/test/test'' s"
  let ?s2 = "rmdir_step rm ''/tmp/spawny-recursive-test/test/'' ?s1"
  let ?s3 = "rmdir_step rm ''/tmp/spawny-recursive-test/'' ?s2"
  have cs: "test_path \<noteq> []" "\<forall>c \<in> set test_path. component c" by (simp_all add: test_path_def component_def)
  have p: "abs_path test_path = ''/tmp/spawny-recursive-test/test/test''" by (simp add: test_path_def abs_path_def)
  have 1: "tree (dirs fs (trace ?s1))" "abs_path test_path \<notin> dirs fs (trace ?s1)"
    using rmdir_step_effect [OF assms(2,3) cs, of "''/tmp/spawny-recursive-test/test/test''"] assms(4) p
    by (simp_all add: strip_slashes_def)
  have 2: "tree (dirs fs (trace ?s2))" "dirs fs (trace ?s2) \<subseteq> dirs fs (trace ?s1)"
    using rmdir_step_effect [OF assms(2) 1(1), of "[''tmp'', ''spawny-recursive-test'', ''test'']"
        "''/tmp/spawny-recursive-test/test/''"]
    by (simp_all add: component_def abs_path_def strip_slashes_def)
  have 3: "tree (dirs fs (trace ?s3))" "dirs fs (trace ?s3) \<subseteq> dirs fs (trace ?s2)"
    using rmdir_step_effect [OF assms(2) 2(1), of "[''tmp'', ''spawny-recursive-test'']" "''/tmp/spawny-recursive-test/''"]
    by (simp_all add: component_def abs_path_def strip_slashes_def)
  have "abs_path test_path \<notin> dirs fs (trace ?s3)" using 1(2) 2(2) 3(2) by blast
  with mkpath_made [OF assms(1) 3(1) cs] p obtain u where
    "mkpath so ''/tmp/spawny-recursive-test/test/test'' ?s3 = Inr (0, u)" by auto
  then show ?thesis by (simp add: create_recusrive_dir_def Let_def ck_assert_def)
qed

lemma cleanup_test_vars:
  "called (spawnregistery_cleanup s) = called s" "failed (spawnregistery_cleanup s) = failed s"
  by (subst cleanup_shape, simp)+

lemma spawnregistery_callback_test_passes:
  assumes "0 < c" "0 < d" "c \<noteq> d" and "reaped = [(c, s1), (d, s2)] \<or> reaped = [(d, s2), (c, s1)]" and "0 < n"
  shows "spawnregistery_callback_test n c reaped s = Inr True"
proof -
  obtain m where "n = Suc m" using assms(5) by (cases n) auto
  have past: "index_loop m pending_len body (Suc 0) u = Inr u" if "pending_len u = 1" for body and u :: "'a registry_test_scheme"
    using that by (intro index_loop_rest) auto
  show ?thesis
    using assms(1-4) \<open>n = Suc m\<close>
    by (auto simp: spawnregistery_callback_test_def ck_assert_def spawnregistery_eval_def spawnregistery_init_def
        spawnregistery_listen_def tarray_add_def tarray_new_def eval_entry_def tarray_get_def test_handler_def
        spawnregistery_unlisten_def zero_waiting_def past cleanup_test_vars WIFSIGNALED_def SIGABRT_def Let_def)
qed

lemma test_templatereg_run_passes:
  assumes "tmpls s = Null_ptr" and "counter s = 0"
  shows "test_templatereg_run s = Inr True"
proof -
  have "tmpl_ok s" "sint (counter s) \<noteq> - (2 ^ 31)" using assms by (simp_all add: tmpl_ok_def)
  from register_success [OF this] assms show ?thesis
    by (simp add: test_templatereg_run_def ck_assert_def template_run_def find_temp_def test_fire_def
        template_init_def tarray_add_def tarray_new_def)
qed

lemma test_templatereg_details_passes:
  assumes "tmpls s = Null_ptr" and "counter s = 0"
  shows "test_templatereg_details s = Inr True"
proof -
  have none: "template_register nm icon ty None data s = Inr (None, s)" for nm icon ty data
    using assms by (simp add: template_register_def INT_LENGTH_def split: option.split)
  have "tmpl_ok s" "sint (counter s) \<noteq> - (2 ^ 31)" using assms by (simp_all add: tmpl_ok_def)
  from register_success [OF this] assms show ?thesis
    by (simp add: test_templatereg_details_def ck_assert_def none template_details_get_def find_temp_def
        tarray_add_def tarray_new_def)
qed

lemma test_templatereg_unreg_passes:
  assumes "tmpls s = Null_ptr" and "counter s = 0"
  shows "test_templatereg_unreg s = Inr True"
proof -
  let ?t = "\<lambda>c nm ic cb. \<lparr>t_id = template_id c, t_name = nm, t_icon = Some ic, t_type = ''t'', t_cb = cb, t_data = None\<rparr>"
  let ?s1 = "s\<lparr>tmpls := Live_ptr (tarray_add (?t 0 ''1'' ''2'' X11_Fire_Up) tarray_new), counter := 1\<rparr>"
  let ?s2 = "s\<lparr>tmpls := Live_ptr (tarray_add (?t 1 ''no'' ''3'' X11_Fire_Up)
    (tarray_add (?t 0 ''1'' ''2'' X11_Fire_Up) tarray_new)), counter := 2\<rparr>"
  have less: "(0 :: 32 word) < 1" "(0 :: 32 word) < 2" "(1 :: 32 word) < 2" by simp_all
  have ok: "tmpl_ok s" "tmpl_ok ?s1" "tmpl_ok ?s2"
    using assms less by (auto simp: tmpl_ok_def tarray_add_def tarray_new_def inj_template_id)
  have count: "sint (counter s) \<noteq> - (2 ^ 31)" "sint (counter ?s1) \<noteq> - (2 ^ 31)" "sint (counter ?s2) \<noteq> - (2 ^ 31)"
    using assms by simp_all
  show ?thesis
    using assms register_success [OF ok(1) count(1)] register_success [OF ok(2) count(2)] register_success [OF ok(3) count(3)]
    by (simp add: test_templatereg_unreg_def ck_assert_def template_unregister_def template_run_def find_temp_def
        tarray_add_def tarray_new_def tarray_del_def inj_template_id)
qed

lemma test_fd_select_passes:
  assumes "a \<noteq> b" and "fresh_manager s" and "reports_some sel1" and "reports_some sel2" and "2 \<le> n"
  shows "test_fd_select n a b [sel1, sel2] s = Inr True"
proof -
  obtain m where m: "n = Suc (Suc m)" using assms(5) by (cases n; cases "n - 1") auto
  have past: "index_loop k fds_len body (Suc i) u = Inr u" if "fds_len u \<le> Suc i" for body k i and u :: "'a fd_test_scheme"
    using that by (intro index_loop_rest) auto
  have w: "watched (s\<lparr>fds := x\<rparr>) = map reg_fd (filter (\<lambda>reg. \<not> no_cb reg) (cells x))" for x
    by (simp add: watched_def)
  let ?reg = "\<lambda>fd. \<lparr>reg_cb = Some Accept_ready, reg_fd = fd, reg_data = Null_ref\<rparr>"
  obtain rd1 where rd1: "sel1 (max b (max a 0) + 1) [a, b] = Select_ready rd1 []" "rd1 \<noteq> []" "set rd1 \<subseteq> {a, b}"
    using assms(3) unfolding reports_some_def by (metis list.simps(15) list.distinct(1) empty_set)
  have sel2: "\<exists>rd. sel2 k [c] = Select_ready rd [] \<and> c \<in> set rd" for k c
  proof -
    obtain rd where "sel2 k [c] = Select_ready rd []" "rd \<noteq> []" "set rd \<subseteq> {c}"
      using assms(4) unfolding reports_some_def by (metis list.simps(15) list.distinct(1) empty_set)
    then show ?thesis by (cases rd) auto
  qed
  note defs = test_fd_select_def manager_init_def manager_register_fd_def tarray_add_def tarray_new_def
    manager_iter_def max_fd_def watched_def no_cb_def numeral_2_eq_2 fd_set_check_def tarray_get_def read_available_def test_cb_def
    manager_unregister_fd_def unset_cb_def break_cond_def manager_stop_def Let_def ck_assert_def clear_objects_def tarray_del_def
  from reported_pair [OF rd1(2,3)] consider
    "a \<in> set rd1" "b \<in> set rd1" | "a \<in> set rd1" "b \<notin> set rd1" | "a \<notin> set rd1" "b \<in> set rd1" by blast
  then show ?thesis
  proof cases
    case 1
    then show ?thesis using assms(1,2) rd1 m by (simp add: defs fresh_manager_def past)
  next
    case 2
    obtain rd2 where rd2: "sel2 (max b 0 + 1) [b] = Select_ready rd2 []" "b \<in> set rd2" using sel2 by blast
    show ?thesis using 2 assms(1,2) rd1 m rd2 by (simp add: defs fresh_manager_def past)
  next
    case 3
    obtain rd2 where rd2: "sel2 (max a 0 + 1) [a] = Select_ready rd2 []" "a \<in> set rd2" using sel2 by blast
    show ?thesis using 3 assms(1,2) rd1 m rd2 by (simp add: defs fresh_manager_def past)
  qed
qed

subsection \<open>The suite\<close>

record test_env =
  te_junk :: "nat \<Rightarrow> 8 word"
  te_budget :: nat
  te_fds :: "int \<times> int"
  te_selects :: "select_call list"
  te_child :: int
  te_reaped :: "(int \<times> int) list"
  te_socket :: socket_os
  te_dirs :: "string set"
  te_rmdir :: "effect list \<Rightarrow> string \<Rightarrow> bool"

definition spawny_suites ::
  "test_env \<Rightarrow> fd_test \<Rightarrow> template_test \<Rightarrow> registry_test \<Rightarrow> world \<Rightarrow> bool res list" where
  "spawny_suites te sm st sr sw =
     [array_test (te_junk te),
      test_fd_select (te_budget te) (fst (te_fds te)) (snd (te_fds te)) (te_selects te) sm,
      test_templatereg_run st, test_templatereg_details st, test_templatereg_unreg st,
      spawnregistery_callback_test (te_budget te) (te_child te) (te_reaped te) sr,
      create_recusrive_dir (te_socket te) (te_rmdir te) sw]"

text \<open>
  What the tests rely on: two different pipes, of which \<open>select\<close> reports one or both while something
  is watched; two children that both have ended, in any order; a file system in which \<open>mkdir\<close>, \<open>access\<close>
  and \<open>rmdir\<close> do what POSIX says, with nothing left in the innermost directory of the test.
\<close>

definition test_env_ok :: "test_env \<Rightarrow> bool" where
  "test_env_ok te \<longleftrightarrow>
     fst (te_fds te) \<noteq> snd (te_fds te) \<and> 2 \<le> te_budget te \<and>
     (\<exists>sel1 sel2. te_selects te = [sel1, sel2] \<and> reports_some sel1 \<and> reports_some sel2) \<and>
     (\<exists>d s1 s2. 0 < te_child te \<and> 0 < d \<and> te_child te \<noteq> d \<and>
        (te_reaped te = [(te_child te, s1), (d, s2)] \<or> te_reaped te = [(d, s2), (te_child te, s1)])) \<and>
     files_ok (te_socket te) (te_dirs te) \<and> rmdir_ok (te_rmdir te) (te_dirs te) \<and>
     tree (te_dirs te) \<and> childless test_path (te_dirs te)"

text \<open>The tests of the repository pass on the model: whatever new memory holds, whichever of the two
  pipes \<open>select\<close> reports first or whether it reports both at once, and in whichever order the
  children are reaped, every assertion of the seven tests holds and \<open>main\<close> returns \<open>EXIT_SUCCESS\<close>.\<close>

theorem suite_passes:
  assumes "test_env_ok te" and "fresh_manager sm" and "tmpls st = Null_ptr" and "counter st = 0"
    and "trace sw = []"
  shows "spawny_suites te sm st sr sw = replicate 7 (Inr True) \<and> test_main (spawny_suites te sm st sr sw) = 0"
proof -
  obtain sel1 sel2 d s1 s2 where env: "te_selects te = [sel1, sel2]" "reports_some sel1" "reports_some sel2"
    "0 < te_child te" "0 < d" "te_child te \<noteq> d"
    "te_reaped te = [(te_child te, s1), (d, s2)] \<or> te_reaped te = [(d, s2), (te_child te, s1)]"
    "fst (te_fds te) \<noteq> snd (te_fds te)" "2 \<le> te_budget te" "0 < te_budget te"
    using assms(1) unfolding test_env_ok_def by fastforce
  have start: "dirs fs (trace sw) = fs" for fs using assms(5) by (simp add: dirs_def)
  have "create_recusrive_dir (te_socket te) (te_rmdir te) sw = Inr True"
    using assms(1) by (intro create_recusrive_dir_passes [where fs = "te_dirs te"]) (simp_all add: test_env_ok_def start)
  then have "spawny_suites te sm st sr sw = replicate 7 (Inr True)"
    using array_test_passes [of "te_junk te"]
      test_fd_select_passes [OF env(8) assms(2) env(2,3,9)] test_templatereg_run_passes [OF assms(3,4)]
      test_templatereg_details_passes [OF assms(3,4)] test_templatereg_unreg_passes [OF assms(3,4)]
      spawnregistery_callback_test_passes [OF env(4-7,10), where s = sr]
    by (simp add: spawny_suites_def env(1) numeral_eq_Suc)
  then show ?thesis by (simp add: test_main_def ntests_failed_def)
qed

definition example_env :: test_env where
  "example_env = \<lparr>te_junk = (\<lambda>i. of_nat i), te_budget = 3, te_fds = (3, 5),
     te_selects = [\<lambda>_ ws. Select_ready (take 1 ws) [], \<lambda>_ ws. Select_ready ws []],
     te_child = 100, te_reaped = [(101, 6), (100, 6)],
     te_socket = example_socket, te_dirs = {''/''},
     te_rmdir = (\<lambda>tr d. d \<in> dirs {''/''} tr \<and>
       (\<forall>e \<in> dirs {''/''} tr. take (Suc (length d)) e = d @ ''/'' \<longrightarrow> \<not> component (drop (Suc (length d)) e)))\<rparr>"

lemma example_rmdir: "rmdir_ok (te_rmdir example_env) {''/''}"
proof -
  have "(\<forall>e \<in> D. take (Suc (length d)) e = d @ ''/'' \<longrightarrow> \<not> component (drop (Suc (length d)) e)) \<longleftrightarrow> childless cs D"
    if "cs \<noteq> []" "d = abs_path cs" for cs d D
  proof -
    have "e = abs_path (cs @ [drop (Suc (length d)) e])" if "take (Suc (length d)) e = d @ ''/''" for e
    proof -
      have "e = (d @ ''/'') @ drop (Suc (length d)) e" using append_take_drop_id [of "Suc (length d)" e] unfolding that by (rule sym)
      then show ?thesis using \<open>cs \<noteq> []\<close> \<open>d = abs_path cs\<close> by (simp add: abs_path_snoc)
    qed
    moreover have "take (Suc (length d)) (abs_path (cs @ [c])) = d @ ''/'' \<and> drop (Suc (length d)) (abs_path (cs @ [c])) = c" for c
      using that by (simp add: abs_path_snoc)
    ultimately show ?thesis unfolding childless_def by metis
  qed
  then show ?thesis by (simp add: rmdir_ok_def example_env_def)
qed

lemma suite_passes_witness:
  "test_main (spawny_suites example_env
     (manager.extend (manager.truncate empty_templates) \<lparr>fd_ready_to_read = 7\<rparr>)
     (templates.extend (empty_templates\<lparr>counter := 0\<rparr>) \<lparr>test_var = 0\<rparr>)
     (registry.extend (registry.truncate empty_templates) \<lparr>called = True, failed = True\<rparr>) example_world) = 0"
proof -
  have "reports_some (\<lambda>_ ws. Select_ready (take 1 ws) [])" "reports_some (\<lambda>_ ws. Select_ready ws [])"
    by (auto simp: reports_some_def dest: in_set_takeD)
  moreover have "abs_path (test_path @ [c]) \<notin> {''/''}" for c by (simp add: test_path_def abs_path_def)
  ultimately have "test_env_ok example_env"
    using example_rmdir example_files example_tree by (auto simp: test_env_ok_def example_env_def childless_def)
  moreover have "fresh_manager (manager.extend (manager.truncate empty_templates) \<lparr>fd_ready_to_read = 7\<rparr>)"
    by (simp add: fresh_manager_def empty_templates_def manager.defs)
  moreover have "tmpls (templates.extend (empty_templates\<lparr>counter := 0\<rparr>) \<lparr>test_var = 0\<rparr>) = Null_ptr"
    "counter (templates.extend (empty_templates\<lparr>counter := 0\<rparr>) \<lparr>test_var = 0\<rparr>) = 0"
    by (simp_all add: empty_templates_def templates.defs)
  moreover have "trace example_world = []" by (simp add: example_world_def)
  ultimately show ?thesis using suite_passes by blast
qed

end
