(* ===== verification/Spec2Isabelle.thy ===== *)
theory Spec2Isabelle
  imports Login Misuse Shutdown Answer_Memory Child_Budget Session_Back_Ends Fallback_Greeter Selftest Log Tests
begin

text \<open>
  \<^bold>\<open>spawny\<close> is a session daemon. Greeters connect to its socket, are shown the users, templates and
  sessions of their seat, and ask it to log somebody in or to bring a session to the front. The daemon
  starts a child for every login, which talks to PAM, becomes the user and turns into the session; it
  starts the greeters in the same way and watches all processes it has started. This development models
  the programs under \<open>src/src\<close>: the daemon, the database of users, the library of the greeters, the
  greeter for a terminal and the small tools.

  \<^bold>\<open>How the model reads.\<close> A C function is a function from the state to a result. The state is one record
  that grows from theory to theory by extension, in the order in which the components use each other:
  \<open>world\<close> (\<open>Types\<close>: configuration, trace of effects), then the arrays of the event loop (\<open>Manager\<close>), the
  waiting list (\<open>Spawnregistery\<close>), the templates (\<open>Templatereg\<close>), the tries (\<open>Spawnservice\<close>), the greeters
  (\<open>Greeter\<close>) and the clients (\<open>Server\<close>). A result is \<open>Inr\<close> of a value, or \<open>Inl\<close> of a \<open>fault\<close> where the
  C program leaves the defined language (NULL, freed or uninitialised memory, a bound, an overflow). Memory
  that is freed and used again later is modelled as such: tries and clients are maps from addresses, global
  pointers are NULL, live or dangling, pointers into the array of greeters remember which block they point
  into. Lengths of arrays and the counter of templates are 32-bit words; other C integers, whose
  overflow the code cannot reach or is stated (\<open>Int_Overflow\<close>), are \<open>int\<close>. What the kernel, PAM,
  \<open>sd-login\<close> and the ini parser answer are parameters (\<open>os\<close>, \<open>user_os\<close>, \<open>socket_os\<close>, \<open>client_os\<close>, \<open>child_os\<close>,
  \<open>desk_os\<close>); calls whose answers change are numbered or are given the trace.

  \<^bold>\<open>Parts, and where they are.\<close>
  \<^item> \<open>Prelude\<close>: results, searches, loops over an array that may change, decimal rendering, paths.
  \<^item> \<open>Arrays\<close>: \<open>sp-daemon/array.c\<close> on bytes and \<open>array.h\<close> on elements; locale \<open>array_ops\<close> is the contract of
    both, from which the other theories take arrays as lists.
  \<^item> \<open>Types\<close>: the messages of the three \<open>.proto\<close> files, the function pointers the program stores, the world.
  \<^item> \<open>Manager\<close>: the event loop \<open>manager.c\<close>, with the registration and deferred removal of descriptors; locale
    \<open>fd_callbacks\<close> is what it asks of the callbacks.
  \<^item> \<open>Spawnregistery\<close>: who waits for which process, \<open>spawnregistery.c\<close>; locale \<open>wait_handlers\<close>.
  \<^item> \<open>Templatereg\<close>, \<open>Desktop\<close>: the registry \<open>templatereg.c\<close>, and how it is filled: \<open>desktop_common.c\<close>,
    \<open>x11_temp.c\<close>, \<open>wl_temp.c\<close>, \<open>tty_temp.c\<close>.
  \<^item> \<open>Os\<close>, \<open>Sessionmgt\<close>: the queries of \<open>sessionmgt_logind.c\<close>.
  \<^item> \<open>Spawnservice\<close>: the daemon's side of \<open>spawnservice.c\<close>; \<open>Session_Child\<close>: the child's side, from the fork to
    the program it becomes, with the jobs of \<open>server.c\<close>, \<open>greeter.c\<close> and the template sources.
  \<^item> \<open>Greeter\<close>: \<open>greeter.c\<close>, one greeter for a seat, restarted and given up.
  \<^item> \<open>UserDb\<close>: \<open>sp-user-db/user_db.c\<close>, the files of the users and their copy in memory. \<open>Ini\<close>: what the
    documentation of the parser inih says of the format (\<open>ini_documented\<close>), without any word about who writes it:
    that the text of \<open>_put_user\<close> is read back as the record is proved in \<open>UserDb\<close> (\<open>text_reads_back\<close>) from the
    lines the code prints, for values that the format can hold (\<open>plain_user\<close>).
  \<^item> \<open>Sockets\<close>: \<open>sp-protocol/socket_creation.c\<close> and \<open>util/mkpath.c\<close>, the latter on a tree of directories
    (\<open>files_ok\<close>); \<open>Server\<close>: \<open>server.c\<close> with
    \<open>server_systemd.c\<close>, the requests of the clients.
  \<^item> \<open>Daemon\<close>, \<open>Daemon_Loop\<close>: the callbacks put together, the invariant of the whole state, the step relation
    of the running daemon; \<open>Daemon_Main\<close>: \<open>main.c\<close>.
  \<^item> \<open>Login\<close>: a login with both of its sides, the child's reports fed into the daemon's callbacks; \<open>Offers\<close>: what
    a \<open>HELLO\<close> is answered with in a reachable state; \<open>Misuse\<close>: two requests with which a client does harm;
    \<open>Answer_Memory\<close>: the memory of the answer and the \<open>_free_\<close> helpers of \<open>server.c\<close>; \<open>Shutdown\<close>: the last lines of
    \<open>main\<close>, with a \<open>SIGCHLD\<close> among them; \<open>Child_Budget\<close>: how many children a daemon can start in its life.
  \<^item> \<open>Session_Back_Ends\<close>: \<open>sessionmgt.h\<close> as the locale \<open>session_back_end\<close>, which \<open>sessionmgt_logind.c\<close> interprets and
    \<open>sessionmgt_dummy.c\<close> (with \<open>server_dummy.c\<close>, neither of them listed by the build) does not satisfy.
  \<^item> \<open>Tests\<close>: the unit tests of \<open>src/tests\<close> as definitions over the model.
  \<^item> \<open>Client\<close>: \<open>libsp_client/client.c\<close>; locale \<open>wire_array\<close> is the contract of its pairs of free and convert
    functions. \<open>Console\<close>, \<open>Fallback_Greeter\<close>: \<open>sp-fallback-greeter/main.c\<close>. \<open>Tools\<close>: \<open>sp-user-db-util\<close>,
    \<open>sp-greeter-set\<close>, \<open>sp-greeter-start\<close>. \<open>Selftest\<close>, \<open>Log\<close>: the programs and files of these names.

  \<^bold>\<open>What is shown.\<close>
  \<^item> Soundness: \<open>daemon_inv\<close> (every registration, listener and back reference leads to an allocated object, no
    descriptor twice) is kept by every callback (the calculus \<open>keeps\<close> of \<open>Daemon\<close>), holds after the start and
    in every reachable state; every callback ends. The code does violate memory safety in some branches; these
    are faults in the model, and the theorems about them say when they happen.
  \<^item> Behaviour: each request of a client on each of its branches, the two ends of a login, the data that is
    sent, the terminals, templates and greeters, what a child does to its credentials and environment and
    what it reports from the fork to its end (the calculi \<open>follows\<close>, \<open>reports\<close> and \<open>frames\<close> of \<open>Session_Child\<close>).
  \<^item> Data: arrays refine lists, loops with offsets are filters, directories become registries, files of
    users are read back as they were written, server data becomes the arrays of a client.
  \<^item> Across the parts: what is read at the start is what a greeter is offered in every reachable state, and
    what is chosen there is what the daemon starts (below); what the client of a login is told is what
    happened in the child; a seat never has two greeters; a daemon starts at most 54 children in its life.
  \<^item> Where the code is wrong: an invalid session string reaches a shell, two starts of a greeter for one seat or a
    signal in the last lines of \<open>main\<close> lead to freed memory, a message without its optional part makes a greeter dereference NULL,
    and an answer leaks an exact set of blocks.
  \<^item> The authors' own tests pass on the model, for everything the system may answer in them.

  \<^bold>\<open>Bounds.\<close> \<open>index_loop\<close> walks an array that its body may grow; its budget bounds the number of entries that are
  visited, \<open>index_loop_fuel\<close> says that a bound on the length is enough, and the theorems about a turn of the
  loop hold for every budget. \<open>greeter_activate\<close> calls itself when a start fails at
  once; \<open>greeter_fuel = 7\<close> is \<open>FALLBACK_RUN_GENERATION\<close> and two more, enough by \<open>activation_ends\<close>. Loops that may
  really go on for ever (the wait for a session, the questions of the greeter) are \<open>partial_function\<close>s;
  the daemon's own loop takes the list of the answers of \<open>select\<close>.

  \<^bold>\<open>Not modelled.\<close> Signals that arrive in the middle of a callback: the handler of \<open>SIGCHLD\<close> then works on half
  changed data, for which the code has no protection; between two callbacks, within a turn of the loop and in the
  last lines of \<open>main\<close> it is a step of the model. Memory, except where it is used after it was freed and
  except for the answer to \<open>HELLO\<close>. The text that is printed for people (\<open>_list_users\<close>, the help texts, the
  contents of the log). The generated packing and unpacking of messages, of which the model uses that
  unpacking gives what was packed and fails without a required field.
\<close>

section \<open>From the keyboard to the session\<close>

text \<open>
  The daemon answers a greeter's \<open>HELLO\<close> with the data of its state; the greeter shows it, asks, and
  sends a request; the daemon takes the request in whatever later state it has come to.
\<close>

lemma typed_choice_is_started:
  assumes sent: "load_data os seat s = Inr sent" "tmpl_ok s" "carries sent received"
    and "co_read co (nreads a) (cc_server_sock cx) = Message m" and "sm_type m = DATA_UPDATE"
    and "sm_data m = Some received" and "context_ok cx" and "\<not> fg_prompted a"
    and "fg_in a = waiting_for ([] # name # pass # show_nat (Suc i) # rest)"
    and "name \<noteq> []" "blank_free name" "length name < LOGIN_NAME_MAX" "Some name \<in> usr_name ` set (data_users received)"
    and i: "i < length (template_view s)" "Suc i < 10 ^ 9"
    and "\<And>tr msg. co_write co tr (cc_server_sock cx) msg"
    and idle: "clients s' c = Some cl" "cl_try cl = None" and later: "stock s' = stock s"
  shows "\<exists>a' req t. t = template_view s ! i \<and>
    sp_client_read co junk (Some cx) (Some (greeter_interface co (Some cx))) a =
      Inr (SP_CLIENT_READ_RESULT_SUCCESS, Some (converted received cx), a') \<and>
    trace a' = trace a @ [Asked (cc_server_sock cx) req] \<and> gm_type req = LOGIN_TRY \<and>
    (\<forall>n s1. spawnservice_spawn os (try_done os) Session_done (Client_ref c) (Session_job (t_id t))
         (Some Reexecute_greeter) SP_PAM_SERVICE name (Some pass)
         (Some \<lparr>session_type = Val (Some (t_type t)), session_desktop = Val (Some (t_name t)), session_seat = Val seat\<rparr>) s'
         = Inr (Some n, s1) \<longrightarrow> clients s1 c \<noteq> None \<longrightarrow>
       handle_login os c (gm_login req) seat fd s' = Inr (upd_client c (\<lambda>x. x\<lparr>cl_try := Some n\<rparr>) s1)) \<and>
    session_job os ch (t_id t) s' = fire_up os ch (t_cb t) (t_data t) s'"
proof -
  let ?t = "template_view s ! i"
  let ?req = "\<lparr>gm_type = LOGIN_TRY, gm_login = Some \<lparr>login_user = name, login_password = pass,
    login_template_id = t_id ?t\<rparr>, gm_session = None\<rparr>"
  obtain arr where len: "length (data_templates received) = length (template_view s)"
    and id: "tmpl_id (data_templates received ! i) = Some (t_id ?t)"
    and arr: "tmpls s = Live_ptr arr" and found: "find (\<lambda>y. t_id y = t_id ?t) (template_view s) = Some ?t"
    using template_arrives [OF sent i(1)] by blast
  have i': "i < length (data_templates received)" using i(1) len by simp
  obtain a' where a': "sp_client_read co junk (Some cx) (Some (greeter_interface co (Some cx))) a =
      Inr (SP_CLIENT_READ_RESULT_SUCCESS, Some (converted received cx), a')"
    "trace a' = trace a @ [Asked (cc_server_sock cx) ?req]"
    using typed_login_is_requested [OF assms(4-6) carries_complete [OF sent(3)] assms(7-13) i' i(2) assms(16), of junk] id
    by auto
  have arr': "tmpls s' = Live_ptr arr" and view: "template_view s' = template_view s"
    using later arr by (simp_all add: stock_def template_view_def)
  have details: "template_details_get (t_id ?t) s' = Inr (Some (t_name ?t, t_icon ?t, t_type ?t))"
    by (simp add: details_view [OF arr'] view found)
  have "session_job os ch (t_id ?t) s' = fire_up os ch (t_cb ?t) (t_data ?t) s'"
    using found unfolding find_index_find [symmetric]
    by (simp add: session_job_def find_temp_view [OF arr'] view del: find_index_None split: option.splits)
  with a' details idle show ?thesis
    by (intro exI [of _ a'] exI [of _ ?req] exI [of _ ?t])
       (auto simp: handle_login_def get_client_def login_settings_def)
qed

text \<open>C3: What somebody picks at a greeter is what was installed when the daemon started, however long ago:
  a greeter on a terminal has got the daemon's answer in some reachable state, where a known user's
  name, a password and the number \<open>i + 1\<close> are typed; it sends one login request. In whatever state
  the daemon has then come to, given this request it starts a child for that user with that password,
  type and desktop of a template whose content is the \<open>i\<close>-th entry read at the start, and the job of
  this child starts exactly that entry.\<close>

theorem offered_entry_is_started:
  assumes start: "main_setup os mo argv s0 = Inr (True, s1)" "at_start s0"
      "length (all_contents (mo_desk mo)) < 2 ^ 31" "uo_getuid (mo_users mo) = mo_getuid mo"
      "kernel_ok os" "reachable os s1 s"
    and sent: "load_data os seat s = Inr sent" "carries sent received"
    and read: "co_read co (nreads a) (cc_server_sock cx) = Message m" "sm_type m = DATA_UPDATE"
      "sm_data m = Some received" "context_ok cx" "\<not> fg_prompted a"
    and typed: "fg_in a = waiting_for ([] # name # pass # show_nat (Suc i) # rest)"
      "name \<noteq> []" "blank_free name" "length name < LOGIN_NAME_MAX" "Some name \<in> usr_name ` set (data_users received)"
      "i < length (all_contents (mo_desk mo))" "Suc i < 10 ^ 9"
    and sends: "\<And>tr msg. co_write co tr (cc_server_sock cx) msg"
    and later: "reachable os s s'" "clients s' c = Some cl" "cl_try cl = None"
  shows "\<exists>a' req t. t \<in> set (template_view s') \<and> content t = all_contents (mo_desk mo) ! i \<and>
    sp_client_read co junk (Some cx) (Some (greeter_interface co (Some cx))) a =
      Inr (SP_CLIENT_READ_RESULT_SUCCESS, Some (converted received cx), a') \<and>
    trace a' = trace a @ [Asked (cc_server_sock cx) req] \<and> gm_type req = LOGIN_TRY \<and>
    (\<forall>n u. spawnservice_spawn os (try_done os) Session_done (Client_ref c) (Session_job (t_id t))
         (Some Reexecute_greeter) SP_PAM_SERVICE name (Some pass)
         (Some \<lparr>session_type = Val (Some (t_type t)), session_desktop = Val (Some (t_name t)), session_seat = Val seat\<rparr>) s'
         = Inr (Some n, u) \<longrightarrow> clients u c \<noteq> None \<longrightarrow>
       handle_login os c (gm_login req) seat fd s' = Inr (upd_client c (\<lambda>x. x\<lparr>cl_try := Some n\<rparr>) u)) \<and>
    session_job os ch (t_id t) s' = fire_up os ch (t_cb t) (t_data t) s'"
proof -
  have s: "well_stocked mo s" "resting s" using reachable_stocked [OF start] by simp_all
  then have st: "stock s' = stock s" using reachable_keeps [OF start(5) later(1)] by simp
  have contents: "map content (template_view s) = all_contents (mo_desk mo)" and ok: "tmpl_ok s"
    using s(1) by (simp_all add: well_stocked_def)
  then have i: "i < length (template_view s)" and c: "content (template_view s ! i) = all_contents (mo_desk mo) ! i"
    using typed(6) by (auto simp flip: contents)
  have "template_view s ! i \<in> set (template_view s')"
    using nth_mem [OF i] st by (simp add: stock_def template_view_def del: nth_mem)
  then show ?thesis
    using typed_choice_is_started [OF sent(1) ok sent(2) read typed(1-5) i typed(7) sends later(2,3) st, of junk fd ch] c
    by metis
qed

definition sway_settings :: xdg_settings where
  "sway_settings = \<lparr>session_type = Val (Some ''wayland''), session_desktop = Val (Some ''Sway''),
     session_seat = Val (Some ''seat0'')\<rparr>"

definition bob_offered :: server_data where
  "bob_offered =
     \<lparr>data_templates = [\<lparr>tmpl_id = Some ''t0'', tmpl_name = Some ''tty'', tmpl_icon = Some ''utilities-terminal''\<rparr>,
        \<lparr>tmpl_id = Some ''t1'', tmpl_name = Some ''Sway'', tmpl_icon = Some ''''\<rparr>],
      data_sessions = [\<lparr>ses_id = Some ''c2'', ses_user = Some ''bob'', ses_name = Some ''wayland - sway'', ses_icon = Some ''''\<rparr>],
      data_users = [\<lparr>usr_uid = 1000, usr_name = Some ''bob'', usr_icon = Some '''', usr_prefered_session = Some ''''\<rparr>]\<rparr>"

definition bob_typing :: greeter_app where
  "bob_typing = example_app\<lparr>fg_in := waiting_for ['''', ''bob'', ''secret'', ''2'']\<rparr>"

lemma answer_then: "(case m of Inr d \<Rightarrow> P d | _ \<Rightarrow> False) \<Longrightarrow> \<exists>d. m = Inr d \<and> P d"
  by (auto split: sum.splits)

lemma spawned_then: "(case m of Inr (Some n, u) \<Rightarrow> P u | _ \<Rightarrow> False) \<Longrightarrow> \<exists>n u. m = Inr (Some n, u) \<and> P u"
  by (auto split: sum.splits prod.splits option.splits)

lemma bob_served:
  "case main_setup hello_os root_main [''sp-daemon'', ''-d''] (globals []) of
     Inr (True, s1) \<Rightarrow> \<not> stop s1 \<and>
       (case manager_iter 5 (dispatch_with hello_os 1 (\<lambda>_. [])) all_ready s1 of
          Inr (Running s) \<Rightarrow> clients s 0 = Some \<lparr>cl_fd = 4, cl_pid = 50, cl_try = None\<rparr> \<and>
            (case load_data hello_os (Some ''seat0'') s of Inr d \<Rightarrow> carries d bob_offered | _ \<Rightarrow> False) \<and>
            map t_id (template_view s) = [''t0'', ''t1''] \<and>
            (case spawnservice_spawn hello_os (try_done hello_os) Session_done (Client_ref 0) (Session_job ''t1'')
                (Some Reexecute_greeter) SP_PAM_SERVICE ''bob'' (Some ''secret'') (Some sway_settings) s of
               Inr (Some n, u) \<Rightarrow> clients u 0 \<noteq> None | _ \<Rightarrow> False)
        | _ \<Rightarrow> False)
   | _ \<Rightarrow> False"
  by code_simp

lemma offered_entry_is_started_witness:
  "\<exists>(s1 :: daemon) s a' req n u. main_setup hello_os root_main [''sp-daemon'', ''-d''] (globals []) = Inr (True, s1) \<and>
     reachable hello_os s1 s \<and>
     sp_client_read (example_client_os (Message \<lparr>sm_type = DATA_UPDATE, sm_feedback = None, sm_data = Some bob_offered\<rparr>))
      dirty_memory (Some new_context)
      (Some (greeter_interface (example_client_os (Message \<lparr>sm_type = DATA_UPDATE, sm_feedback = None, sm_data = Some bob_offered\<rparr>))
        (Some new_context))) bob_typing =
      Inr (SP_CLIENT_READ_RESULT_SUCCESS, Some (converted bob_offered new_context), a') \<and>
    trace a' = [Asked 0 req] \<and>
    handle_login hello_os 0 (gm_login req) (Some ''seat0'') 4 s = Inr (upd_client 0 (\<lambda>x. x\<lparr>cl_try := Some n\<rparr>) u)"
proof -
  let ?m = "\<lparr>sm_type = DATA_UPDATE, sm_feedback = None, sm_data = Some bob_offered\<rparr>"
  let ?co = "example_client_os (Message ?m)"
  obtain s1 s where s1: "main_setup hello_os root_main [''sp-daemon'', ''-d''] (globals []) = Inr (True, s1)"
    and turn: "\<not> stop s1" "manager_iter 5 (dispatch_with hello_os 1 (\<lambda>_. [])) all_ready s1 = Inr (Running s)"
    and idle: "clients s 0 = Some \<lparr>cl_fd = 4, cl_pid = 50, cl_try = None\<rparr>"
    and served: "case load_data hello_os (Some ''seat0'') s of Inr d \<Rightarrow> carries d bob_offered | _ \<Rightarrow> False"
    and ids: "map t_id (template_view s) = [''t0'', ''t1'']"
    and spawned: "case spawnservice_spawn hello_os (try_done hello_os) Session_done (Client_ref 0) (Session_job ''t1'')
       (Some Reexecute_greeter) SP_PAM_SERVICE ''bob'' (Some ''secret'') (Some sway_settings) s of
      Inr (Some n, u) \<Rightarrow> clients u 0 \<noteq> None | _ \<Rightarrow> False"
    using setup_then [OF bob_served] by (auto dest!: turn_then)
  obtain d where d: "load_data hello_os (Some ''seat0'') s = Inr d" "carries d bob_offered"
    using answer_then [OF served] by blast
  obtain n u where spawn: "spawnservice_spawn hello_os (try_done hello_os) Session_done (Client_ref 0) (Session_job ''t1'')
       (Some Reexecute_greeter) SP_PAM_SERVICE ''bob'' (Some ''secret'') (Some sway_settings) s = Inr (Some n, u)" "clients u 0 \<noteq> None"
    using spawned_then [OF spawned] by blast
  have r: "reachable hello_os s1 s" using turn reachable.step [OF reachable.start] daemon_step.turn by blast
  have desk: "mo_desk root_main = example_desk" "uo_getuid (mo_users root_main) = mo_getuid root_main"
    by (simp_all add: root_main_def example_main_def bob_os_def)
  have all: "all_contents (mo_desk root_main) =
      [(''tty'', Some ''utilities-terminal'', ''tty'', Tty_Fire_Up, None), (''Sway'', None, ''wayland'', Wl_Fire_Up, Some ''sway'')]"
    unfolding desk by code_simp
  then have len: "length (all_contents (mo_desk root_main)) < 2 ^ 31" by simp
  have k: "kernel_ok hello_os" by (simp add: hello_os_def example_kernel_ok)
  have sock: "cc_server_sock new_context = 0" by (simp add: new_context_def)
  have os: "co_read ?co (nreads bob_typing) (cc_server_sock new_context) = Message ?m"
    "\<And>tr msg. co_write ?co tr (cc_server_sock new_context) msg"
    by (simp_all add: example_client_os_def sock)
  have two: "show_nat (Suc 1) = ''2''" by code_simp
  have typed: "fg_in bob_typing = waiting_for ([] # ''bob'' # ''secret'' # show_nat (Suc 1) # [])"
    unfolding two by (simp add: bob_typing_def)
  have bob: "''bob'' \<noteq> ''''" "blank_free ''bob''" "length ''bob'' < LOGIN_NAME_MAX"
    "Some ''bob'' \<in> usr_name ` set (data_users bob_offered)" "1 < length (all_contents (mo_desk root_main))" "Suc 1 < 10 ^ 9"
    by (simp_all add: blank_free_def is_space_def LOGIN_NAME_MAX_def bob_offered_def all)
  have start: "trace bob_typing = []" "\<not> fg_prompted bob_typing" by (simp_all add: bob_typing_def)
  obtain a' req t where t: "t \<in> set (template_view s)" "content t = all_contents (mo_desk root_main) ! 1"
    and a': "sp_client_read ?co dirty_memory (Some new_context) (Some (greeter_interface ?co (Some new_context))) bob_typing =
        Inr (SP_CLIENT_READ_RESULT_SUCCESS, Some (converted bob_offered new_context), a')" "trace a' = [Asked 0 req]"
    and login: "\<And>n u. spawnservice_spawn hello_os (try_done hello_os) Session_done (Client_ref 0) (Session_job (t_id t))
         (Some Reexecute_greeter) SP_PAM_SERVICE ''bob'' (Some ''secret'')
         (Some \<lparr>session_type = Val (Some (t_type t)), session_desktop = Val (Some (t_name t)), session_seat = Val (Some ''seat0'')\<rparr>) s
         = Inr (Some n, u) \<Longrightarrow> clients u 0 \<noteq> None \<Longrightarrow>
       handle_login hello_os 0 (gm_login req) (Some ''seat0'') 4 s = Inr (upd_client 0 (\<lambda>x. x\<lparr>cl_try := Some n\<rparr>) u)"
    using offered_entry_is_started [OF s1 at_start_globals len desk(2) k r d os(1) _ _ context_ok_new start(2) typed bob os(2)
        reachable.start idle, of dirty_memory 4 undefined] start(1) sock by auto
  have "map content (template_view s) = all_contents (mo_desk root_main)"
    using reachable_stocked [OF s1 at_start_globals len desk(2) k r] by (simp add: well_stocked_def)
  then have "t_id t = ''t1''" "t_type t = ''wayland''" "t_name t = ''Sway''"
    using t ids all by (auto simp: content_def map_eq_Cons_conv)
  then have "handle_login hello_os 0 (gm_login req) (Some ''seat0'') 4 s = Inr (upd_client 0 (\<lambda>x. x\<lparr>cl_try := Some n\<rparr>) u)"
    using login [of n u] spawn by (simp add: sway_settings_def)
  then show ?thesis using a' s1 r by blast
qed

end
